theory Spec2Isabelle
  imports Complex_Main "HOL-Library.Word" "HOL-Library.Multiset" "HOL-Library.Sublist"
begin

unbundle bit_operations_syntax

section \<open>The binary feature codec of indexer/feature.cpp\<close>

text \<open>
  The theory embeds the builder (\<open>FeatureBuilder1\<close>, \<open>FeatureBuilder2\<close>), the bit packer
  (\<open>BitSink\<close>, \<open>BitSource\<close>) and the lazy reader (\<open>FeatureBase\<close>, \<open>FeatureType\<close>) of
  \<^verbatim>\<open>src/indexer/feature.cpp\<close>.

  Conventions of the embedding:
  \<^item> \<open>uint8_t\<close>, \<open>uint32_t\<close>, \<open>uint64_t\<close> are \<open>8 word\<close>, \<open>32 word\<close>, \<open>64 word\<close>;
    \<open>int\<close> values that are only compared (scales, scale indices, the layer) are \<open>int\<close>;
    container sizes are \<open>nat\<close>.
  \<^item> A \<open>double\<close> is read as a \<open>real\<close>. No theorem below depends on rounding.
  \<^item> A failed \<open>ASSERT\<close> (debug build) is the error \<open>AssertFailed\<close>, a failed
    \<open>CHECK\<close> is \<open>CheckFailed\<close>, an index outside an array or vector is
    \<open>OutOfRange\<close>, a read beyond the end of a buffer is \<open>ReadPastEnd\<close>.
\<close>

datatype error = AssertFailed | CheckFailed | OutOfRange | ReadPastEnd | ContainerError

type_synonym byte = "8 word"
type_synonym buffer_t = "byte list"
type_synonym PointD = "real \<times> real"
type_synonym points_t = "PointD list"
type_synonym PointU = "32 word \<times> 32 word"
type_synonym offsets_t = "32 word list"

record RectD =
  minX :: real
  minY :: real
  maxX :: real
  maxY :: real

subsection \<open>FeatureBuilder1: the data\<close>

record FeatureBuilder1 =
  m_Types :: "32 word list"
  m_Layer :: int
  m_Name :: "byte list"
  m_Center :: PointD
  m_LimitRect :: RectD
  m_Geometry :: points_t
  m_Holes :: "points_t list"
  m_bPoint :: bool
  m_bLinear :: bool
  m_bArea :: bool

subsection \<open>AssignType\_SetDifference\<close>

text \<open>
  \<open>std::set_difference\<close> of the C++ standard library: one pass over two sorted ranges;
  an element of the second range cancels one equal element of the first.
\<close>

fun set_difference :: "'a::linorder list \<Rightarrow> 'a list \<Rightarrow> 'a list" where
  "set_difference [] ys = []"
| "set_difference (x # xs) [] = x # xs"
| "set_difference (x # xs) (y # ys) =
     (if x < y then x # set_difference xs (y # ys)
      else if y < x then set_difference (x # xs) ys
      else set_difference xs ys)"

text \<open>The builder after the call, and the returned flag.\<close>

definition AssignType_SetDifference ::
  "32 word list \<Rightarrow> FeatureBuilder1 \<Rightarrow> FeatureBuilder1 \<times> bool" where
  "AssignType_SetDifference diffTypes fb =
     (let src = sort (m_Types fb);
          fb' = fb\<lparr>m_Types := set_difference src diffTypes\<rparr>
      in (fb', m_Types fb' \<noteq> []))"

subsection \<open>Scale resolution\<close>

definition kInvalidOffset :: "32 word" where
  "kInvalidOffset = - 1"

text \<open>
  The scale header \<open>m_header\<close> is the list of its breakpoints: \<open>GetScalesCount()\<close> is the
  length and \<open>GetScale(i)\<close> the \<open>i\<close>-th element.
\<close>

text \<open>\<open>while (i >= 0 && offsets[i] == kInvalidOffset) --i;\<close>\<close>

function scan_back :: "offsets_t \<Rightarrow> int \<Rightarrow> int" where
  "scan_back offsets i =
     (if i \<ge> 0 \<and> offsets ! nat i = kInvalidOffset then scan_back offsets (i - 1) else i)"
  by pat_completeness auto
termination
  by (relation "measure (\<lambda>(offsets, i). nat (i + 1))") auto

text \<open>The \<open>for\<close> loop of the second branch, from index \<open>i\<close> on.\<close>

function scan_scales :: "int list \<Rightarrow> int \<Rightarrow> offsets_t \<Rightarrow> nat \<Rightarrow> error + int" where
  "scan_scales scales scale offsets i =
     (if i < length scales then
        (if scale \<le> scales ! i then
           (if i < length offsets then
              (if offsets ! i \<noteq> kInvalidOffset then Inr (int i) else Inr (- 1))
            else Inl OutOfRange)
         else scan_scales scales scale offsets (Suc i))
      else Inr (- 1))"
  by pat_completeness auto
termination
  by (relation "measure (\<lambda>(scales, scale, offsets, i). length scales - i)") auto

declare scan_back.simps [simp del]
declare scan_scales.simps [simp del]

text \<open>\<open>FeatureType::GetScaleIndex(int scale, offsets_t const & offsets)\<close>\<close>

definition GetScaleIndex_offsets :: "int list \<Rightarrow> int \<Rightarrow> offsets_t \<Rightarrow> error + int" where
  "GetScaleIndex_offsets scales scale offsets =
     (if scale = - 1 then
        (let i = scan_back offsets (int (length offsets) - 1)
         in if i \<ge> 0 then Inr i else Inl CheckFailed)
      else scan_scales scales scale offsets 0)"

text \<open>
  The resolution rule in the specification's words: the smallest index whose breakpoint
  admits the scale and whose offset is valid; \<open>-1\<close> when there is none.
\<close>

definition spec_scale_index :: "int list \<Rightarrow> int \<Rightarrow> offsets_t \<Rightarrow> int" where
  "spec_scale_index scales scale offsets =
     (case find (\<lambda>i. scale \<le> scales ! i \<and> offsets ! i \<noteq> kInvalidOffset) [0..<length scales] of
        None \<Rightarrow> - 1
      | Some i \<Rightarrow> int i)"

subsection \<open>Byte streams and variable-length integers\<close>

text \<open>
  A byte source (\<open>ArrayByteSource\<close>, \<open>ReaderSource\<close>) is the list of the bytes not yet
  read. Reading beyond the end is the error \<open>ReadPastEnd\<close>.
\<close>

text \<open>
  Modelled from the spec: \<open>WriteVarUint\<close> of coding/varint.hpp, which is not among the
  sources: "standard LEB128-style 7-bits-per-byte, MSB-continuation, unsigned".
\<close>

function WriteVarUint :: "nat \<Rightarrow> buffer_t" where
  "WriteVarUint n =
     (if n > 127 then word_of_nat (n mod 128 + 128) # WriteVarUint (n div 128)
      else [word_of_nat n])"
  by pat_completeness auto
termination
  by (relation "measure (\<lambda>n. n)") auto

declare WriteVarUint.simps [simp del]

text \<open>
  Modelled from the spec: \<open>ReadVarUint\<close> of coding/varint.hpp, the inverse of the above.
  The result is the value read and the rest of the source.
\<close>

fun ReadVarUint :: "buffer_t \<Rightarrow> error + (nat \<times> buffer_t)" where
  "ReadVarUint [] = Inl ReadPastEnd"
| "ReadVarUint (b # bs) =
     (if b AND 128 = 0 then Inr (unat b, bs)
      else (case ReadVarUint bs of
              Inl e \<Rightarrow> Inl e
            | Inr (v, rest) \<Rightarrow> Inr (unat (b AND 127) + 128 * v, rest)))"

text \<open>
  Modelled from the spec: \<open>WriteVarInt\<close> and \<open>ReadVarInt\<close> of coding/varint.hpp:
  "zig-zag transform followed by var\_uint".
\<close>

definition ZigZagEncode :: "int \<Rightarrow> nat" where
  "ZigZagEncode v = (if v \<ge> 0 then nat (2 * v) else nat (- 2 * v - 1))"

definition ZigZagDecode :: "nat \<Rightarrow> int" where
  "ZigZagDecode n = (if even n then int (n div 2) else - int ((n + 1) div 2))"

definition WriteVarInt :: "int \<Rightarrow> buffer_t" where
  "WriteVarInt v = WriteVarUint (ZigZagEncode v)"

definition ReadVarInt :: "buffer_t \<Rightarrow> error + (int \<times> buffer_t)" where
  "ReadVarInt bs =
     (case ReadVarUint bs of Inl e \<Rightarrow> Inl e | Inr (v, rest) \<Rightarrow> Inr (ZigZagDecode v, rest))"

text \<open>\<open>source.Read(ptr, n)\<close>: the next \<open>n\<close> bytes.\<close>

definition ReadBytes :: "buffer_t \<Rightarrow> nat \<Rightarrow> error + (buffer_t \<times> buffer_t)" where
  "ReadBytes bs n = (if n \<le> length bs then Inr (take n bs, drop n bs) else Inl ReadPastEnd)"

subsection \<open>What the file uses and does not define\<close>

datatype FeatureKind = FEATURE_TYPE_POINT | FEATURE_TYPE_LINE | FEATURE_TYPE_AREA

datatype FileTag = GEOMETRY_FILE_TAG | TRIANGLE_FILE_TAG

text \<open>
  The coordinate codec, the path codecs of \<open>serial::\<close>, the region test, the container
  and the constants of feature.hpp are declared in headers that are not among the sources.
  They are parameters of the model, collected in one record. A loader takes the source
  bytes, the base and the vector it appends to, and gives the vector and the bytes left.
\<close>

record ext =
  PointD2PointU :: "real \<Rightarrow> real \<Rightarrow> PointU"
  PointU2PointD :: "PointU \<Rightarrow> PointD"
  EncodeDelta :: "PointU \<Rightarrow> PointU \<Rightarrow> 64 word"
  DecodeDelta :: "64 word \<Rightarrow> PointU \<Rightarrow> PointU"
  Uint64ToPointU :: "64 word \<Rightarrow> PointU"
  GetCellID2PointAbsEpsilon :: real
  GetEmptyRect :: RectD
  SaveOuterPath :: "points_t \<Rightarrow> 64 word \<Rightarrow> buffer_t"
  LoadOuterPath :: "buffer_t \<Rightarrow> 64 word \<Rightarrow> points_t \<Rightarrow> error + (points_t \<times> buffer_t)"
  SaveInnerPath :: "points_t \<Rightarrow> 64 word \<Rightarrow> buffer_t"
  LoadInnerPath :: "buffer_t \<Rightarrow> nat \<Rightarrow> 64 word \<Rightarrow> points_t \<Rightarrow> error + (points_t \<times> buffer_t)"
  SaveInnerTriangles :: "points_t \<Rightarrow> 64 word \<Rightarrow> buffer_t"
  LoadInnerTriangles :: "buffer_t \<Rightarrow> nat \<Rightarrow> 64 word \<Rightarrow> points_t \<Rightarrow> error + (points_t \<times> buffer_t)"
  LoadOuterTriangles :: "buffer_t \<Rightarrow> 64 word \<Rightarrow> points_t \<Rightarrow> error + (points_t \<times> buffer_t)"
  WriteVarUintArray :: "offsets_t \<Rightarrow> buffer_t"
  RegionContains :: "points_t \<Rightarrow> PointD \<Rightarrow> bool"
  GetReader :: "FileTag \<Rightarrow> nat \<Rightarrow> error + buffer_t"
  GetFeatureType :: "byte \<Rightarrow> FeatureKind"
  m_maxTypesCount :: nat
  DEBUG :: bool

text \<open>
  \<open>ASSERT\<close> is checked in the debug build only (\<open>DEBUG\<close>); \<open>CHECK\<close> is checked
  always. Both builds are in the model: a failed \<open>ASSERT\<close> is the error \<open>AssertFailed\<close>
  when \<open>DEBUG\<close> holds and is passed over otherwise.
\<close>

definition ASSERT :: "bool \<Rightarrow> bool \<Rightarrow> bool" where
  "ASSERT dbg cond = (if dbg then cond else True)"

text \<open>Sequencing of steps that may fail: the first error ends the computation.\<close>

definition bindE :: "error + 'a \<Rightarrow> ('a \<Rightarrow> error + 'b) \<Rightarrow> error + 'b" where
  "bindE m f = (case m of Inl e \<Rightarrow> Inl e | Inr x \<Rightarrow> f x)"

text \<open>
  Modelled from the spec: the header bits of feature.hpp, which is not among the sources:
  bits 0..2 the number of types, bit 3 \<open>HAS_NAME\<close>, bit 4 \<open>HAS_LAYER\<close>, bit 5
  \<open>HAS_POINT\<close>, bit 6 \<open>IS_LINE\<close>, bit 7 \<open>IS_AREA\<close>.
\<close>

definition HEADER_HAS_NAME :: byte where "HEADER_HAS_NAME = 8"
definition HEADER_HAS_LAYER :: byte where "HEADER_HAS_LAYER = 16"
definition HEADER_HAS_POINT :: byte where "HEADER_HAS_POINT = 32"
definition HEADER_IS_LINE :: byte where "HEADER_IS_LINE = 64"
definition HEADER_IS_AREA :: byte where "HEADER_IS_AREA = 128"

text \<open>
  Modelled from the spec: \<open>m2::RectD::Add\<close> of geometry/rect2d.hpp, which is not among
  the sources: the rectangle grows to the bounding rectangle of what it held and the point.
\<close>

definition RectD_Add :: "RectD \<Rightarrow> PointD \<Rightarrow> RectD" where
  "RectD_Add r p =
     \<lparr>minX = min (fst p) (minX r), minY = min (snd p) (minY r),
      maxX = max (fst p) (maxX r), maxY = max (snd p) (maxY r)\<rparr>"

text \<open>\<open>CalcRect\<close>: every point is added to the rectangle, in order.\<close>

definition CalcRect :: "points_t \<Rightarrow> RectD \<Rightarrow> RectD" where
  "CalcRect points rect = foldl RectD_Add rect points"

subsection \<open>FeatureBuilder1: the operations\<close>

text \<open>The constructor. The limit rectangle starts empty.\<close>

definition FeatureBuilder1_new :: "ext \<Rightarrow> FeatureBuilder1" where
  "FeatureBuilder1_new X =
     \<lparr>m_Types = [], m_Layer = 0, m_Name = [], m_Center = (0, 0),
      m_LimitRect = GetEmptyRect X, m_Geometry = [], m_Holes = [],
      m_bPoint = False, m_bLinear = False, m_bArea = False\<rparr>"

definition IsGeometryClosed :: "FeatureBuilder1 \<Rightarrow> bool" where
  "IsGeometryClosed fb =
     (length (m_Geometry fb) > 2 \<and> hd (m_Geometry fb) = last (m_Geometry fb))"

definition SetCenter :: "PointD \<Rightarrow> FeatureBuilder1 \<Rightarrow> FeatureBuilder1" where
  "SetCenter p fb = fb\<lparr>m_Center := p, m_bPoint := True, m_LimitRect := RectD_Add (m_LimitRect fb) p\<rparr>"

definition AddPoint :: "PointD \<Rightarrow> FeatureBuilder1 \<Rightarrow> FeatureBuilder1" where
  "AddPoint p fb = fb\<lparr>m_Geometry := m_Geometry fb @ [p], m_LimitRect := RectD_Add (m_LimitRect fb) p\<rparr>"

text \<open>
  The loop of \<open>SetAreaAddHoles\<close> over the candidate holes: a hole is kept when the region
  of the outer geometry contains its first point. An empty hole fails the \<open>ASSERT\<close>;
  without the \<open>ASSERT\<close>, \<open>front()\<close> of an empty vector is outside the vector.
\<close>

fun add_holes :: "ext \<Rightarrow> points_t \<Rightarrow> points_t list \<Rightarrow> points_t list \<Rightarrow> error + points_t list" where
  "add_holes X geometry [] acc = Inr acc"
| "add_holes X geometry (h # hs) acc =
     (if \<not> ASSERT (DEBUG X) (h \<noteq> []) then Inl AssertFailed
      else if h = [] then Inl OutOfRange
      else add_holes X geometry hs (if RegionContains X geometry (hd h) then acc @ [h] else acc))"

definition SetAreaAddHoles :: "ext \<Rightarrow> points_t list \<Rightarrow> FeatureBuilder1 \<Rightarrow> error + FeatureBuilder1" where
  "SetAreaAddHoles X holes fb =
     (let fb1 = fb\<lparr>m_bArea := True, m_Holes := []\<rparr>
      in if holes = [] then Inr fb1
         else (case add_holes X (m_Geometry fb1) holes (m_Holes fb1) of
                 Inl e \<Rightarrow> Inl e
               | Inr hs \<Rightarrow> Inr (fb1\<lparr>m_Holes := hs\<rparr>)))"

definition AddName :: "byte list \<Rightarrow> FeatureBuilder1 \<Rightarrow> FeatureBuilder1" where
  "AddName name fb = fb\<lparr>m_Name := name\<rparr>"

definition IsTypeExist :: "32 word \<Rightarrow> FeatureBuilder1 \<Rightarrow> bool" where
  "IsTypeExist t fb = (t \<in> set (m_Types fb))"

definition AddLayer :: "int \<Rightarrow> FeatureBuilder1 \<Rightarrow> FeatureBuilder1" where
  "AddLayer layer fb =
     (let bound = 10;
          l = (if layer < - bound then - bound else if layer > bound then bound else layer)
      in fb\<lparr>m_Layer := l\<rparr>)"

text \<open>
  Modelled from the spec: \<open>AddTypes\<close> and \<open>SetLinear\<close> of feature.hpp, which is not among
  the sources: "add\_type appends; the builder keeps insertion order", "set\_linear sets
  the relevant flag".
\<close>

definition AddTypes :: "32 word list \<Rightarrow> FeatureBuilder1 \<Rightarrow> FeatureBuilder1" where
  "AddTypes ts fb = fb\<lparr>m_Types := m_Types fb @ ts\<rparr>"

definition SetLinear :: "FeatureBuilder1 \<Rightarrow> FeatureBuilder1" where
  "SetLinear fb = fb\<lparr>m_bLinear := True\<rparr>"

text \<open>The three overloads of \<open>is_equal\<close> on doubles, points and rectangles.\<close>

definition is_equal_d :: "ext \<Rightarrow> real \<Rightarrow> real \<Rightarrow> bool" where
  "is_equal_d X d1 d2 = (\<bar>d1 - d2\<bar> < GetCellID2PointAbsEpsilon X)"

text \<open>
  Modelled from the spec: \<open>PointD::EqualDxDy\<close> of geometry/point2d.hpp, which is not among
  the sources: equality of both coordinates up to the absolute epsilon.
\<close>

definition is_equal_p :: "ext \<Rightarrow> PointD \<Rightarrow> PointD \<Rightarrow> bool" where
  "is_equal_p X p1 p2 =
     (\<bar>fst p1 - fst p2\<bar> < GetCellID2PointAbsEpsilon X \<and>
      \<bar>snd p1 - snd p2\<bar> < GetCellID2PointAbsEpsilon X)"

definition is_equal_r :: "ext \<Rightarrow> RectD \<Rightarrow> RectD \<Rightarrow> bool" where
  "is_equal_r X r1 r2 =
     (is_equal_d X (minX r1) (minX r2) \<and> is_equal_d X (minY r1) (minY r2) \<and>
      is_equal_d X (maxX r1) (maxX r2) \<and> is_equal_d X (maxY r1) (maxY r2))"

text \<open>\<open>is_equal\<close> on vectors of points: the loop from index \<open>i\<close> on, after the size test.\<close>

function is_equal_v_loop :: "ext \<Rightarrow> points_t \<Rightarrow> points_t \<Rightarrow> nat \<Rightarrow> bool" where
  "is_equal_v_loop X v1 v2 i =
     (if i < length v1 then
        (if \<not> is_equal_p X (v1 ! i) (v2 ! i) then False else is_equal_v_loop X v1 v2 (Suc i))
      else True)"
  by pat_completeness auto
termination
  by (relation "measure (\<lambda>(X, v1, v2, i). length v1 - i)") auto

declare is_equal_v_loop.simps [simp del]

definition is_equal_v :: "ext \<Rightarrow> points_t \<Rightarrow> points_t \<Rightarrow> bool" where
  "is_equal_v X v1 v2 = (if length v1 \<noteq> length v2 then False else is_equal_v_loop X v1 v2 0)"

text \<open>The final loop of \<open>operator==\<close> over the two hole lists, which have the same size.\<close>

fun is_equal_holes :: "ext \<Rightarrow> points_t list \<Rightarrow> points_t list \<Rightarrow> bool" where
  "is_equal_holes X [] js = True"
| "is_equal_holes X (i # is) [] = True"
| "is_equal_holes X (i # is) (j # js) =
     (if \<not> is_equal_v X i j then False else is_equal_holes X is js)"

text \<open>\<open>FeatureBuilder1::operator==\<close>\<close>

definition FeatureBuilder1_eq :: "ext \<Rightarrow> FeatureBuilder1 \<Rightarrow> FeatureBuilder1 \<Rightarrow> bool" where
  "FeatureBuilder1_eq X a fb =
     (if m_Types a \<noteq> m_Types fb \<or> m_Layer a \<noteq> m_Layer fb \<or> m_Name a \<noteq> m_Name fb \<or>
         m_bPoint a \<noteq> m_bPoint fb \<or> m_bLinear a \<noteq> m_bLinear fb \<or> m_bArea a \<noteq> m_bArea fb
      then False
      else if m_bPoint a \<and> \<not> is_equal_p X (m_Center a) (m_Center fb) then False
      else if \<not> is_equal_r X (m_LimitRect a) (m_LimitRect fb) then False
      else if \<not> is_equal_v X (m_Geometry a) (m_Geometry fb) then False
      else if length (m_Holes a) \<noteq> length (m_Holes fb) then False
      else is_equal_holes X (m_Holes a) (m_Holes fb))"

text \<open>\<open>CheckValid\<close>: every \<open>CHECK\<close> in order; the function returns true when all pass.\<close>

definition CheckValid :: "ext \<Rightarrow> FeatureBuilder1 \<Rightarrow> error + bool" where
  "CheckValid X fb =
     (if \<not> (m_Types fb \<noteq> [] \<and> length (m_Types fb) \<le> m_maxTypesCount X) then Inl CheckFailed
      else if \<not> (m_Layer fb \<ge> - 10 \<and> m_Layer fb \<le> 10) then Inl CheckFailed
      else if \<not> (m_bPoint fb \<or> m_bLinear fb \<or> m_bArea fb) then Inl CheckFailed
      else if \<not> (\<not> m_bLinear fb \<or> length (m_Geometry fb) \<ge> 2) then Inl CheckFailed
      else if \<not> (\<not> m_bArea fb \<or> length (m_Geometry fb) \<ge> 3) then Inl CheckFailed
      else if \<not> (m_Holes fb = [] \<or> m_bArea fb) then Inl CheckFailed
      else if \<not> list_all (\<lambda>h. length h \<ge> 3) (m_Holes fb) then Inl CheckFailed
      else Inr True)"

definition GetHeader :: "FeatureBuilder1 \<Rightarrow> byte" where
  "GetHeader fb =
     (let h0 = (word_of_nat (length (m_Types fb)) :: byte);
          h1 = (if m_Name fb \<noteq> [] then h0 OR HEADER_HAS_NAME else h0);
          h2 = (if m_Layer fb \<noteq> 0 then h1 OR HEADER_HAS_LAYER else h1);
          h3 = (if m_bPoint fb then h2 OR HEADER_HAS_POINT else h2);
          h4 = (if m_bLinear fb then h3 OR HEADER_IS_LINE else h3);
          h5 = (if m_bArea fb then h4 OR HEADER_IS_AREA else h4)
      in h5)"

text \<open>\<open>SerializeBase\<close>: the bytes pushed to the back of \<open>data\<close>.\<close>

definition SerializeBase :: "ext \<Rightarrow> FeatureBuilder1 \<Rightarrow> buffer_t \<Rightarrow> PointU \<Rightarrow> buffer_t" where
  "SerializeBase X fb data basePoint =
     data @ [GetHeader fb]
       @ concat (map (\<lambda>t. WriteVarUint (unat t)) (m_Types fb))
       @ (if m_Layer fb \<noteq> 0 then WriteVarInt (m_Layer fb) else [])
       @ (if m_Name fb \<noteq> [] then WriteVarUint (length (m_Name fb) - 1) @ m_Name fb else [])
       @ (if m_bPoint fb
          then WriteVarUint (unat (EncodeDelta X (PointD2PointU X (fst (m_Center fb)) (snd (m_Center fb))) basePoint))
          else [])"

text \<open>
  The body of \<open>FeatureBuilder1::Serialize\<close> before the self-check: the validity
  \<open>CHECK\<close>, then the base block from the origin, the outer path of the geometry and the
  holes with their cnt.
\<close>

definition Serialize_body :: "ext \<Rightarrow> FeatureBuilder1 \<Rightarrow> error + buffer_t" where
  "Serialize_body X fb =
     bindE (CheckValid X fb) (\<lambda>_.
       Inr (SerializeBase X fb [] (0, 0)
            @ (if m_bLinear fb \<or> m_bArea fb then SaveOuterPath X (m_Geometry fb) 0 else [])
            @ (if m_bArea fb
               then WriteVarUint (unat (word_of_nat (length (m_Holes fb)) :: 32 word))
                    @ concat (map (\<lambda>h. SaveOuterPath X h 0) (m_Holes fb))
               else [])))"

subsection \<open>FeatureBase\<close>

text \<open>
  The fields of \<open>FeatureBase\<close>. Those that share a name with a field of the builder
  carry the prefix \<open>r\<close> here. Offsets into the data are \<open>nat\<close>. \<open>r_Types\<close> is the
  array of \<open>m_maxTypesCount\<close> entries.
\<close>

record FeatureBase =
  m_Data :: buffer_t
  m_Offset :: nat
  m_base :: "64 word"
  m_CommonOffset :: nat
  m_Header2Offset :: nat
  m_bTypesParsed :: bool
  m_bCommonParsed :: bool
  r_Types :: "32 word list"
  r_Layer :: int
  r_Name :: "byte list"
  r_Center :: PointD
  r_LimitRect :: RectD

definition FeatureBase_Deserialize ::
  "ext \<Rightarrow> buffer_t \<Rightarrow> nat \<Rightarrow> 64 word \<Rightarrow> 'a FeatureBase_scheme \<Rightarrow> 'a FeatureBase_scheme" where
  "FeatureBase_Deserialize X data offset base f =
     f\<lparr>m_Offset := offset, m_Data := data, m_base := base,
       m_CommonOffset := 0, m_Header2Offset := 0,
       m_bTypesParsed := False, m_bCommonParsed := False,
       r_Layer := 0, r_Name := [], r_LimitRect := GetEmptyRect X\<rparr>"

text \<open>
  Modelled from the spec: \<open>DataPtr\<close>, \<open>Header\<close>, \<open>GetTypesCount\<close> and \<open>m_TypesOffset\<close>
  of feature.hpp, which is not among the sources: the feature starts at \<open>m_Offset\<close> with
  the header byte; the number of types is "header bits 0..2"; the types are read "from
  the byte following the header".
\<close>

definition DataPtr :: "'a FeatureBase_scheme \<Rightarrow> buffer_t" where
  "DataPtr f = drop (m_Offset f) (m_Data f)"

definition Header :: "'a FeatureBase_scheme \<Rightarrow> error + byte" where
  "Header f = (case DataPtr f of [] \<Rightarrow> Inl ReadPastEnd | h # _ \<Rightarrow> Inr h)"

definition GetTypesCount :: "'a FeatureBase_scheme \<Rightarrow> error + nat" where
  "GetTypesCount f = bindE (Header f) (\<lambda>h. Inr (unat (h AND 7)))"

definition m_TypesOffset :: nat where
  "m_TypesOffset = 1"

text \<open>
  \<open>CalcOffset\<close>: the distance of the source's position from \<open>DataPtr()\<close>, given the bytes
  the source has left.
\<close>

definition CalcOffset :: "'a FeatureBase_scheme \<Rightarrow> buffer_t \<Rightarrow> nat" where
  "CalcOffset f source = length (DataPtr f) - length source"

text \<open>The loop of \<open>ParseTypes\<close>, from index \<open>i\<close> on: the array and the source after it.\<close>

function ParseTypes_loop ::
  "nat \<Rightarrow> nat \<Rightarrow> 32 word list \<Rightarrow> buffer_t \<Rightarrow> error + (32 word list \<times> buffer_t)" where
  "ParseTypes_loop cnt i types source =
     (if i < cnt then
        bindE (ReadVarUint source) (\<lambda>(v, rest).
          if i < length types then ParseTypes_loop cnt (Suc i) (types[i := word_of_nat v]) rest
          else Inl OutOfRange)
      else Inr (types, source))"
  by pat_completeness auto
termination
  by (relation "measure (\<lambda>(cnt, i, types, source). cnt - i)") auto

declare ParseTypes_loop.simps [simp del]

definition ParseTypes :: "ext \<Rightarrow> 'a FeatureBase_scheme \<Rightarrow> error + 'a FeatureBase_scheme" where
  "ParseTypes X f =
     (if \<not> ASSERT (DEBUG X) (\<not> m_bTypesParsed f) then Inl AssertFailed
      else bindE (GetTypesCount f) (\<lambda>cnt.
           bindE (ParseTypes_loop cnt 0 (r_Types f) (drop m_TypesOffset (DataPtr f))) (\<lambda>(types, source).
             Inr (f\<lparr>r_Types := types, m_bTypesParsed := True,
                    m_CommonOffset := CalcOffset f source\<rparr>))))"

text \<open>
  \<open>ParseCommon\<close>, in the order of the source: the three optional parts (layer, name,
  centre point), each from the source position the part before it left, then the function.
\<close>

definition ParseCommon_layer ::
  "byte \<Rightarrow> 'a FeatureBase_scheme \<Rightarrow> buffer_t \<Rightarrow> error + ('a FeatureBase_scheme \<times> buffer_t)" where
  "ParseCommon_layer h f source =
     (if h AND HEADER_HAS_LAYER \<noteq> 0
      then bindE (ReadVarInt source) (\<lambda>(l, rest). Inr (f\<lparr>r_Layer := l\<rparr>, rest))
      else Inr (f, source))"

definition ParseCommon_name ::
  "byte \<Rightarrow> 'a FeatureBase_scheme \<Rightarrow> buffer_t \<Rightarrow> error + ('a FeatureBase_scheme \<times> buffer_t)" where
  "ParseCommon_name h f source =
     (if h AND HEADER_HAS_NAME \<noteq> 0
      then bindE (ReadVarUint source) (\<lambda>(n, rest).
           bindE (ReadBytes rest (unat ((word_of_nat n :: 32 word) + 1))) (\<lambda>(name, rest').
             Inr (f\<lparr>r_Name := name\<rparr>, rest')))
      else Inr (f, source))"

definition ParseCommon_point ::
  "ext \<Rightarrow> byte \<Rightarrow> 'a FeatureBase_scheme \<Rightarrow> buffer_t \<Rightarrow> error + ('a FeatureBase_scheme \<times> buffer_t)" where
  "ParseCommon_point X h f source =
     (if h AND HEADER_HAS_POINT \<noteq> 0
      then bindE (ReadVarUint source) (\<lambda>(d, rest).
             Inr (f\<lparr>r_Center := PointU2PointD X
                               (DecodeDelta X (word_of_nat d) (Uint64ToPointU X (m_base f))),
                    r_LimitRect := RectD_Add (r_LimitRect f)
                               (PointU2PointD X
                                 (DecodeDelta X (word_of_nat d) (Uint64ToPointU X (m_base f))))\<rparr>,
                  rest))
      else Inr (f, source))"

definition ParseCommon :: "ext \<Rightarrow> 'a FeatureBase_scheme \<Rightarrow> error + 'a FeatureBase_scheme" where
  "ParseCommon X f0 =
     (if \<not> ASSERT (DEBUG X) (\<not> m_bCommonParsed f0) then Inl AssertFailed
      else bindE (if \<not> m_bTypesParsed f0 then ParseTypes X f0 else Inr f0) (\<lambda>f.
           bindE (Header f) (\<lambda>h.
           bindE (ParseCommon_layer h f (drop (m_CommonOffset f) (DataPtr f))) (\<lambda>(f1, src1).
           bindE (ParseCommon_name h f1 src1) (\<lambda>(f2, src2).
           bindE (ParseCommon_point X h f2 src2) (\<lambda>(f3, src3).
             Inr (f3\<lparr>m_bCommonParsed := True, m_Header2Offset := CalcOffset f3 src3\<rparr>)))))))"

text \<open>\<open>FeatureBase::ParseAll\<close>\<close>

definition FeatureBase_ParseAll :: "ext \<Rightarrow> 'a FeatureBase_scheme \<Rightarrow> error + 'a FeatureBase_scheme" where
  "FeatureBase_ParseAll X f = (if \<not> m_bCommonParsed f then ParseCommon X f else Inr f)"

text \<open>\<open>InitFeatureBuilder\<close>: the feature after parsing, and the builder it filled.\<close>

definition InitFeatureBuilder ::
  "ext \<Rightarrow> 'a FeatureBase_scheme \<Rightarrow> FeatureBuilder1 \<Rightarrow> error + ('a FeatureBase_scheme \<times> FeatureBuilder1)" where
  "InitFeatureBuilder X f0 fb =
     bindE (FeatureBase_ParseAll X f0) (\<lambda>f.
     bindE (GetTypesCount f) (\<lambda>cnt.
     bindE (Header f) (\<lambda>h.
       let fb1 = AddName (r_Name f) (AddLayer (r_Layer f) (AddTypes (take cnt (r_Types f)) fb));
           fb2 = (if h AND HEADER_HAS_POINT \<noteq> 0 then SetCenter (r_Center f) fb1 else fb1);
           fb3 = (if h AND HEADER_IS_LINE \<noteq> 0 then SetLinear fb2 else fb2)
       in bindE (if h AND HEADER_IS_AREA \<noteq> 0 then SetAreaAddHoles X [] fb3 else Inr fb3) (\<lambda>fb4.
            Inr (f, fb4)))))"

text \<open>A default-constructed \<open>FeatureBase\<close>; \<open>Deserialize\<close> sets what is read later.\<close>

definition FeatureBase_new :: "ext \<Rightarrow> FeatureBase" where
  "FeatureBase_new X =
     \<lparr>m_Data = [], m_Offset = 0, m_base = 0, m_CommonOffset = 0, m_Header2Offset = 0,
      m_bTypesParsed = False, m_bCommonParsed = False,
      r_Types = replicate (m_maxTypesCount X) 0, r_Layer = 0, r_Name = [],
      r_Center = (0, 0), r_LimitRect = GetEmptyRect X\<rparr>"

text \<open>The loop of \<open>FeatureBuilder1::Deserialize\<close> that loads \<open>cnt\<close> holes.\<close>

function load_holes ::
  "ext \<Rightarrow> nat \<Rightarrow> nat \<Rightarrow> points_t list \<Rightarrow> buffer_t \<Rightarrow> error + (points_t list \<times> buffer_t)" where
  "load_holes X cnt i holes src =
     (if i < cnt then
        bindE (LoadOuterPath X src 0 []) (\<lambda>(h, rest).
          load_holes X cnt (Suc i) (holes @ [h]) rest)
      else Inr (holes, src))"
  by pat_completeness auto
termination
  by (relation "measure (\<lambda>(X, cnt, i, holes, src). cnt - i)") auto

declare load_holes.simps [simp del]

text \<open>\<open>FeatureBuilder1::Deserialize\<close>, on the builder \<open>fb0\<close> it is called for.\<close>

definition Deserialize :: "ext \<Rightarrow> buffer_t \<Rightarrow> FeatureBuilder1 \<Rightarrow> error + FeatureBuilder1" where
  "Deserialize X data fb0 =
     bindE (InitFeatureBuilder X (FeatureBase_Deserialize X data 0 0 (FeatureBase_new X)) fb0) (\<lambda>(f, fb).
     bindE (if m_bLinear fb \<or> m_bArea fb
            then bindE (LoadOuterPath X (drop (m_Header2Offset f) (DataPtr f)) 0 (m_Geometry fb)) (\<lambda>(g, rest).
                   Inr (fb\<lparr>m_Geometry := g, m_LimitRect := CalcRect g (m_LimitRect fb)\<rparr>, rest))
            else Inr (fb, drop (m_Header2Offset f) (DataPtr f))) (\<lambda>(fb1, src1).
     bindE (if m_bArea fb1
            then bindE (ReadVarUint src1) (\<lambda>(n, rest).
                 bindE (load_holes X (unat (word_of_nat n :: 32 word)) 0 (m_Holes fb1) rest) (\<lambda>(hs, rest').
                   Inr (fb1\<lparr>m_Holes := hs\<rparr>)))
            else Inr fb1) (\<lambda>fb2.
     bindE (CheckValid X fb2) (\<lambda>_. Inr fb2))))"

text \<open>
  \<open>FeatureBuilder1::Serialize\<close>. In the debug build the buffer is deserialized into a
  new builder, which the \<open>ASSERT\<close> compares with this one.
\<close>

definition Serialize :: "ext \<Rightarrow> FeatureBuilder1 \<Rightarrow> error + buffer_t" where
  "Serialize X fb =
     bindE (Serialize_body X fb) (\<lambda>data.
       if DEBUG X
       then bindE (Deserialize X data (FeatureBuilder1_new X)) (\<lambda>fb'.
              if FeatureBuilder1_eq X fb' fb then Inr data else Inl AssertFailed)
       else Inr data)"

subsection \<open>BitSink\<close>

text \<open>\<open>m_sink\<close> is the byte sink the bit sink writes to: the bytes pushed so far.\<close>

record BitSink =
  m_sink :: buffer_t
  m_pos :: byte
  m_current :: byte

definition BitSink_new :: "buffer_t \<Rightarrow> BitSink" where
  "BitSink_new sink = \<lparr>m_sink = sink, m_pos = 0, m_current = 0\<rparr>"

definition BitSink_Finish :: "BitSink \<Rightarrow> BitSink" where
  "BitSink_Finish bs =
     (if m_pos bs > 0 then bs\<lparr>m_sink := m_sink bs @ [m_current bs], m_pos := 0, m_current := 0\<rparr>
      else bs)"

text \<open>
  \<open>BitSink::Write\<close>. The sum \<open>m_pos + count\<close> is an \<open>int\<close> in the source and does not
  wrap; the shifted value is cut to a byte when it is or-ed into \<open>m_current\<close>.
\<close>

definition BitSink_Write :: "bool \<Rightarrow> byte \<Rightarrow> byte \<Rightarrow> BitSink \<Rightarrow> error + BitSink" where
  "BitSink_Write dbg val cnt bs =
     (if \<not> ASSERT dbg (cnt < 9) then Inl AssertFailed
      else if \<not> ASSERT dbg (drop_bit (unat cnt) val = 0) then Inl AssertFailed
      else let bs1 = (if unat (m_pos bs) + unat cnt > 8 then BitSink_Finish bs else bs)
           in Inr (bs1\<lparr>m_current := m_current bs1 OR push_bit (unat (m_pos bs1)) val,
                       m_pos := m_pos bs1 + cnt\<rparr>))"

subsection \<open>FeatureBuilder2::Serialize\<close>

record buffers_holder_t =
  m_ptsOffset :: offsets_t
  m_trgOffset :: offsets_t
  m_ptsMask :: byte
  m_trgMask :: byte
  m_ptsSimpMask :: "32 word"
  m_innerPts :: points_t
  m_innerTrg :: points_t
  m_buffer :: buffer_t

text \<open>The loop that writes \<open>cnt\<close> bytes of the simplification mask, lowest byte first.\<close>

primrec write_simp_mask :: "32 word \<Rightarrow> nat \<Rightarrow> buffer_t" where
  "write_simp_mask v 0 = []"
| "write_simp_mask v (Suc n) = ucast v # write_simp_mask (drop_bit 8 v) n"

text \<open>
  \<open>FeatureBuilder2::Serialize\<close>: the holder after the call. The offset vectors are
  reversed in place before they are written.
\<close>

definition Serialize2 :: "ext \<Rightarrow> FeatureBuilder1 \<Rightarrow> buffers_holder_t \<Rightarrow> 64 word \<Rightarrow> error + buffers_holder_t" where
  "Serialize2 X fb data base =
     (let sink0 = SerializeBase X fb [] (Uint64ToPointU X base);
          ptsCount = (word_of_nat (length (m_innerPts data)) :: byte);
          trgCount0 = (word_of_nat (length (m_innerTrg data)) :: byte)
      in if trgCount0 > 0 \<and> \<not> ASSERT (DEBUG X) (trgCount0 > 2) then Inl AssertFailed
         else let trgCount = (if trgCount0 > 0 then trgCount0 - 2 else trgCount0)
      in bindE (if m_bLinear fb
                then bindE (BitSink_Write (DEBUG X) ptsCount 4 (BitSink_new sink0)) (\<lambda>b.
                       if ptsCount = 0 then BitSink_Write (DEBUG X) (m_ptsMask data) 4 b else Inr b)
                else Inr (BitSink_new sink0)) (\<lambda>b1.
         bindE (if m_bArea fb
                then bindE (BitSink_Write (DEBUG X) trgCount 4 b1) (\<lambda>b.
                       if trgCount = 0 then BitSink_Write (DEBUG X) (m_trgMask data) 4 b else Inr b)
                else Inr b1) (\<lambda>b2.
         let sink1 = m_sink (BitSink_Finish b2);
             (data1, sink2) =
               (if m_bLinear fb then
                  (if ptsCount > 0 then
                     (data, sink1
                        @ (if ptsCount > 2
                           then write_simp_mask (m_ptsSimpMask data) ((unat ptsCount + 1) div 4)
                           else [])
                        @ SaveInnerPath X (m_innerPts data) base)
                   else
                     (data\<lparr>m_ptsOffset := rev (m_ptsOffset data)\<rparr>,
                      sink1 @ WriteVarUintArray X (rev (m_ptsOffset data))))
                else (data, sink1));
             (data2, sink3) =
               (if m_bArea fb then
                  (if trgCount > 0 then
                     (data1, sink2 @ SaveInnerTriangles X (m_innerTrg data1) base)
                   else
                     (data1\<lparr>m_trgOffset := rev (m_trgOffset data1)\<rparr>,
                      sink2 @ WriteVarUintArray X (rev (m_trgOffset data1))))
                else (data1, sink2))
         in Inr (data2\<lparr>m_buffer := sink3\<rparr>))))"

subsection \<open>BitSource\<close>

text \<open>\<open>m_ptr\<close> is the list of the bytes from the pointer on.\<close>

record BitSource =
  m_ptr :: buffer_t
  m_rpos :: byte

definition BitSource_new :: "buffer_t \<Rightarrow> BitSource" where
  "BitSource_new p = \<lparr>m_ptr = p, m_rpos = 0\<rparr>"

text \<open>The value \<open>v\<close> that \<open>BitSource::Read\<close> takes from the current byte \<open>b\<close>.\<close>

definition BitSource_bits :: "byte \<Rightarrow> byte \<Rightarrow> byte \<Rightarrow> byte" where
  "BitSource_bits b pos cnt = drop_bit (unat pos) b AND mask (unat cnt)"

definition BitSource_Read :: "bool \<Rightarrow> byte \<Rightarrow> BitSource \<Rightarrow> error + (byte \<times> BitSource)" where
  "BitSource_Read dbg cnt s =
     (if \<not> ASSERT dbg (cnt < 9) then Inl AssertFailed
      else (case m_ptr s of
              [] \<Rightarrow> Inl ReadPastEnd
            | b # rest \<Rightarrow>
                let v = BitSource_bits b (m_rpos s) cnt;
                    pos = m_rpos s + cnt
                in if pos \<ge> 8 then
                     (if \<not> ASSERT dbg (pos = 8) then Inl AssertFailed
                      else Inr (v, s\<lparr>m_ptr := rest, m_rpos := 0\<rparr>))
                   else Inr (v, s\<lparr>m_rpos := pos\<rparr>)))"

definition BitSource_RoundPtr :: "BitSource \<Rightarrow> buffer_t" where
  "BitSource_RoundPtr s = (if m_rpos s > 0 then drop 1 (m_ptr s) else m_ptr s)"

definition ReadByte :: "buffer_t \<Rightarrow> error + (byte \<times> buffer_t)" where
  "ReadByte src = (case src of [] \<Rightarrow> Inl ReadPastEnd | b # rest \<Rightarrow> Inr (b, rest))"

subsection \<open>FeatureType\<close>

text \<open>
  The reader. \<open>m_scales\<close> stands for the scale header \<open>m_header\<close>; the container \<open>m_cont\<close>
  is \<open>GetReader\<close> of the parameters. \<open>r_ptsSimpMask\<close> is the reader's \<open>m_ptsSimpMask\<close>;
  \<open>m_InnerStats\<close> is its three counters.
\<close>

record FeatureType = FeatureBase +
  m_scales :: "int list"
  m_bHeader2Parsed :: bool
  m_bPointsParsed :: bool
  m_bTrianglesParsed :: bool
  r_ptsSimpMask :: "32 word"
  m_Points :: points_t
  m_Triangles :: points_t
  m_ptsOffsets :: offsets_t
  m_trgOffsets :: offsets_t
  m_InnerStats_Points :: nat
  m_InnerStats_Strips :: nat
  m_InnerStats_Size :: nat

text \<open>\<open>FeatureType::Deserialize\<close> from a read source with the given header and data.\<close>

definition FeatureType_Deserialize ::
  "ext \<Rightarrow> int list \<Rightarrow> 64 word \<Rightarrow> buffer_t \<Rightarrow> nat \<Rightarrow> FeatureType \<Rightarrow> FeatureType" where
  "FeatureType_Deserialize X scales hbase data offset ft =
     FeatureBase_Deserialize X data offset hbase
       (ft\<lparr>m_scales := scales, m_Points := [], m_Triangles := [],
           m_bHeader2Parsed := False, m_bPointsParsed := False, m_bTrianglesParsed := False,
           r_ptsSimpMask := 0,
           m_InnerStats_Points := 0, m_InnerStats_Strips := 0, m_InnerStats_Size := 0\<rparr>)"

text \<open>\<open>FeatureType::GetScaleIndex(int scale)\<close>: the loop from \<open>i\<close> on, and the function.\<close>

function scan_first :: "int list \<Rightarrow> int \<Rightarrow> nat \<Rightarrow> int" where
  "scan_first scales scale i =
     (if i < length scales then
        (if scale \<le> scales ! i then int i else scan_first scales scale (Suc i))
      else - 1)"
  by pat_completeness auto
termination
  by (relation "measure (\<lambda>(scales, scale, i). length scales - i)") auto

declare scan_first.simps [simp del]

definition GetScaleIndex :: "int list \<Rightarrow> int \<Rightarrow> int" where
  "GetScaleIndex scales scale =
     (if scale = - 1 then int (length scales) - 1 else scan_first scales scale 0)"

text \<open>\<open>ReadOffsets\<close>: the loop, with the mask left, the index, the array and the source.\<close>

function ReadOffsets_loop ::
  "bool \<Rightarrow> nat \<Rightarrow> byte \<Rightarrow> nat \<Rightarrow> offsets_t \<Rightarrow> buffer_t \<Rightarrow> error + (offsets_t \<times> buffer_t)" where
  "ReadOffsets_loop dbg scalesCount msk index offsets src =
     (if msk > 0 then
        (if \<not> ASSERT dbg (index < scalesCount) then Inl AssertFailed
         else bindE (if msk AND 1 \<noteq> 0
                     then bindE (ReadVarUint src) (\<lambda>(v, rest). Inr (word_of_nat v :: 32 word, rest))
                     else Inr (kInvalidOffset, src)) (\<lambda>(v, rest).
                if index < length offsets
                then ReadOffsets_loop dbg scalesCount (drop_bit 1 msk) (Suc index) (offsets[index := v]) rest
                else Inl OutOfRange))
      else Inr (offsets, src))"
  by pat_completeness auto
termination
proof (relation "measure (\<lambda>(dbg, scalesCount, msk, index, offsets, src). unat msk)")
  show "wf (measure (\<lambda>(dbg, scalesCount, msk, index, offsets, src). unat msk))"
    by simp
next
  fix dbg :: bool and scalesCount :: nat and msk :: byte and index :: nat
    and offsets :: offsets_t and src :: buffer_t and x :: "32 word \<times> buffer_t"
    and xa :: "32 word" and y :: buffer_t
  assume "0 < msk"
  then have "unat msk \<noteq> 0"
    by (simp add: unat_eq_0 word_neq_0_conv)
  then have "unat msk div 2 < unat msk"
    by simp
  then show "((dbg, scalesCount, drop_bit 1 msk, Suc index, offsets[index := xa], y),
              (dbg, scalesCount, msk, index, offsets, src))
             \<in> measure (\<lambda>(dbg, scalesCount, msk, index, offsets, src). unat msk)"
    by (simp add: unat_drop_bit_eq drop_bit_eq_div unat_div)
qed

declare ReadOffsets_loop.simps [simp del]

definition ReadOffsets ::
  "ext \<Rightarrow> nat \<Rightarrow> buffer_t \<Rightarrow> byte \<Rightarrow> offsets_t \<Rightarrow> error + (offsets_t \<times> buffer_t)" where
  "ReadOffsets X scalesCount src msk offsets =
     (if \<not> ASSERT (DEBUG X) (msk > 0) then Inl AssertFailed
      else ReadOffsets_loop (DEBUG X) scalesCount msk 0 offsets src)"

text \<open>
  The loop of \<open>ParseHeader2\<close> that reads \<open>cnt\<close> bytes of the simplification mask and
  adds each, shifted to its place, to \<open>m_ptsSimpMask\<close>.
\<close>

function read_simp_mask :: "nat \<Rightarrow> nat \<Rightarrow> 32 word \<Rightarrow> buffer_t \<Rightarrow> error + (32 word \<times> buffer_t)" where
  "read_simp_mask cnt i m src =
     (if i < cnt then
        bindE (ReadByte src) (\<lambda>(b, rest).
          read_simp_mask cnt (Suc i) (m + push_bit (push_bit 3 i) (ucast b)) rest)
      else Inr (m, src))"
  by pat_completeness auto
termination
  by (relation "measure (\<lambda>(cnt, i, m, src). cnt - i)") auto

declare read_simp_mask.simps [simp del]

text \<open>
  The loop of \<open>ParseHeader2\<close> over the strip: one triangle for each window of three
  points, from \<open>i = 2\<close> on.
\<close>

function push_triangles :: "nat \<Rightarrow> nat \<Rightarrow> points_t \<Rightarrow> points_t \<Rightarrow> error + points_t" where
  "push_triangles trgCount i points tris =
     (if i < trgCount then
        (if 2 \<le> i \<and> i < length points
         then push_triangles trgCount (Suc i) points
                (tris @ [points ! (i - 2), points ! (i - 1), points ! i])
         else Inl OutOfRange)
      else Inr tris)"
  by pat_completeness auto
termination
  by (relation "measure (\<lambda>(trgCount, i, points, tris). trgCount - i)") auto

declare push_triangles.simps [simp del]

text \<open>
  \<open>ParseHeader2\<close>, in the order of the source: the bit fields of the line and of the
  area, the points or point offsets, the triangles or triangle offsets, then the function.
  A count or mask that the source leaves unset is 0 here; it is not used then.
\<close>

definition ParseHeader2_line_bits ::
  "bool \<Rightarrow> byte \<Rightarrow> BitSource \<Rightarrow> error + (byte \<times> byte \<times> BitSource)" where
  "ParseHeader2_line_bits dbg commonH bitSource =
     (if commonH AND HEADER_IS_LINE \<noteq> 0
      then bindE (BitSource_Read dbg 4 bitSource) (\<lambda>(ptsCount, b).
             if ptsCount = 0
             then bindE (BitSource_Read dbg 4 b) (\<lambda>(ptsMask, b'). Inr (ptsCount, ptsMask, b'))
             else if \<not> ASSERT dbg (ptsCount > 1) then Inl AssertFailed
             else Inr (ptsCount, 0, b))
      else Inr (0, 0, bitSource))"

definition ParseHeader2_area_bits ::
  "bool \<Rightarrow> byte \<Rightarrow> BitSource \<Rightarrow> error + (byte \<times> byte \<times> BitSource)" where
  "ParseHeader2_area_bits dbg commonH bitSource =
     (if commonH AND HEADER_IS_AREA \<noteq> 0
      then bindE (BitSource_Read dbg 4 bitSource) (\<lambda>(trgCount, b).
             if trgCount = 0
             then bindE (BitSource_Read dbg 4 b) (\<lambda>(trgMask, b'). Inr (trgCount, trgMask, b'))
             else Inr (trgCount, 0, b))
      else Inr (0, 0, bitSource))"

definition ParseHeader2_line ::
  "ext \<Rightarrow> byte \<Rightarrow> byte \<Rightarrow> byte \<Rightarrow> FeatureType \<Rightarrow> buffer_t \<Rightarrow> error + (FeatureType \<times> buffer_t)" where
  "ParseHeader2_line X commonH ptsCount ptsMask ft src =
     (if commonH AND HEADER_IS_LINE \<noteq> 0 then
        (if ptsCount > 0 then
           (if \<not> ASSERT (DEBUG X) ((unat ptsCount + 1) div 4 < 4) then Inl AssertFailed
            else
            bindE (read_simp_mask ((unat ptsCount + 1) div 4) 0 (r_ptsSimpMask ft) src) (\<lambda>(m, src1).
            bindE (LoadInnerPath X src1 (unat ptsCount) (m_base ft) (m_Points ft)) (\<lambda>(pts, src2).
              Inr (ft\<lparr>r_ptsSimpMask := m, m_Points := pts,
                      m_InnerStats_Points := length src1 - length src2\<rparr>, src2))))
         else
           bindE (ReadOffsets X (length (m_scales ft)) src ptsMask (m_ptsOffsets ft)) (\<lambda>(offs, src1).
             Inr (ft\<lparr>m_ptsOffsets := offs\<rparr>, src1)))
      else Inr (ft, src))"

definition ParseHeader2_area ::
  "ext \<Rightarrow> byte \<Rightarrow> byte \<Rightarrow> byte \<Rightarrow> FeatureType \<Rightarrow> buffer_t \<Rightarrow> error + (FeatureType \<times> buffer_t)" where
  "ParseHeader2_area X commonH trgCount trgMask ft src =
     (if commonH AND HEADER_IS_AREA \<noteq> 0 then
        (if trgCount > 0 then
           bindE (LoadInnerTriangles X src (unat (trgCount + 2)) (m_base ft) []) (\<lambda>(points, src1).
           bindE (push_triangles (unat (trgCount + 2)) 2 points (m_Triangles ft)) (\<lambda>tris.
             Inr (ft\<lparr>m_Triangles := tris,
                     m_InnerStats_Strips := length src - length src1\<rparr>, src1)))
         else
           bindE (ReadOffsets X (length (m_scales ft)) src trgMask (m_trgOffsets ft)) (\<lambda>(offs, src1).
             Inr (ft\<lparr>m_trgOffsets := offs\<rparr>, src1)))
      else Inr (ft, src))"

definition ParseHeader2 :: "ext \<Rightarrow> FeatureType \<Rightarrow> error + FeatureType" where
  "ParseHeader2 X ft0 =
     (if \<not> ASSERT (DEBUG X) (\<not> m_bHeader2Parsed ft0) then Inl AssertFailed
      else
      bindE (if \<not> m_bCommonParsed ft0 then ParseCommon X ft0 else Inr ft0) (\<lambda>ft.
      bindE (Header ft) (\<lambda>commonH.
      bindE (ParseHeader2_line_bits (DEBUG X) commonH
               (BitSource_new (drop (m_Header2Offset ft) (DataPtr ft)))) (\<lambda>(ptsCount, ptsMask, bs1).
      bindE (ParseHeader2_area_bits (DEBUG X) commonH bs1) (\<lambda>(trgCount, trgMask, bs2).
      bindE (ParseHeader2_line X commonH ptsCount ptsMask ft (BitSource_RoundPtr bs2)) (\<lambda>(ft1, srcA).
      bindE (ParseHeader2_area X commonH trgCount trgMask ft1 srcA) (\<lambda>(ft2, srcB).
        Inr (ft2\<lparr>m_bHeader2Parsed := True, m_InnerStats_Size := CalcOffset ft2 srcB\<rparr>))))))))"

text \<open>
  The filter of the inner geometry in \<open>ParseGeometry\<close>: the loop over the intermediate
  points from index \<open>i\<close> on, with the points pushed so far; then the whole filter, which
  pushes the first point before the loop and the last after it.
\<close>

function filter_inner_loop :: "32 word \<Rightarrow> 32 word \<Rightarrow> points_t \<Rightarrow> nat \<Rightarrow> points_t \<Rightarrow> points_t" where
  "filter_inner_loop simpMask scaleIndex pts i points =
     (if i < length pts - 1 then
        filter_inner_loop simpMask scaleIndex pts (Suc i)
          (if (drop_bit (2 * (i - 1)) simpMask AND 3) \<le> scaleIndex then points @ [pts ! i] else points)
      else points)"
  by pat_completeness auto
termination
  by (relation "measure (\<lambda>(simpMask, scaleIndex, pts, i, points). length pts - 1 - i)") auto

declare filter_inner_loop.simps [simp del]

definition filter_inner :: "32 word \<Rightarrow> 32 word \<Rightarrow> points_t \<Rightarrow> points_t" where
  "filter_inner simpMask scaleIndex pts =
     filter_inner_loop simpMask scaleIndex pts 1 [hd pts] @ [last pts]"

text \<open>
  \<open>ParseGeometry\<close>: the reader after the call and the size returned. The two branches
  come first: the outer geometry, read from the container at the resolved index, and
  the inner geometry, filtered.
\<close>

definition ParseGeometry_outer :: "ext \<Rightarrow> int \<Rightarrow> FeatureType \<Rightarrow> error + (FeatureType \<times> 32 word)" where
  "ParseGeometry_outer X scale ft =
     bindE (GetScaleIndex_offsets (m_scales ft) scale (m_ptsOffsets ft)) (\<lambda>ind.
       if ind \<noteq> - 1 then
         bindE (GetReader X GEOMETRY_FILE_TAG (nat ind)) (\<lambda>stream.
           if unat (m_ptsOffsets ft ! nat ind) > length stream then Inl ReadPastEnd
           else
           bindE (LoadOuterPath X (drop (unat (m_ptsOffsets ft ! nat ind)) stream) (m_base ft) (m_Points ft)) (\<lambda>(pts, rest).
             Inr (ft\<lparr>m_Points := pts\<rparr>,
                  word_of_nat (length stream - unat (m_ptsOffsets ft ! nat ind) - length rest))))
       else Inr (ft, 0))"

definition ParseGeometry_inner :: "ext \<Rightarrow> int \<Rightarrow> FeatureType \<Rightarrow> error + (FeatureType \<times> 32 word)" where
  "ParseGeometry_inner X scale ft =
     (if \<not> ASSERT (DEBUG X)
            (unat (word_of_int (GetScaleIndex (m_scales ft) scale) :: 32 word) < length (m_scales ft))
      then Inl AssertFailed
      else Inr (ft\<lparr>m_Points := filter_inner (r_ptsSimpMask ft)
                       (word_of_int (GetScaleIndex (m_scales ft) scale)) (m_Points ft)\<rparr>, 0))"

definition ParseGeometry :: "ext \<Rightarrow> int \<Rightarrow> FeatureType \<Rightarrow> error + (FeatureType \<times> 32 word)" where
  "ParseGeometry X scale ft0 =
     (if \<not> ASSERT (DEBUG X) (\<not> m_bPointsParsed ft0) then Inl AssertFailed
      else
      bindE (if \<not> m_bHeader2Parsed ft0 then ParseHeader2 X ft0 else Inr ft0) (\<lambda>ft.
      bindE (Header ft) (\<lambda>h.
      bindE (if h AND HEADER_IS_LINE \<noteq> 0 then
               bindE (if m_Points ft = [] then ParseGeometry_outer X scale ft
                      else ParseGeometry_inner X scale ft) (\<lambda>(ft1, sz).
                 Inr (ft1\<lparr>r_LimitRect := CalcRect (m_Points ft1) (r_LimitRect ft1)\<rparr>, sz))
             else Inr (ft, 0)) (\<lambda>(ft2, sz).
        Inr (ft2\<lparr>m_bPointsParsed := True\<rparr>, sz)))))"

text \<open>
  \<open>ParseTriangles\<close>. The index is a \<open>uint32_t\<close> here, compared with \<open>-1\<close> as such.
\<close>

definition ParseTriangles_outer :: "ext \<Rightarrow> int \<Rightarrow> FeatureType \<Rightarrow> error + (FeatureType \<times> 32 word)" where
  "ParseTriangles_outer X scale ft =
     bindE (GetScaleIndex_offsets (m_scales ft) scale (m_trgOffsets ft)) (\<lambda>r.
       if (word_of_int r :: 32 word) \<noteq> - 1 then
         bindE (GetReader X TRIANGLE_FILE_TAG (unat (word_of_int r :: 32 word))) (\<lambda>stream.
           if unat (m_trgOffsets ft ! unat (word_of_int r :: 32 word)) > length stream then Inl ReadPastEnd
           else
           bindE (LoadOuterTriangles X (drop (unat (m_trgOffsets ft ! unat (word_of_int r :: 32 word))) stream)
                    (m_base ft) (m_Triangles ft)) (\<lambda>(tris, rest).
             Inr (ft\<lparr>m_Triangles := tris\<rparr>,
                  word_of_nat (length stream - unat (m_trgOffsets ft ! unat (word_of_int r :: 32 word)) - length rest))))
       else Inr (ft, 0))"

definition ParseTriangles :: "ext \<Rightarrow> int \<Rightarrow> FeatureType \<Rightarrow> error + (FeatureType \<times> 32 word)" where
  "ParseTriangles X scale ft0 =
     (if \<not> ASSERT (DEBUG X) (\<not> m_bTrianglesParsed ft0) then Inl AssertFailed
      else
      bindE (if \<not> m_bHeader2Parsed ft0 then ParseHeader2 X ft0 else Inr ft0) (\<lambda>ft.
      bindE (Header ft) (\<lambda>h.
      bindE (if h AND HEADER_IS_AREA \<noteq> 0 then
               bindE (if m_Triangles ft = [] then ParseTriangles_outer X scale ft
                      else Inr (ft, 0)) (\<lambda>(ft1, sz).
                 Inr (ft1\<lparr>r_LimitRect := CalcRect (m_Triangles ft1) (r_LimitRect ft1)\<rparr>, sz))
             else Inr (ft, 0)) (\<lambda>(ft2, sz).
        Inr (ft2\<lparr>m_bTrianglesParsed := True\<rparr>, sz)))))"

text \<open>\<open>FeatureType::ParseAll(int scale)\<close>\<close>

definition ParseAll :: "ext \<Rightarrow> int \<Rightarrow> FeatureType \<Rightarrow> error + FeatureType" where
  "ParseAll X scale ft =
     bindE (if \<not> m_bPointsParsed ft
            then bindE (ParseGeometry X scale ft) (\<lambda>(ft', sz). Inr ft')
            else Inr ft) (\<lambda>ft1.
       if \<not> m_bTrianglesParsed ft1
       then bindE (ParseTriangles X scale ft1) (\<lambda>(ft', sz). Inr ft')
       else Inr ft1)"

text \<open>\<open>IsEmptyGeometry\<close>: the reader after \<open>ParseAll\<close> and the answer.\<close>

definition IsEmptyGeometry :: "ext \<Rightarrow> int \<Rightarrow> FeatureType \<Rightarrow> error + (FeatureType \<times> bool)" where
  "IsEmptyGeometry X scale ft =
     bindE (ParseAll X scale ft) (\<lambda>ft1.
     bindE (Header ft1) (\<lambda>h.
       case GetFeatureType X h of
         FEATURE_TYPE_AREA \<Rightarrow> Inr (ft1, m_Triangles ft1 = [])
       | FEATURE_TYPE_LINE \<Rightarrow> Inr (ft1, m_Points ft1 = [])
       | FEATURE_TYPE_POINT \<Rightarrow>
           if \<not> ASSERT (DEBUG X) (h AND HEADER_HAS_POINT \<noteq> 0) then Inl AssertFailed
           else Inr (ft1, False)))"

text \<open>
  The branch of \<open>ParseGeometry\<close> that reads nothing, as a condition on the header byte
  and the reader: the line bit is set, \<open>m_Points\<close> is empty (the geometry is outer) and
  \<open>GetScaleIndex(scale, m_ptsOffsets)\<close> returns \<open>-1\<close>. The same for \<open>ParseTriangles\<close>,
  with the area bit, \<open>m_Triangles\<close> and \<open>m_trgOffsets\<close>.
\<close>

definition outer_points_missing :: "byte \<Rightarrow> int \<Rightarrow> FeatureType \<Rightarrow> bool" where
  "outer_points_missing h scale ft =
     (h AND HEADER_IS_LINE \<noteq> 0 \<and> m_Points ft = [] \<and>
      GetScaleIndex_offsets (m_scales ft) scale (m_ptsOffsets ft) = Inr (- 1))"

definition outer_triangles_missing :: "byte \<Rightarrow> int \<Rightarrow> FeatureType \<Rightarrow> bool" where
  "outer_triangles_missing h scale ft =
     (h AND HEADER_IS_AREA \<noteq> 0 \<and> m_Triangles ft = [] \<and>
      GetScaleIndex_offsets (m_scales ft) scale (m_trgOffsets ft) = Inr (- 1))"

subsection \<open>Sequences of bit fields\<close>

text \<open>
  Writing a list of fields (value, bit count) one after the other, and reading a list of
  bit counts one after the other: what a caller of \<open>BitSink\<close> and \<open>BitSource\<close> does.
\<close>

fun BitSink_WriteAll :: "bool \<Rightarrow> (byte \<times> byte) list \<Rightarrow> BitSink \<Rightarrow> error + BitSink" where
  "BitSink_WriteAll dbg [] bs = Inr bs"
| "BitSink_WriteAll dbg ((val, cnt) # fs) bs =
     bindE (BitSink_Write dbg val cnt bs) (BitSink_WriteAll dbg fs)"

fun BitSource_ReadAll :: "bool \<Rightarrow> byte list \<Rightarrow> BitSource \<Rightarrow> error + (byte list \<times> BitSource)" where
  "BitSource_ReadAll dbg [] s = Inr ([], s)"
| "BitSource_ReadAll dbg (cnt # cnts) s =
     bindE (BitSource_Read dbg cnt s) (\<lambda>(v, s').
     bindE (BitSource_ReadAll dbg cnts s') (\<lambda>(vs, s'').
       Inr (v # vs, s'')))"

text \<open>
  No field of the given bit counts crosses a byte boundary, the first field starting at
  bit \<open>p\<close> of its byte.
\<close>

fun fits :: "nat \<Rightarrow> nat list \<Rightarrow> bool" where
  "fits p [] = True"
| "fits p (c # cs) = (p + c \<le> 8 \<and> fits ((p + c) mod 8) cs)"

text \<open>A field the writer accepts: 1 to 8 bits, and a value that fits into them.\<close>

definition field_ok :: "byte \<times> byte \<Rightarrow> bool" where
  "field_ok f = (1 \<le> unat (snd f) \<and> unat (snd f) \<le> 8 \<and> drop_bit (unat (snd f)) (fst f) = 0)"

subsection \<open>The order of the parse stages\<close>

text \<open>
  The chain of the stages in the specification's words, as a property of the five flags
  of a reader: common needs types, the second header needs common, points and triangles
  need the second header.
\<close>

definition stage_order :: "FeatureType \<Rightarrow> bool" where
  "stage_order ft =
     ((if m_bCommonParsed ft then m_bTypesParsed ft else True) \<and>
      (if m_bHeader2Parsed ft then m_bCommonParsed ft else True) \<and>
      (if m_bPointsParsed ft then m_bHeader2Parsed ft else True) \<and>
      (if m_bTrianglesParsed ft then m_bHeader2Parsed ft else True))"

subsection \<open>Concrete inputs\<close>

text \<open>
  Three rectangles (the unit square, the origin alone, and an empty one, with the bounds
  the wrong way round), and a builder with one type and its centre at the origin.
\<close>

definition unit_rect :: RectD where
  "unit_rect = \<lparr>minX = 0, minY = 0, maxX = 1, maxY = 1\<rparr>"

definition origin_rect :: RectD where
  "origin_rect = \<lparr>minX = 0, minY = 0, maxX = 0, maxY = 0\<rparr>"

definition empty_rect :: RectD where
  "empty_rect = \<lparr>minX = 1000, minY = 1000, maxX = - 1000, maxY = - 1000\<rparr>"

definition poi_builder :: FeatureBuilder1 where
  "poi_builder =
     \<lparr>m_Types = [100], m_Layer = 0, m_Name = [], m_Center = (0, 0),
      m_LimitRect = origin_rect, m_Geometry = [], m_Holes = [],
      m_bPoint = True, m_bLinear = False, m_bArea = False\<rparr>"

text \<open>
  External parts that read and write nothing: every loader appends as many origin points
  as it is asked for (one where it is given no number) and consumes no byte; the
  container has an empty stream for every tag; a region contains the points within the
  bounding rectangle of its vertices.
\<close>

definition plain_ext :: "bool \<Rightarrow> ext" where
  "plain_ext dbg =
     \<lparr>PointD2PointU = (\<lambda>x y. (0, 0)),
      PointU2PointD = (\<lambda>p. (0, 0)),
      EncodeDelta = (\<lambda>p b. 0),
      DecodeDelta = (\<lambda>d b. (0, 0)),
      Uint64ToPointU = (\<lambda>b. (0, 0)),
      GetCellID2PointAbsEpsilon = 1,
      GetEmptyRect = empty_rect,
      SaveOuterPath = (\<lambda>pts b. []),
      LoadOuterPath = (\<lambda>src b pts. Inr (pts @ [(0, 0)], src)),
      SaveInnerPath = (\<lambda>pts b. []),
      LoadInnerPath = (\<lambda>src n b pts. Inr (pts @ replicate n (0, 0), src)),
      SaveInnerTriangles = (\<lambda>pts b. []),
      LoadInnerTriangles = (\<lambda>src n b pts. Inr (pts @ replicate n (0, 0), src)),
      LoadOuterTriangles = (\<lambda>src b pts. Inr (pts @ [(0, 0)], src)),
      WriteVarUintArray = (\<lambda>offs. concat (map (\<lambda>v. WriteVarUint (unat v)) offs)),
      RegionContains = (\<lambda>g p. list_ex (\<lambda>q. fst q \<le> fst p) g \<and> list_ex (\<lambda>q. fst p \<le> fst q) g \<and>
                              list_ex (\<lambda>q. snd q \<le> snd p) g \<and> list_ex (\<lambda>q. snd p \<le> snd q) g),
      GetReader = (\<lambda>t i. Inr []),
      GetFeatureType = (\<lambda>h. if h AND HEADER_IS_AREA \<noteq> 0 then FEATURE_TYPE_AREA
                             else if h AND HEADER_IS_LINE \<noteq> 0 then FEATURE_TYPE_LINE
                             else FEATURE_TYPE_POINT),
      m_maxTypesCount = 7,
      DEBUG = dbg\<rparr>"

text \<open>
  A reader of a line with one type whose second header is parsed: five inline points
  with the simplification tags 0, 2 and 3 of the three intermediate points.
\<close>

definition inline_line :: FeatureType where
  "inline_line =
     \<lparr>m_Data = [65, 1, 5], m_Offset = 0, m_base = 0, m_CommonOffset = 2, m_Header2Offset = 2,
      m_bTypesParsed = True, m_bCommonParsed = True,
      r_Types = [1, 0, 0, 0, 0, 0, 0], r_Layer = 0, r_Name = [],
      r_Center = (0, 0), r_LimitRect = unit_rect,
      m_scales = [7, 10, 14, 17],
      m_bHeader2Parsed = True, m_bPointsParsed = False, m_bTrianglesParsed = False,
      r_ptsSimpMask = 56,
      m_Points = [(0, 0), (1, 1), (2, 0), (3, 1), (4, 0)], m_Triangles = [],
      m_ptsOffsets = [0, 0, 0, 0], m_trgOffsets = [0, 0, 0, 0],
      m_InnerStats_Points = 0, m_InnerStats_Strips = 0, m_InnerStats_Size = 3\<rparr>"

text \<open>An area builder over a square ring, and two candidate holes, inside and outside.\<close>

definition square_builder :: FeatureBuilder1 where
  "square_builder =
     \<lparr>m_Types = [7], m_Layer = 0, m_Name = [], m_Center = (0, 0),
      m_LimitRect = \<lparr>minX = 0, minY = 0, maxX = 10, maxY = 10\<rparr>,
      m_Geometry = [(0, 0), (10, 0), (10, 10), (0, 10), (0, 0)], m_Holes = [],
      m_bPoint = False, m_bLinear = False, m_bArea = False\<rparr>"

definition hole_inside :: points_t where
  "hole_inside = [(2, 2), (3, 2), (3, 3), (2, 2)]"

definition hole_outside :: points_t where
  "hole_outside = [(100, 100), (101, 100), (101, 101), (100, 100)]"

text \<open>
  A reader just deserialized from the given bytes, with the four scales above, and the
  same reader after \<open>ParseHeader2\<close> has read all the bytes of a feature with one type:
  what the stages up to there have set, with the points, the point offsets, the
  triangles and the triangle offsets given.
\<close>

definition fresh_reader :: "buffer_t \<Rightarrow> FeatureType" where
  "fresh_reader data = FeatureType_Deserialize (plain_ext True) [7, 10, 14, 17] 0 data 0 inline_line"

definition header2_reader ::
  "buffer_t \<Rightarrow> points_t \<Rightarrow> offsets_t \<Rightarrow> points_t \<Rightarrow> offsets_t \<Rightarrow> FeatureType" where
  "header2_reader data pts ptsOffs trs trgOffs =
     (fresh_reader data)\<lparr>m_CommonOffset := 2, m_Header2Offset := 2,
        m_bTypesParsed := True, m_bCommonParsed := True, m_bHeader2Parsed := True,
        m_Points := pts, m_ptsOffsets := ptsOffs, m_Triangles := trs, m_trgOffsets := trgOffs,
        m_InnerStats_Size := length data\<rparr>"

text \<open>
  Four such readers. The outer geometry has the mask 10, that is the offsets 100 and 120
  for the scale indices 1 and 3 and none for 0 and 2; the offsets of the other kind are
  those the reader held before, all 0. A line with outer points (the bytes 65, 1, 160,
  100, 120); an area with outer triangles (129, 1, 160, 100, 120); a feature that is a
  line and an area, with outer points and one inline triangle (193, 1, 160, 1, 100, 120);
  and one with two inline points and outer triangles (193, 1, 2, 10, 100, 120).
\<close>

definition outer_line_header2 :: FeatureType where
  "outer_line_header2 =
     header2_reader [65, 1, 160, 100, 120]
       [] [kInvalidOffset, 100, kInvalidOffset, 120] [] [0, 0, 0, 0]"

definition outer_area_header2 :: FeatureType where
  "outer_area_header2 =
     header2_reader [129, 1, 160, 100, 120]
       [] [0, 0, 0, 0] [] [kInvalidOffset, 100, kInvalidOffset, 120]"

definition mixed_points_header2 :: FeatureType where
  "mixed_points_header2 =
     header2_reader [193, 1, 160, 1, 100, 120]
       [] [kInvalidOffset, 100, kInvalidOffset, 120] [(0, 0), (0, 0), (0, 0)] [0, 0, 0, 0]"

definition mixed_triangles_header2 :: FeatureType where
  "mixed_triangles_header2 =
     header2_reader [193, 1, 2, 10, 100, 120]
       [(0, 0), (0, 0)] [0, 0, 0, 0] [] [kInvalidOffset, 100, kInvalidOffset, 120]"

text \<open>
  A reader just deserialized from the three bytes of a line with one type and two inline
  points, and the same reader after \<open>ParseAll\<close> with the parts above.
\<close>

definition fresh_line :: FeatureType where
  "fresh_line = FeatureType_Deserialize (plain_ext True) [7, 10, 14, 17] 0 [65, 1, 2] 0 inline_line"

definition parsed_line :: FeatureType where
  "parsed_line =
     inline_line\<lparr>m_Data := [65, 1, 2], r_LimitRect := origin_rect,
       r_ptsSimpMask := 0, m_Points := [(0, 0), (0, 0)],
       m_bPointsParsed := True, m_bTrianglesParsed := True\<rparr>"

text \<open>
  A line builder, and a holder with outer geometry only. The simplifier has pushed the
  offsets from the high scale index to the low: 1200 for scale index 3, then 500 for
  scale index 1; the mask has the bits 1 and 3.
\<close>

definition line_builder :: FeatureBuilder1 where
  "line_builder =
     \<lparr>m_Types = [1], m_Layer = 0, m_Name = [], m_Center = (0, 0),
      m_LimitRect = \<lparr>minX = 0, minY = 0, maxX = 2, maxY = 1\<rparr>,
      m_Geometry = [(0, 0), (1, 1), (2, 0)], m_Holes = [],
      m_bPoint = False, m_bLinear = True, m_bArea = False\<rparr>"

definition outer_holder :: buffers_holder_t where
  "outer_holder =
     \<lparr>m_ptsOffset = [1200, 500], m_trgOffset = [], m_ptsMask = 10, m_trgMask = 0,
      m_ptsSimpMask = 0, m_innerPts = [], m_innerTrg = [], m_buffer = []\<rparr>"

section \<open>Properties\<close>

subsection \<open>Set difference of types\<close>

lemma set_set_difference_subset: "set (set_difference xs ys) \<subseteq> set xs"
  by (induction xs ys rule: set_difference.induct) auto

lemma sorted_set_difference: "sorted xs \<Longrightarrow> sorted (set_difference xs ys)"
proof (induction xs ys rule: set_difference.induct)
  case (3 x xs y ys)
  then show ?case using set_set_difference_subset[of xs "y # ys"] by auto
qed simp_all

lemma mset_diff_absent: "y \<notin># M \<Longrightarrow> M - add_mset y N = M - N"
  by (auto simp: multiset_eq_iff not_in_iff)

lemma mset_set_difference:
  "sorted xs \<Longrightarrow> sorted ys \<Longrightarrow> mset (set_difference xs ys) = mset xs - mset ys"
proof (induction xs ys rule: set_difference.induct)
  case (1 ys) then show ?case by simp
next
  case (2 x xs) then show ?case by simp
next
  case (3 x xs y ys)
  have sx: "sorted xs" and sy: "sorted ys" using 3 by auto
  consider "x < y" | "y < x" | "x = y" by fastforce
  then show ?case
  proof cases
    case 1
    have nin: "x \<notin> set (y # ys)" using 1 "3.prems" by auto
    have "mset (set_difference (x # xs) (y # ys)) = add_mset x (mset xs - mset (y # ys))"
      using 1 3 by simp
    also have "\<dots> = add_mset x (mset xs) - mset (y # ys)"
      using nin by simp
    finally show ?thesis by simp
  next
    case 2
    have nin: "y \<notin># mset (x # xs)" using 2 "3.prems" by auto
    have "mset (set_difference (x # xs) (y # ys)) = mset (x # xs) - mset ys"
      using 2 3 by simp
    also have "\<dots> = mset (x # xs) - mset (y # ys)"
      using mset_diff_absent[OF nin, of "mset ys"] by simp
    finally show ?thesis .
  next
    case 3
    then show ?thesis using "3.IH"(3) sx sy by simp
  qed
qed

lemma set_difference_distinct:
  "sorted xs \<Longrightarrow> distinct xs \<Longrightarrow> sorted ys \<Longrightarrow>
   set_difference xs ys = filter (\<lambda>t. t \<notin> set ys) xs"
proof (induction xs ys rule: set_difference.induct)
  case (1 ys) then show ?case by simp
next
  case (2 x xs) then show ?case by simp
next
  case (3 x xs y ys)
  have sy: "sorted ys" using "3.prems" by simp
  consider "x < y" | "y < x" | "x = y" by fastforce
  then show ?case
  proof cases
    case 1
    then have "x \<notin> set (y # ys)" using "3.prems" by auto
    then show ?thesis using 1 3 by simp
  next
    case 2
    then have "y \<notin> set (x # xs)" using "3.prems" by auto
    then have eq: "filter (\<lambda>t. t \<notin> set (y # ys)) (x # xs) = filter (\<lambda>t. t \<notin> set ys) (x # xs)"
      by (intro filter_cong) auto
    have nxy: "\<not> x < y" using 2 by auto
    have "set_difference (x # xs) (y # ys) = set_difference (x # xs) ys"
      using 2 nxy by simp
    also have "\<dots> = filter (\<lambda>t. t \<notin> set ys) (x # xs)"
      using "3.IH"(2) 2 nxy "3.prems" sy by simp
    finally show ?thesis using eq by simp
  next
    case 3
    have "y \<notin> set xs" using 3 "3.prems" by auto
    then have "filter (\<lambda>t. t \<notin> set (y # ys)) xs = filter (\<lambda>t. t \<notin> set ys) xs"
      by (intro filter_cong) auto
    then show ?thesis using 3 "3.IH"(3) "3.prems" by simp
  qed
qed

text \<open>
  C10, as stated, fails where a type is stored twice: with the types \<open>[5, 5]\<close> and the
  removal list \<open>[5]\<close> the call leaves \<open>[5]\<close>, a type that is in the removal list.
\<close>

theorem AssignType_SetDifference_duplicate_counterexample:
  "m_Types (fst (AssignType_SetDifference [5] (poi_builder\<lparr>m_Types := [5, 5]\<rparr>))) = [5]
   \<and> (5 :: 32 word) \<in> set [5]"
  by (simp add: AssignType_SetDifference_def poi_builder_def)

text \<open>
  C10 (amended). For a sorted removal list, \<open>AssignType_SetDifference\<close> stores the sorted
  old types minus the removal list as multisets: each entry of the removal list cancels
  one equal stored type. The stored types are then in ascending order; where the old types
  are distinct they are exactly the sorted old types that are not in the removal list; and
  the call returns true if and only if a type remains.
\<close>

theorem AssignType_SetDifference_result:
  assumes "sorted diffTypes"
  shows "mset (m_Types (fst (AssignType_SetDifference diffTypes fb)))
           = mset (m_Types fb) - mset diffTypes
         \<and> sorted (m_Types (fst (AssignType_SetDifference diffTypes fb)))
         \<and> (distinct (m_Types fb) \<longrightarrow>
              m_Types (fst (AssignType_SetDifference diffTypes fb))
                = filter (\<lambda>t. t \<notin> set diffTypes) (sort (m_Types fb)))
         \<and> (snd (AssignType_SetDifference diffTypes fb)
              \<longleftrightarrow> m_Types (fst (AssignType_SetDifference diffTypes fb)) \<noteq> [])"
proof -
  have t: "m_Types (fst (AssignType_SetDifference diffTypes fb))
             = set_difference (sort (m_Types fb)) diffTypes"
    by (simp add: AssignType_SetDifference_def Let_def)
  have m: "mset (set_difference (sort (m_Types fb)) diffTypes) = mset (m_Types fb) - mset diffTypes"
    using mset_set_difference[of "sort (m_Types fb)" diffTypes] assms by simp
  have s: "sorted (set_difference (sort (m_Types fb)) diffTypes)"
    by (rule sorted_set_difference) simp
  have d: "distinct (m_Types fb) \<Longrightarrow>
        set_difference (sort (m_Types fb)) diffTypes
          = filter (\<lambda>t. t \<notin> set diffTypes) (sort (m_Types fb))"
    using set_difference_distinct[of "sort (m_Types fb)" diffTypes] assms by simp
  have r: "snd (AssignType_SetDifference diffTypes fb)
             \<longleftrightarrow> m_Types (fst (AssignType_SetDifference diffTypes fb)) \<noteq> []"
    by (simp add: AssignType_SetDifference_def Let_def)
  show ?thesis using t m s d r by simp
qed

theorem AssignType_SetDifference_result_witness:
  "sorted [2, 7 :: 32 word]
   \<and> m_Types (fst (AssignType_SetDifference [2, 7] (poi_builder\<lparr>m_Types := [9, 7, 3]\<rparr>))) = [3, 9]
   \<and> snd (AssignType_SetDifference [2, 7] (poi_builder\<lparr>m_Types := [9, 7, 3]\<rparr>))"
proof -
  have h: "sorted [2, 7 :: 32 word]" by simp
  have d: "distinct (m_Types (poi_builder\<lparr>m_Types := [9, 7, 3]\<rparr>))" by simp
  have "m_Types (fst (AssignType_SetDifference [2, 7] (poi_builder\<lparr>m_Types := [9, 7, 3]\<rparr>)))
          = filter (\<lambda>t. t \<notin> set [2, 7]) (sort (m_Types (poi_builder\<lparr>m_Types := [9, 7, 3]\<rparr>)))"
    using AssignType_SetDifference_result[OF h, of "poi_builder\<lparr>m_Types := [9, 7, 3]\<rparr>"] d by blast
  moreover have "snd (AssignType_SetDifference [2, 7] (poi_builder\<lparr>m_Types := [9, 7, 3]\<rparr>))
      \<longleftrightarrow> m_Types (fst (AssignType_SetDifference [2, 7] (poi_builder\<lparr>m_Types := [9, 7, 3]\<rparr>))) \<noteq> []"
    using AssignType_SetDifference_result[OF h, of "poi_builder\<lparr>m_Types := [9, 7, 3]\<rparr>"] by blast
  ultimately show ?thesis by simp
qed

subsection \<open>Scale resolution over the offsets\<close>

lemma scan_scales_hit:
  "i \<le> k \<Longrightarrow> k < length scales \<Longrightarrow> scale \<le> scales ! k \<Longrightarrow>
   (\<forall>j. i \<le> j \<and> j < k \<longrightarrow> \<not> scale \<le> scales ! j) \<Longrightarrow> k < length offsets \<Longrightarrow>
   scan_scales scales scale offsets i =
     Inr (if offsets ! k \<noteq> kInvalidOffset then int k else - 1)"
proof (induction "k - i" arbitrary: i)
  case 0
  then have "i = k" by simp
  then show ?case using 0 by (subst scan_scales.simps) simp
next
  case (Suc d)
  then have lt: "i < k" and no: "\<not> scale \<le> scales ! i" by auto
  have "scan_scales scales scale offsets i = scan_scales scales scale offsets (Suc i)"
    using lt no Suc.prems by (subst scan_scales.simps) simp
  also have "\<dots> = Inr (if offsets ! k \<noteq> kInvalidOffset then int k else - 1)"
    using Suc lt by (intro Suc.hyps(1)) auto
  finally show ?case .
qed

lemma scan_scales_miss:
  "(\<forall>j. i \<le> j \<and> j < length scales \<longrightarrow> \<not> scale \<le> scales ! j) \<Longrightarrow>
   scan_scales scales scale offsets i = Inr (- 1)"
proof (induction "length scales - i" arbitrary: i)
  case 0
  then show ?case by (subst scan_scales.simps) simp
next
  case (Suc d)
  then have lt: "i < length scales" and no: "\<not> scale \<le> scales ! i" by auto
  have "scan_scales scales scale offsets i = scan_scales scales scale offsets (Suc i)"
    using lt no by (subst scan_scales.simps) simp
  also have "\<dots> = Inr (- 1)"
    using Suc lt by (intro Suc.hyps(1)) auto
  finally show ?case .
qed

lemma scan_back_hit:
  "k \<le> m \<Longrightarrow> offsets ! k \<noteq> kInvalidOffset \<Longrightarrow>
   (\<forall>j. k < j \<and> j \<le> m \<longrightarrow> offsets ! j = kInvalidOffset) \<Longrightarrow>
   scan_back offsets (int m) = int k"
proof (induction "m - k" arbitrary: m)
  case 0
  then have "m = k" by simp
  then show ?case using 0 by (subst scan_back.simps) simp
next
  case (Suc d)
  then have lt: "k < m" and inv: "offsets ! m = kInvalidOffset" by auto
  then obtain m' where m': "m = Suc m'" by (cases m) auto
  have n1: "nat (1 + int m') = Suc m'" by simp
  have "scan_back offsets (int m) = scan_back offsets (int m')"
    using inv m' by (subst scan_back.simps) (simp add: n1)
  also have "\<dots> = int k"
    using Suc m' lt by (intro Suc.hyps(1)) auto
  finally show ?case .
qed

lemma scan_back_miss:
  "(\<forall>j<n. offsets ! j = kInvalidOffset) \<Longrightarrow> scan_back offsets (int n - 1) = - 1"
proof (induction n)
  case 0
  then show ?case by (subst scan_back.simps) simp
next
  case (Suc n)
  have "scan_back offsets (int (Suc n) - 1) = scan_back offsets (int n - 1)"
    using Suc.prems by (subst scan_back.simps) simp
  then show ?case using Suc by simp
qed

text \<open>
  C2, as stated, fails where the first breakpoint that admits the scale has no offset:
  with the breakpoints \<open>[7, 10, 14, 17]\<close>, the scale \<open>3\<close> and a valid offset at index 1
  only, the smallest index that admits the scale and has a valid offset is 1, and
  \<open>GetScaleIndex\<close> returns \<open>-1\<close>: the loop leaves at index 0.
\<close>

theorem GetScaleIndex_offsets_break_counterexample:
  "GetScaleIndex_offsets [7, 10, 14, 17] 3 [kInvalidOffset, 100, kInvalidOffset, kInvalidOffset]
     = Inr (- 1)
   \<and> spec_scale_index [7, 10, 14, 17] 3 [kInvalidOffset, 100, kInvalidOffset, kInvalidOffset] = 1"
  by (simp add: GetScaleIndex_offsets_def scan_scales.simps spec_scale_index_def
      kInvalidOffset_def upt_rec)

text \<open>
  C2 (amended). Let the offsets array have an entry for every scale of the header. For a
  requested scale other than \<open>-1\<close>, \<open>GetScaleIndex(scale, offsets)\<close> looks only at the
  smallest index \<open>k\<close> with \<open>scale \<le> scale_header[k]\<close>: it returns \<open>k\<close> when
  \<open>offsets[k]\<close> is valid and \<open>-1\<close> when it is not (it does not go on to a later index),
  and \<open>-1\<close> when no breakpoint admits the scale. For the scale \<open>-1\<close> it returns the
  largest index whose offset is valid; when no offset is valid the \<open>CHECK\<close> fails.
\<close>

theorem GetScaleIndex_offsets_rule:
  assumes len: "length scales \<le> length offsets"
  shows "(scale \<noteq> - 1 \<longrightarrow>
          ((\<forall>j<length scales. \<not> scale \<le> scales ! j) \<longrightarrow>
              GetScaleIndex_offsets scales scale offsets = Inr (- 1)) \<and>
          (\<forall>k<length scales. scale \<le> scales ! k \<and> (\<forall>j<k. \<not> scale \<le> scales ! j) \<longrightarrow>
              GetScaleIndex_offsets scales scale offsets =
                Inr (if offsets ! k \<noteq> kInvalidOffset then int k else - 1))) \<and>
         (\<forall>k<length offsets. offsets ! k \<noteq> kInvalidOffset \<and>
              (\<forall>j. k < j \<and> j < length offsets \<longrightarrow> offsets ! j = kInvalidOffset) \<longrightarrow>
              GetScaleIndex_offsets scales (- 1) offsets = Inr (int k)) \<and>
         ((\<forall>j<length offsets. offsets ! j = kInvalidOffset) \<longrightarrow>
              GetScaleIndex_offsets scales (- 1) offsets = Inl CheckFailed)"
proof (intro conjI impI allI)
  assume "scale \<noteq> - 1" "\<forall>j<length scales. \<not> scale \<le> scales ! j"
  then show "GetScaleIndex_offsets scales scale offsets = Inr (- 1)"
    by (simp add: GetScaleIndex_offsets_def scan_scales_miss)
next
  fix k
  assume "scale \<noteq> - 1" "k < length scales"
    "scale \<le> scales ! k \<and> (\<forall>j<k. \<not> scale \<le> scales ! j)"
  then show "GetScaleIndex_offsets scales scale offsets =
      Inr (if offsets ! k \<noteq> kInvalidOffset then int k else - 1)"
    using len scan_scales_hit[of 0 k scales scale offsets]
    by (simp add: GetScaleIndex_offsets_def)
next
  fix k
  assume k: "k < length offsets"
    "offsets ! k \<noteq> kInvalidOffset \<and>
      (\<forall>j. k < j \<and> j < length offsets \<longrightarrow> offsets ! j = kInvalidOffset)"
  then obtain m where m: "length offsets = Suc m" by (cases "length offsets") auto
  have "scan_back offsets (int m) = int k"
    using k m by (intro scan_back_hit) auto
  then show "GetScaleIndex_offsets scales (- 1) offsets = Inr (int k)"
    using m by (simp add: GetScaleIndex_offsets_def)
next
  assume "\<forall>j<length offsets. offsets ! j = kInvalidOffset"
  then show "GetScaleIndex_offsets scales (- 1) offsets = Inl CheckFailed"
    using scan_back_miss[of "length offsets" offsets]
    by (simp add: GetScaleIndex_offsets_def)
qed

theorem GetScaleIndex_offsets_rule_witness:
  "length [7, 10, 14, 17 :: int] \<le> length [kInvalidOffset, 100, 200, kInvalidOffset]
   \<and> GetScaleIndex_offsets [7, 10, 14, 17] 9 [kInvalidOffset, 100, 200, kInvalidOffset] = Inr 1
   \<and> GetScaleIndex_offsets [7, 10, 14, 17] 3 [kInvalidOffset, 100, 200, kInvalidOffset] = Inr (- 1)
   \<and> GetScaleIndex_offsets [7, 10, 14, 17] 18 [kInvalidOffset, 100, 200, kInvalidOffset] = Inr (- 1)
   \<and> GetScaleIndex_offsets [7, 10, 14, 17] (- 1) [kInvalidOffset, 100, 200, kInvalidOffset] = Inr 2"
proof -
  let ?sc = "[7, 10, 14, 17 :: int]"
  let ?of = "[kInvalidOffset, 100, 200, kInvalidOffset]"
  have len: "length ?sc \<le> length ?of" by simp
  have inv: "kInvalidOffset \<noteq> (100 :: 32 word)" "kInvalidOffset \<noteq> (200 :: 32 word)"
    by (simp_all add: kInvalidOffset_def)
  note R = GetScaleIndex_offsets_rule[OF len]
  have a: "\<forall>j<4. j = 0 \<or> j = 1 \<or> j = 2 \<or> j = (3::nat)" by auto
  have 1: "GetScaleIndex_offsets ?sc 9 ?of = Inr (if ?of ! 1 \<noteq> kInvalidOffset then int 1 else - 1)"
    using R[of 9] by (auto simp: less_Suc_eq)
  have 2: "GetScaleIndex_offsets ?sc 3 ?of = Inr (if ?of ! 0 \<noteq> kInvalidOffset then int 0 else - 1)"
    using R[of 3] by (auto simp: less_Suc_eq)
  have 3: "GetScaleIndex_offsets ?sc 18 ?of = Inr (- 1)"
    using R[of 18] by (auto simp: less_Suc_eq nth_Cons')
  have 4: "GetScaleIndex_offsets ?sc (- 1) ?of = Inr (int 2)"
  proof -
    have all: "\<forall>k<length ?of. ?of ! k \<noteq> kInvalidOffset \<and>
              (\<forall>j. k < j \<and> j < length ?of \<longrightarrow> ?of ! j = kInvalidOffset) \<longrightarrow>
              GetScaleIndex_offsets ?sc (- 1) ?of = Inr (int k)"
      using R[of 0] by blast
    have up: "\<forall>j. 2 < j \<and> j < length ?of \<longrightarrow> ?of ! j = kInvalidOffset"
      by (auto simp: less_Suc_eq)
    have "(2::nat) < length ?of" "?of ! 2 \<noteq> kInvalidOffset" using inv by simp_all
    then show ?thesis using all up by blast
  qed
  show ?thesis using len 1 2 3 4 inv by simp
qed

subsection \<open>Sequencing and assertions\<close>

lemma bindE_simps [simp]:
  "bindE (Inl e) f = Inl e"
  "bindE (Inr x) f = f x"
  by (simp_all add: bindE_def)

lemma ASSERT_simps [simp]:
  "ASSERT dbg True"
  "ASSERT False c"
  "ASSERT True c = c"
  by (simp_all add: ASSERT_def)

subsection \<open>The filter of the inner geometry\<close>

lemma filter_inner_loop_eq:
  "filter_inner_loop m s pts i acc =
     acc @ map (nth pts) (filter (\<lambda>j. (drop_bit (2 * (j - 1)) m AND 3) \<le> s) [i..<length pts - 1])"
proof (induction "length pts - 1 - i" arbitrary: i acc)
  case 0
  then have "\<not> i < length pts - 1" by simp
  then show ?case by (subst filter_inner_loop.simps) simp
next
  case (Suc d)
  then have lt: "i < length pts - 1" by simp
  have "d = length pts - 1 - Suc i" using Suc.hyps(2) by simp
  note IH = Suc.hyps(1)[OF this]
  show ?case
    using lt by (subst filter_inner_loop.simps) (simp add: IH upt_conv_Cons)
qed

lemma filter_inner_eq:
  "filter_inner m s pts =
     hd pts # map (nth pts) (filter (\<lambda>j. (drop_bit (2 * (j - 1)) m AND 3) \<le> s) [1..<length pts - 1])
       @ [last pts]"
  by (simp add: filter_inner_def filter_inner_loop_eq)

lemma scale_index_word:
  assumes "si < n" "n < 2 ^ 31"
  shows "unat (word_of_nat si :: 32 word) = si"
proof -
  have "si < 2 ^ 32" using assms by simp
  then show ?thesis by (simp add: unat_of_nat)
qed

lemma subseq_filter_mono:
  assumes "\<And>x. P x \<Longrightarrow> Q x"
  shows "subseq (filter P xs) (filter Q xs)"
  by (induction xs) (auto simp: assms)

text \<open>
  C3. Let the reader hold an inline line of \<open>N\<close> decoded points, \<open>2 \<le> N\<close> (the
  source asserts more than one point; beyond 17 points the shift of the mask would reach
  the width of the word), with the second header parsed and the points not yet. If the
  requested scale resolves to the scale index \<open>si\<close>, \<open>ParseGeometry\<close> succeeds and
  leaves, in order, the first point, each intermediate point \<open>i\<close> (\<open>1 \<le> i \<le> N - 2\<close>)
  with \<open>((m_ptsSimpMask >> 2 * (i - 1)) & 3) \<le> si\<close> and no other, and the last point.
\<close>

theorem ParseGeometry_inline_filter:
  assumes h2: "m_bHeader2Parsed ft" and np: "\<not> m_bPointsParsed ft"
    and hd: "Header ft = Inr h" and line: "h AND HEADER_IS_LINE \<noteq> 0"
    and n2: "2 \<le> length (m_Points ft)" and n17: "length (m_Points ft) \<le> 17"
    and si: "GetScaleIndex (m_scales ft) scale = int si"
    and lt: "si < length (m_scales ft)" and cnt: "length (m_scales ft) < 2 ^ 31"
  shows "ParseGeometry X scale ft =
     (let kept = hd (m_Points ft)
            # map (nth (m_Points ft))
                (filter (\<lambda>i. unat (drop_bit (2 * (i - 1)) (r_ptsSimpMask ft) AND 3) \<le> si)
                   [1..<length (m_Points ft) - 1])
            @ [last (m_Points ft)]
      in Inr (ft\<lparr>m_Points := kept, r_LimitRect := CalcRect kept (r_LimitRect ft),
                 m_bPointsParsed := True\<rparr>, 0))"
proof -
  have ne: "m_Points ft \<noteq> []" using n2 by auto
  have u: "unat (word_of_nat si :: 32 word) = si"
    using scale_index_word[OF lt cnt] .
  have cmp: "\<And>t :: 32 word. t \<le> word_of_nat si \<longleftrightarrow> unat t \<le> si"
    by (simp add: word_le_nat_alt u)
  have f: "filter_inner (r_ptsSimpMask ft) (word_of_nat si) (m_Points ft) =
      hd (m_Points ft)
            # map (nth (m_Points ft))
                (filter (\<lambda>i. unat (drop_bit (2 * (i - 1)) (r_ptsSimpMask ft) AND 3) \<le> si)
                   [1..<length (m_Points ft) - 1])
            @ [last (m_Points ft)]"
    by (simp only: filter_inner_eq cmp)
  show ?thesis
    unfolding ParseGeometry_def ParseGeometry_inner_def
    using h2 np hd line ne lt
    by (simp add: si f u Let_def)
qed

theorem ParseGeometry_inline_filter_witness:
  "m_bHeader2Parsed inline_line \<and> \<not> m_bPointsParsed inline_line
   \<and> Header inline_line = Inr 65 \<and> (65 :: byte) AND HEADER_IS_LINE \<noteq> 0
   \<and> 2 \<le> length (m_Points inline_line) \<and> length (m_Points inline_line) \<le> 17
   \<and> GetScaleIndex (m_scales inline_line) 12 = int 2
   \<and> 2 < length (m_scales inline_line) \<and> length (m_scales inline_line) < 2 ^ 31
   \<and> ParseGeometry (plain_ext True) 12 inline_line =
       Inr (inline_line\<lparr>m_Points := [(0, 0), (1, 1), (2, 0), (4, 0)],
              r_LimitRect := \<lparr>minX = 0, minY = 0, maxX = 4, maxY = 1\<rparr>,
              m_bPointsParsed := True\<rparr>, 0)"
proof -
  have a: "m_bHeader2Parsed inline_line" "\<not> m_bPointsParsed inline_line"
    "Header inline_line = Inr 65" "(65 :: byte) AND HEADER_IS_LINE \<noteq> 0"
    "2 \<le> length (m_Points inline_line)" "length (m_Points inline_line) \<le> 17"
    by (simp_all add: inline_line_def Header_def DataPtr_def HEADER_IS_LINE_def)
  have b: "GetScaleIndex (m_scales inline_line) 12 = int 2"
    by (simp add: inline_line_def GetScaleIndex_def scan_first.simps)
  have c: "2 < length (m_scales inline_line)" "length (m_scales inline_line) < 2 ^ 31"
    by (simp_all add: inline_line_def)
  have pts: "m_Points inline_line = [(0, 0), (1, 1), (2, 0), (3, 1), (4, 0)]"
    "r_ptsSimpMask inline_line = 56" "r_LimitRect inline_line = unit_rect"
    by (simp_all add: inline_line_def)
  have up: "[1..<4] = [1, 2, 3 :: nat]" by (simp add: upt_rec)
  have "ParseGeometry (plain_ext True) 12 inline_line =
       Inr (inline_line\<lparr>m_Points := [(0, 0), (1, 1), (2, 0), (4, 0)],
              r_LimitRect := \<lparr>minX = 0, minY = 0, maxX = 4, maxY = 1\<rparr>,
              m_bPointsParsed := True\<rparr>, 0)"
    using ParseGeometry_inline_filter[OF a b c, of "plain_ext True"]
    by (simp add: pts up CalcRect_def RectD_Add_def unit_rect_def Let_def)
  then show ?thesis using a b c by simp
qed

text \<open>
  C4. For a line with inline points and scale indices \<open>s\<close> and \<open>s + 1\<close> (\<open>s + 1\<close> being
  a scale index, so above \<open>s\<close>), what the filter keeps at \<open>s\<close> it keeps at \<open>s + 1\<close>:
  the points kept at \<open>s\<close> are a subsequence of those kept at \<open>s + 1\<close>, hence a subset.
\<close>

theorem filter_inner_monotone:
  assumes "pts \<noteq> []" and "s < s + 1"
  shows "subseq (filter_inner m s pts) (filter_inner m (s + 1) pts)
         \<and> set (filter_inner m s pts) \<subseteq> set (filter_inner m (s + 1) pts)"
proof -
  have le: "\<And>t :: 32 word. t \<le> s \<Longrightarrow> t \<le> s + 1"
    using assms(2) by simp
  have "subseq (filter (\<lambda>j. (drop_bit (2 * (j - 1)) m AND 3) \<le> s) [1..<length pts - 1])
               (filter (\<lambda>j. (drop_bit (2 * (j - 1)) m AND 3) \<le> s + 1) [1..<length pts - 1])"
    by (rule subseq_filter_mono) (rule le)
  then have "subseq (map (nth pts) (filter (\<lambda>j. (drop_bit (2 * (j - 1)) m AND 3) \<le> s) [1..<length pts - 1]))
               (map (nth pts) (filter (\<lambda>j. (drop_bit (2 * (j - 1)) m AND 3) \<le> s + 1) [1..<length pts - 1]))"
    by (rule subseq_map)
  then have sub: "subseq (filter_inner m s pts) (filter_inner m (s + 1) pts)"
    by (simp add: filter_inner_eq list_emb_append_mono)
  then show ?thesis by (auto elim: list_emb_set)
qed

theorem filter_inner_monotone_witness:
  "m_Points inline_line \<noteq> [] \<and> (1 :: 32 word) < 1 + 1
   \<and> filter_inner 56 1 (m_Points inline_line) = [(0, 0), (1, 1), (4, 0)]
   \<and> filter_inner 56 (1 + 1) (m_Points inline_line) = [(0, 0), (1, 1), (2, 0), (4, 0)]
   \<and> subseq (filter_inner 56 1 (m_Points inline_line)) (filter_inner 56 (1 + 1) (m_Points inline_line))"
proof -
  have ne: "m_Points inline_line \<noteq> []" by (simp add: inline_line_def)
  have lt: "(1 :: 32 word) < 1 + 1" by simp
  have up: "[1..<4] = [1, 2, 3 :: nat]" by (simp add: upt_rec)
  have a: "filter_inner 56 1 (m_Points inline_line) = [(0, 0), (1, 1), (4, 0)]"
    by (simp add: filter_inner_eq inline_line_def up word_le_nat_alt)
  have b: "filter_inner 56 (1 + 1) (m_Points inline_line) = [(0, 0), (1, 1), (2, 0), (4, 0)]"
    by (simp add: filter_inner_eq inline_line_def up word_le_nat_alt)
  have "subseq (filter_inner 56 1 (m_Points inline_line))
               (filter_inner 56 (1 + 1) (m_Points inline_line))"
    using filter_inner_monotone[OF ne lt, of 56] by blast
  then show ?thesis using ne lt a b by blast
qed

subsection \<open>The holes of an area\<close>

lemma add_holes_filter:
  "list_all (\<lambda>h. h \<noteq> []) hs \<Longrightarrow>
   add_holes X g hs acc = Inr (acc @ filter (\<lambda>h. RegionContains X g (hd h)) hs)"
  by (induction hs arbitrary: acc) (auto simp: ASSERT_def)

text \<open>
  C6. For every geometry and every list of candidate holes, none of them empty (the
  source asserts it) and fewer than \<open>2^32\<close>, \<open>SetAreaAddHoles\<close> retains, in order,
  exactly the holes whose first vertex the region of the outer geometry contains, and
  drops the others without an error. When the builder so obtained is valid, the buffer
  that \<open>Serialize\<close> produces for it holds, after the base block and the outer path of
  the geometry, the number of retained holes, followed by the retained holes (the debug
  build returns this buffer or fails its self-check).
\<close>

theorem SetAreaAddHoles_filter:
  assumes ne: "list_all (\<lambda>h. h \<noteq> []) holes"
    and less: "length holes < 2 ^ 32"
    and fb': "fb' = fb\<lparr>m_bArea := True,
                 m_Holes := filter (\<lambda>h. RegionContains X (m_Geometry fb) (hd h)) holes\<rparr>"
    and valid: "CheckValid X fb' = Inr True"
  shows "SetAreaAddHoles X holes fb = Inr fb'
    \<and> Serialize_body X fb' =
        Inr (SerializeBase X fb' [] (0, 0) @ SaveOuterPath X (m_Geometry fb) 0
             @ WriteVarUint (length (m_Holes fb'))
             @ concat (map (\<lambda>h. SaveOuterPath X h 0) (m_Holes fb')))
    \<and> (\<not> DEBUG X \<longrightarrow> Serialize X fb' = Serialize_body X fb')
    \<and> (\<forall>d. Serialize X fb' = Inr d \<longrightarrow> Serialize_body X fb' = Inr d)"
proof (intro conjI)
  show "SetAreaAddHoles X holes fb = Inr fb'"
    using ne by (cases "holes = []") (simp_all add: SetAreaAddHoles_def Let_def add_holes_filter fb')
next
  have "length (m_Holes fb') \<le> length holes" by (simp add: fb')
  then have "length (m_Holes fb') < 2 ^ 32" using less by simp
  then have u: "unat (word_of_nat (length (m_Holes fb')) :: 32 word) = length (m_Holes fb')"
    by (simp add: unat_of_nat)
  have a: "m_bArea fb'" "m_Geometry fb' = m_Geometry fb" by (simp_all add: fb')
  show "Serialize_body X fb' =
        Inr (SerializeBase X fb' [] (0, 0) @ SaveOuterPath X (m_Geometry fb) 0
             @ WriteVarUint (length (m_Holes fb'))
             @ concat (map (\<lambda>h. SaveOuterPath X h 0) (m_Holes fb')))"
    unfolding Serialize_body_def using valid a u by simp
next
  show "\<not> DEBUG X \<longrightarrow> Serialize X fb' = Serialize_body X fb'"
    by (cases "Serialize_body X fb'") (simp_all add: Serialize_def)
next
  show "\<forall>d. Serialize X fb' = Inr d \<longrightarrow> Serialize_body X fb' = Inr d"
    by (cases "Serialize_body X fb'")
       (auto simp: Serialize_def bindE_def split: sum.splits if_splits)
qed

theorem SetAreaAddHoles_filter_witness:
  "list_all (\<lambda>h. h \<noteq> []) [hole_outside, hole_inside]
   \<and> length [hole_outside, hole_inside] < (2 :: nat) ^ 32
   \<and> CheckValid (plain_ext False) (square_builder\<lparr>m_bArea := True, m_Holes := [hole_inside]\<rparr>) = Inr True
   \<and> SetAreaAddHoles (plain_ext False) [hole_outside, hole_inside] square_builder
       = Inr (square_builder\<lparr>m_bArea := True, m_Holes := [hole_inside]\<rparr>)
   \<and> Serialize (plain_ext False) (square_builder\<lparr>m_bArea := True, m_Holes := [hole_inside]\<rparr>)
       = Inr [129, 7, 1]"
proof -
  let ?X = "plain_ext False"
  let ?hs = "[hole_outside, hole_inside]"
  let ?fb' = "square_builder\<lparr>m_bArea := True, m_Holes := [hole_inside]\<rparr>"
  have ne: "list_all (\<lambda>h. h \<noteq> []) ?hs"
    by (simp add: hole_inside_def hole_outside_def)
  have less: "length ?hs < (2 :: nat) ^ 32" by simp
  have f: "filter (\<lambda>h. RegionContains ?X (m_Geometry square_builder) (hd h)) ?hs = [hole_inside]"
    by (simp add: plain_ext_def square_builder_def hole_inside_def hole_outside_def)
  have fb': "?fb' = square_builder\<lparr>m_bArea := True,
                 m_Holes := filter (\<lambda>h. RegionContains ?X (m_Geometry square_builder) (hd h)) ?hs\<rparr>"
    by (simp only: f)
  have valid: "CheckValid ?X ?fb' = Inr True"
    by (simp add: CheckValid_def square_builder_def plain_ext_def hole_inside_def)
  note T = SetAreaAddHoles_filter[OF ne less fb' valid]
  have 1: "SetAreaAddHoles ?X ?hs square_builder = Inr ?fb'" using T by blast
  have nd: "\<not> DEBUG ?X" by (simp add: plain_ext_def)
  have "Serialize ?X ?fb' = Inr (SerializeBase ?X ?fb' [] (0, 0) @ SaveOuterPath ?X (m_Geometry square_builder) 0
             @ WriteVarUint (length (m_Holes ?fb'))
             @ concat (map (\<lambda>h. SaveOuterPath ?X h 0) (m_Holes ?fb')))"
    using T nd by simp
  then have 2: "Serialize ?X ?fb' = Inr [129, 7, 1]"
    by (simp add: SerializeBase_def GetHeader_def square_builder_def plain_ext_def
        WriteVarUint.simps HEADER_IS_AREA_def)
  show ?thesis using ne less valid 1 2 by blast
qed

subsection \<open>The parse stages\<close>

lemma CalcRect_Nil [simp]: "CalcRect [] r = r"
  by (simp add: CalcRect_def)

text \<open>What a stage that succeeds changes: the fields named, and nothing else.\<close>

lemma bindE_Inr_iff: "bindE m f = Inr y \<longleftrightarrow> (\<exists>x. m = Inr x \<and> f x = Inr y)"
  by (cases m) simp_all

lemma ParseTypes_shape:
  assumes "ParseTypes X f = Inr f'"
  shows "\<exists>t c. f' = f\<lparr>r_Types := t, m_bTypesParsed := True, m_CommonOffset := c\<rparr>"
  using assms
  by (auto simp: ParseTypes_def bindE_Inr_iff split: if_splits)

lemma ParseCommon_layer_shape:
  assumes "ParseCommon_layer h f src = Inr (f', src')"
  shows "\<exists>l. f' = f\<lparr>r_Layer := l\<rparr>"
proof (cases "h AND HEADER_HAS_LAYER \<noteq> 0")
  case True
  then show ?thesis using assms by (auto simp: ParseCommon_layer_def bindE_Inr_iff)
next
  case False
  then have "f' = f\<lparr>r_Layer := r_Layer f\<rparr>" using assms by (simp add: ParseCommon_layer_def)
  then show ?thesis by blast
qed

lemma ParseCommon_name_shape:
  assumes "ParseCommon_name h f src = Inr (f', src')"
  shows "\<exists>n. f' = f\<lparr>r_Name := n\<rparr>"
proof (cases "h AND HEADER_HAS_NAME \<noteq> 0")
  case True
  then show ?thesis using assms by (auto simp: ParseCommon_name_def bindE_Inr_iff)
next
  case False
  then have "f' = f\<lparr>r_Name := r_Name f\<rparr>" using assms by (simp add: ParseCommon_name_def)
  then show ?thesis by blast
qed

lemma ParseCommon_point_shape:
  assumes "ParseCommon_point X h f src = Inr (f', src')"
  shows "\<exists>c r. f' = f\<lparr>r_Center := c, r_LimitRect := r\<rparr>"
proof (cases "h AND HEADER_HAS_POINT \<noteq> 0")
  case True
  then obtain d where "f' = f\<lparr>r_Center := PointU2PointD X
                               (DecodeDelta X (word_of_nat d) (Uint64ToPointU X (m_base f))),
                    r_LimitRect := RectD_Add (r_LimitRect f)
                               (PointU2PointD X
                                 (DecodeDelta X (word_of_nat d) (Uint64ToPointU X (m_base f))))\<rparr>"
    using assms by (auto simp: ParseCommon_point_def bindE_Inr_iff)
  then show ?thesis by blast
next
  case False
  then have "f' = f\<lparr>r_Center := r_Center f, r_LimitRect := r_LimitRect f\<rparr>"
    using assms by (simp add: ParseCommon_point_def)
  then show ?thesis by blast
qed

lemma ParseCommon_shape:
  assumes "ParseCommon X f = Inr f'"
  shows "\<exists>t co l n c r ho.
           f' = f\<lparr>r_Types := t, m_bTypesParsed := True, m_CommonOffset := co, r_Layer := l,
                  r_Name := n, r_Center := c, r_LimitRect := r,
                  m_bCommonParsed := True, m_Header2Offset := ho\<rparr>"
proof -
  from assms obtain g h f1 s1 f2 s2 f3 s3 where
    g: "(if \<not> m_bTypesParsed f then ParseTypes X f else Inr f) = Inr g"
    and 1: "ParseCommon_layer h g (drop (m_CommonOffset g) (DataPtr g)) = Inr (f1, s1)"
    and 2: "ParseCommon_name h f1 s1 = Inr (f2, s2)"
    and 3: "ParseCommon_point X h f2 s2 = Inr (f3, s3)"
    and r: "f' = f3\<lparr>m_bCommonParsed := True, m_Header2Offset := CalcOffset f3 s3\<rparr>"
    by (auto simp: ParseCommon_def bindE_Inr_iff split: if_splits)
  have "\<exists>t co. g = f\<lparr>r_Types := t, m_bTypesParsed := True, m_CommonOffset := co\<rparr>"
  proof (cases "m_bTypesParsed f")
    case True
    then have "g = f\<lparr>r_Types := r_Types f, m_bTypesParsed := True, m_CommonOffset := m_CommonOffset f\<rparr>"
      using g by simp
    then show ?thesis by blast
  next
    case False
    then show ?thesis using g ParseTypes_shape[of X f g] by simp
  qed
  then obtain t co where g': "g = f\<lparr>r_Types := t, m_bTypesParsed := True, m_CommonOffset := co\<rparr>"
    by blast
  obtain l where f1: "f1 = g\<lparr>r_Layer := l\<rparr>" using ParseCommon_layer_shape[OF 1] by blast
  obtain n where f2: "f2 = f1\<lparr>r_Name := n\<rparr>" using ParseCommon_name_shape[OF 2] by blast
  obtain c rr where f3: "f3 = f2\<lparr>r_Center := c, r_LimitRect := rr\<rparr>"
    using ParseCommon_point_shape[OF 3] by blast
  show ?thesis
    unfolding r f3 f2 f1 g' by (intro exI) simp
qed

lemma ParseHeader2_line_shape:
  assumes "ParseHeader2_line X h pc pm ft src = Inr (ft', src')"
  shows "\<exists>m p s os. ft' = ft\<lparr>r_ptsSimpMask := m, m_Points := p, m_ptsOffsets := os,
                              m_InnerStats_Points := s\<rparr>"
proof -
  have id: "ft = ft\<lparr>r_ptsSimpMask := r_ptsSimpMask ft, m_Points := m_Points ft,
        m_ptsOffsets := m_ptsOffsets ft, m_InnerStats_Points := m_InnerStats_Points ft\<rparr>"
    by simp
  consider "h AND HEADER_IS_LINE = 0" | "h AND HEADER_IS_LINE \<noteq> 0" "pc > 0"
    | "h AND HEADER_IS_LINE \<noteq> 0" "\<not> pc > 0" by blast
  then show ?thesis
  proof cases
    case 1
    then have "ft' = ft" using assms by (simp add: ParseHeader2_line_def)
    then show ?thesis using id by metis
  next
    case 2
    then obtain m p s where "ft' = ft\<lparr>r_ptsSimpMask := m, m_Points := p, m_InnerStats_Points := s\<rparr>"
      using assms by (auto simp: ParseHeader2_line_def bindE_Inr_iff split: if_splits)
    then have "ft' = ft\<lparr>r_ptsSimpMask := m, m_Points := p, m_ptsOffsets := m_ptsOffsets ft,
                              m_InnerStats_Points := s\<rparr>" by simp
    then show ?thesis by blast
  next
    case 3
    then obtain os where "ft' = ft\<lparr>m_ptsOffsets := os\<rparr>"
      using assms by (auto simp: ParseHeader2_line_def bindE_Inr_iff split: if_splits)
    then have "ft' = ft\<lparr>r_ptsSimpMask := r_ptsSimpMask ft, m_Points := m_Points ft, m_ptsOffsets := os,
                              m_InnerStats_Points := m_InnerStats_Points ft\<rparr>" by simp
    then show ?thesis by blast
  qed
qed

lemma ParseHeader2_area_shape:
  assumes "ParseHeader2_area X h tc tm ft src = Inr (ft', src')"
  shows "\<exists>t s os. ft' = ft\<lparr>m_Triangles := t, m_trgOffsets := os, m_InnerStats_Strips := s\<rparr>"
proof -
  have id: "ft = ft\<lparr>m_Triangles := m_Triangles ft,
        m_trgOffsets := m_trgOffsets ft, m_InnerStats_Strips := m_InnerStats_Strips ft\<rparr>"
    by simp
  consider "h AND HEADER_IS_AREA = 0" | "h AND HEADER_IS_AREA \<noteq> 0" "tc > 0"
    | "h AND HEADER_IS_AREA \<noteq> 0" "\<not> tc > 0" by blast
  then show ?thesis
  proof cases
    case 1
    then have "ft' = ft" using assms by (simp add: ParseHeader2_area_def)
    then show ?thesis using id by metis
  next
    case 2
    then obtain t s where "ft' = ft\<lparr>m_Triangles := t, m_InnerStats_Strips := s\<rparr>"
      using assms by (auto simp: ParseHeader2_area_def bindE_Inr_iff split: if_splits)
    then have "ft' = ft\<lparr>m_Triangles := t, m_trgOffsets := m_trgOffsets ft,
                              m_InnerStats_Strips := s\<rparr>" by simp
    then show ?thesis by blast
  next
    case 3
    then obtain os where "ft' = ft\<lparr>m_trgOffsets := os\<rparr>"
      using assms by (auto simp: ParseHeader2_area_def bindE_Inr_iff split: if_splits)
    then have "ft' = ft\<lparr>m_Triangles := m_Triangles ft, m_trgOffsets := os,
                              m_InnerStats_Strips := m_InnerStats_Strips ft\<rparr>" by simp
    then show ?thesis by blast
  qed
qed

lemma ParseHeader2_shape:
  assumes "ParseHeader2 X ft = Inr ft'"
  shows "\<exists>g m p os s t tos ss sz.
           (if \<not> m_bCommonParsed ft then ParseCommon X ft else Inr ft) = Inr g \<and>
           ft' = g\<lparr>r_ptsSimpMask := m, m_Points := p, m_ptsOffsets := os, m_InnerStats_Points := s,
                   m_Triangles := t, m_trgOffsets := tos, m_InnerStats_Strips := ss,
                   m_bHeader2Parsed := True, m_InnerStats_Size := sz\<rparr>"
proof -
  from assms obtain g h pc pm b1 tc tm b2 f1 sA f2 sB where
    g: "(if \<not> m_bCommonParsed ft then ParseCommon X ft else Inr ft) = Inr g"
    and 1: "ParseHeader2_line X h pc pm g (BitSource_RoundPtr b2) = Inr (f1, sA)"
    and 2: "ParseHeader2_area X h tc tm f1 sA = Inr (f2, sB)"
    and r: "ft' = f2\<lparr>m_bHeader2Parsed := True, m_InnerStats_Size := CalcOffset f2 sB\<rparr>"
    by (auto simp: ParseHeader2_def bindE_Inr_iff split: if_splits)
  obtain m p s os where f1: "f1 = g\<lparr>r_ptsSimpMask := m, m_Points := p, m_ptsOffsets := os,
                              m_InnerStats_Points := s\<rparr>"
    using ParseHeader2_line_shape[OF 1] by blast
  obtain t ss tos where f2: "f2 = f1\<lparr>m_Triangles := t, m_trgOffsets := tos, m_InnerStats_Strips := ss\<rparr>"
    using ParseHeader2_area_shape[OF 2] by blast
  have "ft' = g\<lparr>r_ptsSimpMask := m, m_Points := p, m_ptsOffsets := os, m_InnerStats_Points := s,
                   m_Triangles := t, m_trgOffsets := tos, m_InnerStats_Strips := ss,
                   m_bHeader2Parsed := True, m_InnerStats_Size := CalcOffset f2 sB\<rparr>"
    unfolding r f2 f1 by simp
  then show ?thesis using g by blast
qed

lemma ParseTypes_flags:
  fixes ft :: FeatureType
  assumes "ParseTypes X ft = Inr ft'"
  shows "m_bTypesParsed ft' \<and> m_bCommonParsed ft' = m_bCommonParsed ft
       \<and> m_bHeader2Parsed ft' = m_bHeader2Parsed ft
       \<and> m_bPointsParsed ft' = m_bPointsParsed ft
       \<and> m_bTrianglesParsed ft' = m_bTrianglesParsed ft"
  using ParseTypes_shape[OF assms] by auto

lemma ParseCommon_flags:
  fixes ft :: FeatureType
  assumes "ParseCommon X ft = Inr ft'"
  shows "m_bTypesParsed ft' \<and> m_bCommonParsed ft'
       \<and> m_bHeader2Parsed ft' = m_bHeader2Parsed ft
       \<and> m_bPointsParsed ft' = m_bPointsParsed ft
       \<and> m_bTrianglesParsed ft' = m_bTrianglesParsed ft"
  using ParseCommon_shape[OF assms] by auto

lemma ensure_common_flags:
  fixes ft :: FeatureType
  assumes "(if \<not> m_bCommonParsed ft then ParseCommon X ft else Inr ft) = Inr g"
    and "stage_order ft"
  shows "m_bTypesParsed g \<and> m_bCommonParsed g
       \<and> m_bHeader2Parsed g = m_bHeader2Parsed ft
       \<and> m_bPointsParsed g = m_bPointsParsed ft
       \<and> m_bTrianglesParsed g = m_bTrianglesParsed ft"
proof (cases "m_bCommonParsed ft")
  case True
  then show ?thesis using assms by (simp add: stage_order_def)
next
  case False
  then show ?thesis using assms ParseCommon_flags[of X ft g] by simp
qed

lemma ParseHeader2_flags:
  assumes "ParseHeader2 X ft = Inr ft'" and "stage_order ft"
  shows "m_bTypesParsed ft' \<and> m_bCommonParsed ft' \<and> m_bHeader2Parsed ft'
       \<and> m_bPointsParsed ft' = m_bPointsParsed ft
       \<and> m_bTrianglesParsed ft' = m_bTrianglesParsed ft"
proof -
  from ParseHeader2_shape[OF assms(1)] obtain g m p os s t tos ss sz where
    g: "(if \<not> m_bCommonParsed ft then ParseCommon X ft else Inr ft) = Inr g"
    and r: "ft' = g\<lparr>r_ptsSimpMask := m, m_Points := p, m_ptsOffsets := os, m_InnerStats_Points := s,
                   m_Triangles := t, m_trgOffsets := tos, m_InnerStats_Strips := ss,
                   m_bHeader2Parsed := True, m_InnerStats_Size := sz\<rparr>"
    by blast
  show ?thesis using ensure_common_flags[OF g assms(2)] by (simp add: r)
qed

lemma ensure_header2_flags:
  assumes "(if \<not> m_bHeader2Parsed ft then ParseHeader2 X ft else Inr ft) = Inr g"
    and "stage_order ft"
  shows "m_bTypesParsed g \<and> m_bCommonParsed g \<and> m_bHeader2Parsed g
       \<and> m_bPointsParsed g = m_bPointsParsed ft
       \<and> m_bTrianglesParsed g = m_bTrianglesParsed ft"
proof (cases "m_bHeader2Parsed ft")
  case True
  then show ?thesis using assms by (simp add: stage_order_def)
next
  case False
  then show ?thesis using assms ParseHeader2_flags[of X ft g] by simp
qed

lemma ParseGeometry_outer_shape:
  assumes "ParseGeometry_outer X scale ft = Inr (ft', sz)"
  shows "\<exists>p. ft' = ft\<lparr>m_Points := p\<rparr>"
proof -
  have id: "ft = ft\<lparr>m_Points := m_Points ft\<rparr>" by simp
  from assms obtain ind where
    ind: "GetScaleIndex_offsets (m_scales ft) scale (m_ptsOffsets ft) = Inr ind"
    by (auto simp: ParseGeometry_outer_def bindE_Inr_iff)
  show ?thesis
  proof (cases "ind = - 1")
    case True
    then have "ft' = ft" using assms ind by (simp add: ParseGeometry_outer_def)
    then show ?thesis using id by metis
  next
    case False
    then show ?thesis using assms ind
      by (auto simp: ParseGeometry_outer_def bindE_Inr_iff split: if_splits)
  qed
qed

lemma ParseGeometry_inner_shape:
  assumes "ParseGeometry_inner X scale ft = Inr (ft', sz)"
  shows "\<exists>p. ft' = ft\<lparr>m_Points := p\<rparr>"
  using assms by (auto simp: ParseGeometry_inner_def split: if_splits)

lemma ParseTriangles_outer_shape:
  assumes "ParseTriangles_outer X scale ft = Inr (ft', sz)"
  shows "\<exists>p. ft' = ft\<lparr>m_Triangles := p\<rparr>"
proof -
  have id: "ft = ft\<lparr>m_Triangles := m_Triangles ft\<rparr>" by simp
  from assms obtain r where
    r: "GetScaleIndex_offsets (m_scales ft) scale (m_trgOffsets ft) = Inr r"
    by (auto simp: ParseTriangles_outer_def bindE_Inr_iff)
  show ?thesis
  proof (cases "(word_of_int r :: 32 word) = - 1")
    case True
    then have "ft' = ft" using assms r by (simp add: ParseTriangles_outer_def)
    then show ?thesis using id by metis
  next
    case False
    then show ?thesis using assms r
      by (auto simp: ParseTriangles_outer_def bindE_Inr_iff split: if_splits)
  qed
qed

lemma ParseGeometry_flags:
  assumes "ParseGeometry X scale ft = Inr (ft', sz)" and "stage_order ft"
  shows "m_bTypesParsed ft' \<and> m_bCommonParsed ft' \<and> m_bHeader2Parsed ft'
       \<and> m_bPointsParsed ft'
       \<and> m_bTrianglesParsed ft' = m_bTrianglesParsed ft"
proof -
  let ?E = "if \<not> m_bHeader2Parsed ft then ParseHeader2 X ft else Inr ft"
  have a: "ASSERT (DEBUG X) (\<not> m_bPointsParsed ft)"
    using assms(1) unfolding ParseGeometry_def
    by (cases "ASSERT (DEBUG X) (\<not> m_bPointsParsed ft)") simp_all
  obtain g where g: "?E = Inr g"
    using assms(1) a unfolding ParseGeometry_def by (cases ?E) simp_all
  obtain h where h: "Header g = Inr h"
    using assms(1) a g unfolding ParseGeometry_def by (cases "Header g") simp_all
  have "\<exists>p rr. ft' = g\<lparr>m_Points := p, r_LimitRect := rr, m_bPointsParsed := True\<rparr>"
  proof (cases "h AND HEADER_IS_LINE \<noteq> 0")
    case False
    then have "ft' = g\<lparr>m_bPointsParsed := True\<rparr>"
      using assms(1) a g h unfolding ParseGeometry_def by simp
    then have "ft' = g\<lparr>m_Points := m_Points g, r_LimitRect := r_LimitRect g, m_bPointsParsed := True\<rparr>"
      by simp
    then show ?thesis by blast
  next
    case True
    let ?B = "if m_Points g = [] then ParseGeometry_outer X scale g
              else ParseGeometry_inner X scale g"
    obtain f1 s1 where b: "?B = Inr (f1, s1)"
      using assms(1) a g h True unfolding ParseGeometry_def by (cases ?B) auto
    have r: "ft' = f1\<lparr>r_LimitRect := CalcRect (m_Points f1) (r_LimitRect f1), m_bPointsParsed := True\<rparr>"
      using assms(1) a g h True b unfolding ParseGeometry_def by simp
    obtain p where "f1 = g\<lparr>m_Points := p\<rparr>"
      using b ParseGeometry_outer_shape[of X scale g f1 s1] ParseGeometry_inner_shape[of X scale g f1 s1]
      by (cases "m_Points g = []") auto
    then show ?thesis using r by auto
  qed
  then obtain p rr where f2: "ft' = g\<lparr>m_Points := p, r_LimitRect := rr, m_bPointsParsed := True\<rparr>"
    by blast
  show ?thesis using ensure_header2_flags[OF g assms(2)] by (simp add: f2)
qed

lemma ParseTriangles_flags:
  assumes "ParseTriangles X scale ft = Inr (ft', sz)" and "stage_order ft"
  shows "m_bTypesParsed ft' \<and> m_bCommonParsed ft' \<and> m_bHeader2Parsed ft'
       \<and> m_bTrianglesParsed ft'
       \<and> m_bPointsParsed ft' = m_bPointsParsed ft"
proof -
  let ?E = "if \<not> m_bHeader2Parsed ft then ParseHeader2 X ft else Inr ft"
  have a: "ASSERT (DEBUG X) (\<not> m_bTrianglesParsed ft)"
    using assms(1) unfolding ParseTriangles_def
    by (cases "ASSERT (DEBUG X) (\<not> m_bTrianglesParsed ft)") simp_all
  obtain g where g: "?E = Inr g"
    using assms(1) a unfolding ParseTriangles_def by (cases ?E) simp_all
  obtain h where h: "Header g = Inr h"
    using assms(1) a g unfolding ParseTriangles_def by (cases "Header g") simp_all
  have "\<exists>p rr. ft' = g\<lparr>m_Triangles := p, r_LimitRect := rr, m_bTrianglesParsed := True\<rparr>"
  proof (cases "h AND HEADER_IS_AREA \<noteq> 0")
    case False
    then have "ft' = g\<lparr>m_bTrianglesParsed := True\<rparr>"
      using assms(1) a g h unfolding ParseTriangles_def by simp
    then have "ft' = g\<lparr>m_Triangles := m_Triangles g, r_LimitRect := r_LimitRect g, m_bTrianglesParsed := True\<rparr>"
      by simp
    then show ?thesis by blast
  next
    case True
    let ?B = "if m_Triangles g = [] then ParseTriangles_outer X scale g else Inr (g, 0)"
    obtain f1 s1 where b: "?B = Inr (f1, s1)"
      using assms(1) a g h True unfolding ParseTriangles_def by (cases ?B) auto
    have r: "ft' = f1\<lparr>r_LimitRect := CalcRect (m_Triangles f1) (r_LimitRect f1), m_bTrianglesParsed := True\<rparr>"
      using assms(1) a g h True b unfolding ParseTriangles_def by simp
    have "\<exists>p. f1 = g\<lparr>m_Triangles := p\<rparr>"
    proof (cases "m_Triangles g = []")
      case True
      then show ?thesis using b ParseTriangles_outer_shape[of X scale g f1 s1] by simp
    next
      case False
      then have "f1 = g\<lparr>m_Triangles := m_Triangles g\<rparr>" using b by simp
      then show ?thesis by blast
    qed
    then show ?thesis using r by auto
  qed
  then obtain p rr where f2: "ft' = g\<lparr>m_Triangles := p, r_LimitRect := rr, m_bTrianglesParsed := True\<rparr>"
    by blast
  show ?thesis using ensure_header2_flags[OF g assms(2)] by (simp add: f2)
qed

lemma stage_order_flags:
  "m_bTypesParsed ft \<Longrightarrow> m_bCommonParsed ft \<Longrightarrow> m_bHeader2Parsed ft \<Longrightarrow> stage_order ft"
  by (simp add: stage_order_def)

lemma ParseAll_flags:
  assumes "ParseAll X scale ft = Inr ft'" and "stage_order ft"
  shows "m_bTypesParsed ft' \<and> m_bCommonParsed ft' \<and> m_bHeader2Parsed ft'
       \<and> m_bPointsParsed ft' \<and> m_bTrianglesParsed ft'"
proof -
  let ?G = "if \<not> m_bPointsParsed ft
            then bindE (ParseGeometry X scale ft) (\<lambda>(ft', sz). Inr ft')
            else Inr ft"
  obtain f1 where g: "?G = Inr f1"
    using assms(1) unfolding ParseAll_def by (cases ?G) simp_all
  have t: "(if \<not> m_bTrianglesParsed f1
            then bindE (ParseTriangles X scale f1) (\<lambda>(ft', sz). Inr ft')
            else Inr f1) = Inr ft'"
    using assms(1) g unfolding ParseAll_def by simp
  have f1: "m_bTypesParsed f1 \<and> m_bCommonParsed f1 \<and> m_bHeader2Parsed f1 \<and> m_bPointsParsed f1"
  proof (cases "m_bPointsParsed ft")
    case True
    then show ?thesis using g assms(2) by (auto simp: stage_order_def split: if_splits)
  next
    case False
    then obtain s where "ParseGeometry X scale ft = Inr (f1, s)"
      using g by (cases "ParseGeometry X scale ft") auto
    then show ?thesis using ParseGeometry_flags[OF _ assms(2)] by blast
  qed
  then have o1: "stage_order f1" by (simp add: stage_order_flags)
  show ?thesis
  proof (cases "m_bTrianglesParsed f1")
    case True
    then show ?thesis using t f1 by simp
  next
    case False
    then obtain s where "ParseTriangles X scale f1 = Inr (ft', s)"
      using t by (cases "ParseTriangles X scale f1") auto
    then show ?thesis using ParseTriangles_flags[OF _ o1] f1 by auto
  qed
qed

lemma mask4_byte: "mask 4 = (15 :: byte)"
  by (simp add: mask_eq_exp_minus_1)

lemma fresh_line_parse: "ParseAll (plain_ext True) 12 fresh_line = Inr parsed_line"
  by (simp add: mask4_byte fresh_line_def parsed_line_def inline_line_def plain_ext_def unit_rect_def
      empty_rect_def origin_rect_def
      FeatureType_Deserialize_def FeatureBase_Deserialize_def
      ParseAll_def ParseGeometry_def ParseGeometry_inner_def ParseTriangles_def
      ParseHeader2_def ParseHeader2_line_bits_def ParseHeader2_area_bits_def
      ParseHeader2_line_def ParseHeader2_area_def ParseCommon_def ParseCommon_layer_def
      ParseCommon_name_def ParseCommon_point_def ParseTypes_def ParseTypes_loop.simps
      GetTypesCount_def Header_def DataPtr_def m_TypesOffset_def CalcOffset_def
      BitSource_new_def BitSource_Read_def BitSource_bits_def BitSource_RoundPtr_def
      read_simp_mask.simps GetScaleIndex_def scan_first.simps filter_inner_eq
      CalcRect_def RectD_Add_def
      HEADER_HAS_NAME_def HEADER_HAS_LAYER_def HEADER_HAS_POINT_def HEADER_IS_LINE_def
      HEADER_IS_AREA_def Let_def)

text \<open>
  C9, as stated, fails in that a stage is not idempotent. In the debug build
  \<open>ParseGeometry\<close> on the reader it has just parsed fails its \<open>ASSERT\<close>. In the
  release build it runs again: on the five inline points with the tags 3, 0, 0 at scale
  index 0 the first call leaves the points 0, 2, 3, 4 and the second call, which reads
  the tags by position, leaves 0, 3, 4.
\<close>

theorem parse_stage_repeated_counterexample:
  "ParseGeometry (plain_ext True) 5 inline_line
     = Inr (inline_line\<lparr>m_Points := [(0, 0), (1, 1), (4, 0)],
              r_LimitRect := \<lparr>minX = 0, minY = 0, maxX = 4, maxY = 1\<rparr>,
              m_bPointsParsed := True\<rparr>, 0)
   \<and> ParseGeometry (plain_ext True) 5
        (inline_line\<lparr>m_Points := [(0, 0), (1, 1), (4, 0)],
              r_LimitRect := \<lparr>minX = 0, minY = 0, maxX = 4, maxY = 1\<rparr>,
              m_bPointsParsed := True\<rparr>)
     = Inl AssertFailed
   \<and> ParseGeometry (plain_ext False) 5 (inline_line\<lparr>r_ptsSimpMask := 3\<rparr>)
     = Inr (inline_line\<lparr>r_ptsSimpMask := 3, m_Points := [(0, 0), (2, 0), (3, 1), (4, 0)],
              r_LimitRect := \<lparr>minX = 0, minY = 0, maxX = 4, maxY = 1\<rparr>,
              m_bPointsParsed := True\<rparr>, 0)
   \<and> ParseGeometry (plain_ext False) 5
        (inline_line\<lparr>r_ptsSimpMask := 3, m_Points := [(0, 0), (2, 0), (3, 1), (4, 0)],
              r_LimitRect := \<lparr>minX = 0, minY = 0, maxX = 4, maxY = 1\<rparr>,
              m_bPointsParsed := True\<rparr>)
     = Inr (inline_line\<lparr>r_ptsSimpMask := 3, m_Points := [(0, 0), (3, 1), (4, 0)],
              r_LimitRect := \<lparr>minX = 0, minY = 0, maxX = 4, maxY = 1\<rparr>,
              m_bPointsParsed := True\<rparr>, 0)"
  by (simp add: inline_line_def plain_ext_def unit_rect_def
      ParseGeometry_def ParseGeometry_inner_def Header_def DataPtr_def
      GetScaleIndex_def scan_first.simps filter_inner_eq upt_rec
      CalcRect_def RectD_Add_def HEADER_IS_LINE_def Let_def)

text \<open>
  C9 (amended). The stages form the chain types, common, second header, then points and
  triangles. Each \<open>Parse*\<close> asserts that it has not run: in the debug build a call on
  a reader whose flag is set is an assertion failure (no stage is idempotent). From a
  reader whose flags respect the chain, as every reader does after \<open>Deserialize\<close>, a
  stage that succeeds has its flag and the flags of all its prerequisites set, since
  it runs the stage before it when that one is missing, and the flags respect the chain
  again. \<open>ParseAll(scale)\<close> runs only the stages whose flag is not set: when it succeeds
  both the points and the triangles flag are set, and a second \<open>ParseAll\<close> changes
  nothing.
\<close>

theorem parse_stage_machine:
  "(DEBUG X \<longrightarrow>
      (m_bTypesParsed ft \<longrightarrow> ParseTypes X ft = Inl AssertFailed) \<and>
      (m_bCommonParsed ft \<longrightarrow> ParseCommon X ft = Inl AssertFailed) \<and>
      (m_bHeader2Parsed ft \<longrightarrow> ParseHeader2 X ft = Inl AssertFailed) \<and>
      (m_bPointsParsed ft \<longrightarrow> ParseGeometry X scale ft = Inl AssertFailed) \<and>
      (m_bTrianglesParsed ft \<longrightarrow> ParseTriangles X scale ft = Inl AssertFailed))
   \<and> (stage_order ft \<longrightarrow>
      (\<forall>ft'. ParseTypes X ft = Inr ft' \<longrightarrow> stage_order ft' \<and> m_bTypesParsed ft') \<and>
      (\<forall>ft'. ParseCommon X ft = Inr ft' \<longrightarrow>
          stage_order ft' \<and> m_bTypesParsed ft' \<and> m_bCommonParsed ft') \<and>
      (\<forall>ft'. ParseHeader2 X ft = Inr ft' \<longrightarrow>
          stage_order ft' \<and> m_bTypesParsed ft' \<and> m_bCommonParsed ft' \<and> m_bHeader2Parsed ft') \<and>
      (\<forall>ft' sz. ParseGeometry X scale ft = Inr (ft', sz) \<longrightarrow>
          stage_order ft' \<and> m_bTypesParsed ft' \<and> m_bCommonParsed ft' \<and> m_bHeader2Parsed ft' \<and>
          m_bPointsParsed ft') \<and>
      (\<forall>ft' sz. ParseTriangles X scale ft = Inr (ft', sz) \<longrightarrow>
          stage_order ft' \<and> m_bTypesParsed ft' \<and> m_bCommonParsed ft' \<and> m_bHeader2Parsed ft' \<and>
          m_bTrianglesParsed ft') \<and>
      (\<forall>ft'. ParseAll X scale ft = Inr ft' \<longrightarrow>
          stage_order ft' \<and> m_bTypesParsed ft' \<and> m_bCommonParsed ft' \<and> m_bHeader2Parsed ft' \<and>
          m_bPointsParsed ft' \<and> m_bTrianglesParsed ft' \<and> ParseAll X scale ft' = Inr ft'))
   \<and> stage_order (FeatureType_Deserialize X scales hbase data offset ft0)"
proof (intro conjI impI allI)
  assume "DEBUG X" "m_bTypesParsed ft"
  then show "ParseTypes X ft = Inl AssertFailed" by (simp add: ParseTypes_def)
next
  assume "DEBUG X" "m_bCommonParsed ft"
  then show "ParseCommon X ft = Inl AssertFailed" by (simp add: ParseCommon_def)
next
  assume "DEBUG X" "m_bHeader2Parsed ft"
  then show "ParseHeader2 X ft = Inl AssertFailed" by (simp add: ParseHeader2_def)
next
  assume "DEBUG X" "m_bPointsParsed ft"
  then show "ParseGeometry X scale ft = Inl AssertFailed" by (simp add: ParseGeometry_def)
next
  assume "DEBUG X" "m_bTrianglesParsed ft"
  then show "ParseTriangles X scale ft = Inl AssertFailed" by (simp add: ParseTriangles_def)
next
  fix ft' assume o: "stage_order ft" and p: "ParseTypes X ft = Inr ft'"
  show "m_bTypesParsed ft'" using ParseTypes_flags[OF p] by simp
  show "stage_order ft'" using ParseTypes_flags[OF p] o by (simp add: stage_order_def)
next
  fix ft' assume o: "stage_order ft" and p: "ParseCommon X ft = Inr ft'"
  show "m_bTypesParsed ft'" "m_bCommonParsed ft'" using ParseCommon_flags[OF p] by simp_all
  show "stage_order ft'" using ParseCommon_flags[OF p] o by (simp add: stage_order_def)
next
  fix ft' assume o: "stage_order ft" and p: "ParseHeader2 X ft = Inr ft'"
  show "m_bTypesParsed ft'" "m_bCommonParsed ft'" "m_bHeader2Parsed ft'"
    using ParseHeader2_flags[OF p o] by simp_all
  show "stage_order ft'" using ParseHeader2_flags[OF p o] by (simp add: stage_order_flags)
next
  fix ft' sz assume o: "stage_order ft" and p: "ParseGeometry X scale ft = Inr (ft', sz)"
  show "m_bTypesParsed ft'" "m_bCommonParsed ft'" "m_bHeader2Parsed ft'" "m_bPointsParsed ft'"
    using ParseGeometry_flags[OF p o] by simp_all
  show "stage_order ft'" using ParseGeometry_flags[OF p o] by (simp add: stage_order_flags)
next
  fix ft' sz assume o: "stage_order ft" and p: "ParseTriangles X scale ft = Inr (ft', sz)"
  show "m_bTypesParsed ft'" "m_bCommonParsed ft'" "m_bHeader2Parsed ft'" "m_bTrianglesParsed ft'"
    using ParseTriangles_flags[OF p o] by simp_all
  show "stage_order ft'" using ParseTriangles_flags[OF p o] by (simp add: stage_order_flags)
next
  fix ft' assume o: "stage_order ft" and p: "ParseAll X scale ft = Inr ft'"
  show "m_bTypesParsed ft'" "m_bCommonParsed ft'" "m_bHeader2Parsed ft'"
    "m_bPointsParsed ft'" "m_bTrianglesParsed ft'"
    using ParseAll_flags[OF p o] by simp_all
  show "stage_order ft'" using ParseAll_flags[OF p o] by (simp add: stage_order_flags)
  show "ParseAll X scale ft' = Inr ft'" using ParseAll_flags[OF p o] by (simp add: ParseAll_def)
next
  show "stage_order (FeatureType_Deserialize X scales hbase data offset ft0)"
    by (simp add: stage_order_def FeatureType_Deserialize_def FeatureBase_Deserialize_def)
qed

theorem parse_stage_machine_witness:
  "DEBUG (plain_ext True) \<and> stage_order fresh_line
   \<and> ParseAll (plain_ext True) 12 fresh_line = Inr parsed_line
   \<and> m_bTypesParsed parsed_line \<and> m_bCommonParsed parsed_line \<and> m_bHeader2Parsed parsed_line
   \<and> m_bPointsParsed parsed_line \<and> m_bTrianglesParsed parsed_line
   \<and> ParseAll (plain_ext True) 12 parsed_line = Inr parsed_line
   \<and> ParseHeader2 (plain_ext True) parsed_line = Inl AssertFailed"
proof -
  note T = parse_stage_machine[of "plain_ext True" fresh_line 12 "[7, 10, 14, 17]" 0 "[65, 1, 2]" 0 inline_line]
  note U = parse_stage_machine[of "plain_ext True" parsed_line 12 "[7, 10, 14, 17]" 0 "[65, 1, 2]" 0 inline_line]
  have d: "DEBUG (plain_ext True)" by (simp add: plain_ext_def)
  have o: "stage_order fresh_line" using T by (simp add: fresh_line_def)
  have a: "m_bTypesParsed parsed_line \<and> m_bCommonParsed parsed_line \<and> m_bHeader2Parsed parsed_line
   \<and> m_bPointsParsed parsed_line \<and> m_bTrianglesParsed parsed_line
   \<and> ParseAll (plain_ext True) 12 parsed_line = Inr parsed_line"
    using T o fresh_line_parse by blast
  have "ParseHeader2 (plain_ext True) parsed_line = Inl AssertFailed"
    using U d a by blast
  then show ?thesis using d o a fresh_line_parse by blast
qed

subsection \<open>The offsets written by FeatureBuilder2\<close>

lemma Serialize2_shape:
  assumes ok: "Serialize2 X fb data base = Inr data'"
  shows "m_ptsOffset data' =
           (if m_bLinear fb \<and> (word_of_nat (length (m_innerPts data)) :: byte) = 0
            then rev (m_ptsOffset data) else m_ptsOffset data)
       \<and> m_trgOffset data' =
           (if m_bArea fb \<and>
               (if (word_of_nat (length (m_innerTrg data)) :: byte) > 0
                then (word_of_nat (length (m_innerTrg data)) :: byte) - 2
                else word_of_nat (length (m_innerTrg data))) = 0
            then rev (m_trgOffset data) else m_trgOffset data)
       \<and> (\<exists>sink1. m_buffer data' = sink1
            @ (if m_bLinear fb then
                 (if (word_of_nat (length (m_innerPts data)) :: byte) > 0
                  then (if (word_of_nat (length (m_innerPts data)) :: byte) > 2
                        then write_simp_mask (m_ptsSimpMask data)
                               ((unat (word_of_nat (length (m_innerPts data)) :: byte) + 1) div 4)
                        else [])
                       @ SaveInnerPath X (m_innerPts data) base
                  else WriteVarUintArray X (rev (m_ptsOffset data)))
               else [])
            @ (if m_bArea fb then
                 (if (if (word_of_nat (length (m_innerTrg data)) :: byte) > 0
                      then (word_of_nat (length (m_innerTrg data)) :: byte) - 2
                      else word_of_nat (length (m_innerTrg data))) > 0
                  then SaveInnerTriangles X (m_innerTrg data) base
                  else WriteVarUintArray X (rev (m_trgOffset data)))
               else []))"
proof -
  let ?pc = "word_of_nat (length (m_innerPts data)) :: byte"
  let ?t0 = "word_of_nat (length (m_innerTrg data)) :: byte"
  let ?tc = "if ?t0 > 0 then ?t0 - 2 else ?t0"
  let ?s0 = "SerializeBase X fb [] (Uint64ToPointU X base)"
  let ?L = "if m_bLinear fb
            then bindE (BitSink_Write (DEBUG X) ?pc 4 (BitSink_new ?s0)) (\<lambda>b.
                   if ?pc = 0 then BitSink_Write (DEBUG X) (m_ptsMask data) 4 b else Inr b)
            else Inr (BitSink_new ?s0)"
  have a: "\<not> (?t0 > 0 \<and> \<not> ASSERT (DEBUG X) (?t0 > 2))"
    using ok unfolding Serialize2_def Let_def
    by (cases "?t0 > 0 \<and> \<not> ASSERT (DEBUG X) (?t0 > 2)") simp_all
  obtain b1 where b1: "?L = Inr b1"
    using ok a unfolding Serialize2_def Let_def by (cases ?L) simp_all
  let ?A = "if m_bArea fb
            then bindE (BitSink_Write (DEBUG X) ?tc 4 b1) (\<lambda>b.
                   if ?tc = 0 then BitSink_Write (DEBUG X) (m_trgMask data) 4 b else Inr b)
            else Inr b1"
  obtain b2 where b2: "?A = Inr b2"
    using ok a b1 unfolding Serialize2_def Let_def by (cases ?A) simp_all
  have z: "\<And>w :: byte. (0 < w) = (w \<noteq> 0)" by (simp add: word_neq_0_conv)
  show ?thesis
    using ok a b1 b2 unfolding Serialize2_def Let_def
    by (cases "m_bLinear fb"; cases "m_bArea fb"; cases "?pc = 0"; cases "?tc = 0")
       (auto simp: z)
qed

lemma Serialize2_release_returns:
  assumes "\<not> DEBUG X"
  shows "\<exists>d. Serialize2 X fb data base = Inr d"
  using assms
  by (auto simp: Serialize2_def BitSink_Write_def Let_def split: prod.splits)

lemma Serialize2_pts_reversed:
  assumes ok: "Serialize2 X fb data base = Inr data'" and l: "m_bLinear fb" "m_innerPts data = []"
  shows "m_ptsOffset data' = rev (m_ptsOffset data)
          \<and> (\<forall>i<length (m_ptsOffset data).
                m_ptsOffset data' ! i = m_ptsOffset data ! (length (m_ptsOffset data) - 1 - i))
          \<and> (\<exists>pre post. m_buffer data' = pre @ WriteVarUintArray X (m_ptsOffset data') @ post)"
proof -
  note S = Serialize2_shape[OF ok]
  have p: "m_ptsOffset data' = rev (m_ptsOffset data)" using S l by simp
  have n: "\<forall>i<length (m_ptsOffset data).
          m_ptsOffset data' ! i = m_ptsOffset data ! (length (m_ptsOffset data) - 1 - i)"
    by (simp add: p rev_nth)
  from S obtain sink1 post where
    "m_buffer data' = sink1 @ WriteVarUintArray X (rev (m_ptsOffset data)) @ post"
    using l by auto
  then have "\<exists>pre post. m_buffer data' = pre @ WriteVarUintArray X (m_ptsOffset data') @ post"
    unfolding p by blast
  then show ?thesis using p n by blast
qed

lemma Serialize2_trg_reversed:
  assumes ok: "Serialize2 X fb data base = Inr data'" and l: "m_bArea fb" "m_innerTrg data = []"
  shows "m_trgOffset data' = rev (m_trgOffset data)
          \<and> (\<forall>i<length (m_trgOffset data).
                m_trgOffset data' ! i = m_trgOffset data ! (length (m_trgOffset data) - 1 - i))
          \<and> (\<exists>pre post. m_buffer data' = pre @ WriteVarUintArray X (m_trgOffset data') @ post)"
proof -
  note S = Serialize2_shape[OF ok]
  have p: "m_trgOffset data' = rev (m_trgOffset data)" using S l by simp
  have n: "\<forall>i<length (m_trgOffset data).
          m_trgOffset data' ! i = m_trgOffset data ! (length (m_trgOffset data) - 1 - i)"
    by (simp add: p rev_nth)
  from S obtain sink1 pl where
    "m_buffer data' = sink1 @ pl @ WriteVarUintArray X (rev (m_trgOffset data))"
    using l by auto
  then have "m_buffer data' = (sink1 @ pl) @ WriteVarUintArray X (rev (m_trgOffset data)) @ []"
    by simp
  then have "\<exists>pre post. m_buffer data' = pre @ WriteVarUintArray X (m_trgOffset data') @ post"
    unfolding p by blast
  then show ?thesis using p n by blast
qed

lemma outer_holder_serialized:
  "Serialize2 (plain_ext True) line_builder outer_holder 0
     = Inr (outer_holder\<lparr>m_ptsOffset := [500, 1200], m_buffer := [65, 1, 160, 244, 3, 176, 9]\<rparr>)"
  by (simp add: Serialize2_def line_builder_def outer_holder_def plain_ext_def Let_def
      SerializeBase_def GetHeader_def HEADER_IS_LINE_def WriteVarUint.simps
      BitSink_Write_def BitSink_new_def BitSink_Finish_def)

text \<open>
  C8, as stated, has the order the wrong way round. The offsets \<open>[1200, 500]\<close> were
  pushed from the high scale index to the low (1200 for index 3, the most detailed, then
  500 for index 1). After the reversal \<open>offsets[0]\<close> is 500, the offset of the lowest
  scale present, and the last entry is 1200. The reader, given the written offsets and
  the mask, puts 500 at index 1 and 1200 at index 3, the index that the scale \<open>-1\<close>
  (the best geometry) resolves to.
\<close>

theorem Serialize2_offset_order_counterexample:
  "m_ptsOffset outer_holder = [1200, 500]
   \<and> Serialize2 (plain_ext True) line_builder outer_holder 0
     = Inr (outer_holder\<lparr>m_ptsOffset := [500, 1200], m_buffer := [65, 1, 160, 244, 3, 176, 9]\<rparr>)
   \<and> [500, 1200 :: 32 word] ! 0 = 500
   \<and> ReadOffsets (plain_ext True) 4 [244, 3, 176, 9] 10 [0, 0, 0, 0]
     = Inr ([kInvalidOffset, 500, kInvalidOffset, 1200], [])
   \<and> GetScaleIndex_offsets [7, 10, 14, 17] (- 1) [kInvalidOffset, 500, kInvalidOffset, 1200] = Inr 3"
  by (simp add: outer_holder_serialized)
     (simp add: outer_holder_def ReadOffsets_def ReadOffsets_loop.simps plain_ext_def
        GetScaleIndex_offsets_def scan_back.simps kInvalidOffset_def)

text \<open>
  C8 (amended). The release build of \<open>FeatureBuilder2::Serialize\<close> always returns. When
  it returns for a line with no inline point, the \<open>pts\<close> offsets of the holder are the
  reverse of what they were, entry \<open>i\<close> being the old entry \<open>k - 1 - i\<close>, and the
  buffer holds them written in that order; the same for an area with no inline triangle
  and the \<open>trg\<close> offsets. With offsets pushed from the high scale index to the low,
  \<open>offsets[0]\<close> is then the offset pushed last, of the lowest scale index (the lowest
  detail), and \<open>offsets[k - 1]\<close> the one pushed first, of the highest.
\<close>

theorem Serialize2_offsets_reversed:
  "(\<not> DEBUG X \<longrightarrow> (\<exists>d. Serialize2 X fb data base = Inr d))
   \<and> (\<forall>data'. Serialize2 X fb data base = Inr data' \<longrightarrow>
        (m_bLinear fb \<and> m_innerPts data = [] \<longrightarrow>
            m_ptsOffset data' = rev (m_ptsOffset data)
          \<and> (\<forall>i<length (m_ptsOffset data).
                m_ptsOffset data' ! i = m_ptsOffset data ! (length (m_ptsOffset data) - 1 - i))
          \<and> (\<exists>pre post. m_buffer data' = pre @ WriteVarUintArray X (m_ptsOffset data') @ post))
      \<and> (m_bArea fb \<and> m_innerTrg data = [] \<longrightarrow>
            m_trgOffset data' = rev (m_trgOffset data)
          \<and> (\<forall>i<length (m_trgOffset data).
                m_trgOffset data' ! i = m_trgOffset data ! (length (m_trgOffset data) - 1 - i))
          \<and> (\<exists>pre post. m_buffer data' = pre @ WriteVarUintArray X (m_trgOffset data') @ post)))"
  using Serialize2_release_returns[of X fb data base]
    Serialize2_pts_reversed[of X fb data base] Serialize2_trg_reversed[of X fb data base]
  by blast

theorem Serialize2_offsets_reversed_witness:
  "m_bLinear line_builder \<and> m_innerPts outer_holder = []
   \<and> Serialize2 (plain_ext True) line_builder outer_holder 0
     = Inr (outer_holder\<lparr>m_ptsOffset := [500, 1200], m_buffer := [65, 1, 160, 244, 3, 176, 9]\<rparr>)
   \<and> [500, 1200] = rev (m_ptsOffset outer_holder)"
proof -
  have l: "m_bLinear line_builder \<and> m_innerPts outer_holder = []"
    by (simp add: line_builder_def outer_holder_def)
  have "m_ptsOffset (outer_holder\<lparr>m_ptsOffset := [500, 1200], m_buffer := [65, 1, 160, 244, 3, 176, 9]\<rparr>)
          = rev (m_ptsOffset outer_holder)"
    using Serialize2_offsets_reversed[of "plain_ext True" line_builder outer_holder 0]
      outer_holder_serialized l by blast
  then show ?thesis using l outer_holder_serialized by simp
qed

subsection \<open>The round trip of FeatureBuilder1\<close>

lemma point_with_geometry_built:
  "AddPoint (0, 0) (SetCenter (0, 0) (AddTypes [100] (FeatureBuilder1_new (plain_ext dbg))))
     = poi_builder\<lparr>m_Geometry := [(0, 0)]\<rparr>"
  by (simp add: AddPoint_def SetCenter_def AddTypes_def FeatureBuilder1_new_def plain_ext_def
      poi_builder_def RectD_Add_def empty_rect_def origin_rect_def)

lemma point_with_geometry_body:
  "Serialize_body (plain_ext dbg) (poi_builder\<lparr>m_Geometry := [(0, 0)]\<rparr>) = Inr [33, 100, 0]"
  by (simp add: Serialize_body_def CheckValid_def SerializeBase_def GetHeader_def
      poi_builder_def plain_ext_def WriteVarUint.simps HEADER_HAS_POINT_def)

lemma replicate_7: "replicate 7 x = [x, x, x, x, x, x, x]"
  by (simp add: eval_nat_numeral)

lemma point_with_geometry_read:
  "Deserialize (plain_ext dbg) [33, 100, 0] (FeatureBuilder1_new (plain_ext dbg)) = Inr poi_builder"
  by (simp add: replicate_7 Deserialize_def InitFeatureBuilder_def FeatureBase_ParseAll_def
      FeatureBase_Deserialize_def FeatureBase_new_def FeatureBuilder1_new_def
      ParseCommon_def ParseCommon_layer_def ParseCommon_name_def ParseCommon_point_def
      ParseTypes_def ParseTypes_loop.simps GetTypesCount_def Header_def DataPtr_def
      m_TypesOffset_def CalcOffset_def CheckValid_def
      AddName_def AddLayer_def AddTypes_def SetCenter_def
      poi_builder_def plain_ext_def RectD_Add_def empty_rect_def origin_rect_def
      HEADER_HAS_NAME_def HEADER_HAS_LAYER_def HEADER_HAS_POINT_def HEADER_IS_LINE_def
      HEADER_IS_AREA_def Let_def)

text \<open>
  C1 at a builder that passes \<open>CheckValid\<close> and does not survive the round trip: a point
  feature (one type, a centre) to which a vertex was added without \<open>SetLinear\<close> or
  \<open>SetAreaAddHoles\<close>. \<open>Serialize\<close> writes the base block only, \<open>Deserialize\<close> gives
  a builder with no geometry, and \<open>operator==\<close> is false whichever way round, since the
  sizes of the geometries differ. In the debug build \<open>Serialize\<close> itself fails, at the
  \<open>ASSERT\<close> that compares the deserialized builder with this one.
\<close>

theorem Serialize_roundtrip_point_with_geometry:
  "AddPoint (0, 0) (SetCenter (0, 0) (AddTypes [100] (FeatureBuilder1_new (plain_ext False))))
     = poi_builder\<lparr>m_Geometry := [(0, 0)]\<rparr>
   \<and> CheckValid (plain_ext False) (poi_builder\<lparr>m_Geometry := [(0, 0)]\<rparr>) = Inr True
   \<and> Serialize (plain_ext False) (poi_builder\<lparr>m_Geometry := [(0, 0)]\<rparr>) = Inr [33, 100, 0]
   \<and> Deserialize (plain_ext False) [33, 100, 0] (FeatureBuilder1_new (plain_ext False)) = Inr poi_builder
   \<and> m_Geometry poi_builder = []
   \<and> FeatureBuilder1_eq (plain_ext False) poi_builder (poi_builder\<lparr>m_Geometry := [(0, 0)]\<rparr>) = False
   \<and> FeatureBuilder1_eq (plain_ext False) (poi_builder\<lparr>m_Geometry := [(0, 0)]\<rparr>) poi_builder = False
   \<and> Serialize (plain_ext True) (poi_builder\<lparr>m_Geometry := [(0, 0)]\<rparr>) = Inl AssertFailed"
proof -
  have v: "CheckValid (plain_ext False) (poi_builder\<lparr>m_Geometry := [(0, 0)]\<rparr>) = Inr True"
    by (simp add: CheckValid_def poi_builder_def plain_ext_def)
  have e: "\<And>dbg. FeatureBuilder1_eq (plain_ext dbg) poi_builder (poi_builder\<lparr>m_Geometry := [(0, 0)]\<rparr>) = False"
    "FeatureBuilder1_eq (plain_ext False) (poi_builder\<lparr>m_Geometry := [(0, 0)]\<rparr>) poi_builder = False"
    by (simp_all add: FeatureBuilder1_eq_def is_equal_v_def poi_builder_def)
  have r: "Serialize (plain_ext False) (poi_builder\<lparr>m_Geometry := [(0, 0)]\<rparr>) = Inr [33, 100, 0]"
    by (simp add: Serialize_def point_with_geometry_body) (simp add: plain_ext_def)
  have d: "DEBUG (plain_ext True)" by (simp add: plain_ext_def)
  have a: "Serialize (plain_ext True) (poi_builder\<lparr>m_Geometry := [(0, 0)]\<rparr>) = Inl AssertFailed"
    by (simp add: Serialize_def point_with_geometry_body point_with_geometry_read d e)
  show ?thesis
    using point_with_geometry_built[of False] v r point_with_geometry_read[of False] e a
    by (simp add: poi_builder_def)
qed

theorem Serialize_roundtrip_point_with_geometry_witness:
  "Serialize (plain_ext True) (poi_builder\<lparr>m_Geometry := [(0, 0)]\<rparr>) = Inl AssertFailed
   \<and> Serialize (plain_ext False) (poi_builder\<lparr>m_Geometry := [(0, 0)]\<rparr>) = Inr [33, 100, 0]"
  using Serialize_roundtrip_point_with_geometry by blast

subsection \<open>The bit packer at a byte boundary\<close>

lemma bit_below:
  fixes w :: byte
  assumes "drop_bit p w = 0" "bit w m"
  shows "m < p"
proof (rule ccontr)
  assume "\<not> m < p"
  then have "p + (m - p) = m" by simp
  then have "bit (drop_bit p w) (m - p)" using assms(2) by (simp add: bit_drop_bit_eq)
  then show False using assms(1) by simp
qed

lemma byte_field_read:
  fixes cur v :: byte
  assumes "p + c \<le> 8" "drop_bit p cur = 0" "drop_bit c v = 0"
    and "take_bit (p + c) B = cur OR push_bit p v"
  shows "drop_bit p B AND mask c = v"
proof -
  have "drop_bit p B AND mask c = take_bit c (drop_bit p B)"
    by (simp add: take_bit_eq_mask)
  also have "\<dots> = drop_bit p (take_bit (p + c) B)"
    by (simp add: drop_bit_take_bit)
  also have "\<dots> = drop_bit p (cur OR push_bit p v)"
    by (simp add: assms(4))
  also have "\<dots> = v"
  proof (rule bit_word_eqI)
    fix n assume n: "n < LENGTH(8)"
    have a: "\<not> bit cur (p + n)" using bit_below[OF assms(2), of "p + n"] by auto
    have b: "bit v n \<Longrightarrow> p + n < 8" using bit_below[OF assms(3), of n] assms(1) by auto
    show "bit (drop_bit p (cur OR push_bit p v)) n = bit v n"
      using a b by (auto simp: bit_simps)
  qed
  finally show ?thesis .
qed

lemma byte_low_bits_kept:
  fixes cur v :: byte
  assumes "drop_bit p cur = 0"
  shows "take_bit p (cur OR push_bit p v) = cur"
proof (rule bit_word_eqI)
  fix n assume "n < LENGTH(8)"
  show "bit (take_bit p (cur OR push_bit p v)) n = bit cur n"
    using bit_below[OF assms, of n] by (auto simp: bit_simps)
qed

lemma byte_high_bits_clear:
  fixes cur v :: byte
  assumes "drop_bit p cur = 0" "drop_bit c v = 0"
  shows "drop_bit (p + c) (cur OR push_bit p v) = 0"
proof (rule bit_word_eqI)
  fix n assume "n < LENGTH(8)"
  show "bit (drop_bit (p + c) (cur OR push_bit p v)) n = bit (0 :: byte) n"
    using bit_below[OF assms(1), of "p + c + n"] bit_below[OF assms(2), of "c + n"]
    by (auto simp: bit_simps)
qed

lemma byte_pos_add:
  fixes pos c :: byte
  assumes "unat pos \<le> 8" "unat c \<le> 8"
  shows "unat (pos + c) = unat pos + unat c"
  using assms by (simp add: unat_add_lem[THEN iffD1])

lemma byte_eq_8: "(w :: byte) = 8 \<longleftrightarrow> unat w = 8"
  by (simp add: word_unat_eq_iff)

lemma byte_ge_8: "(8 :: byte) \<le> w \<longleftrightarrow> 8 \<le> unat w"
  by (simp add: word_le_nat_alt)

lemma byte_gt_0: "(0 :: byte) < w \<longleftrightarrow> 0 < unat w"
  by (simp add: word_less_nat_alt)

lemma byte_lt_9: "(w :: byte) < 9 \<longleftrightarrow> unat w \<le> 8"
  by (simp add: word_less_nat_alt) arith

lemma Write_flush:
  assumes "unat (m_pos bs) = 8" "field_ok (v, c)"
  shows "BitSink_Write dbg v c bs = Inr \<lparr>m_sink = m_sink bs @ [m_current bs], m_pos = c, m_current = v\<rparr>"
  using assms
  by (simp add: BitSink_Write_def BitSink_Finish_def field_ok_def byte_lt_9 byte_gt_0 Let_def)

lemma Write_same_byte:
  assumes "unat (m_pos bs) + unat c \<le> 8" "field_ok (v, c)"
  shows "BitSink_Write dbg v c bs =
           Inr (bs\<lparr>m_current := m_current bs OR push_bit (unat (m_pos bs)) v, m_pos := m_pos bs + c\<rparr>)"
  using assms
  by (simp add: BitSink_Write_def field_ok_def byte_lt_9 Let_def)

lemma Read_in_byte:
  assumes "unat pos + unat c < 8"
  shows "BitSource_Read dbg c \<lparr>m_ptr = B # t, m_rpos = pos\<rparr>
           = Inr (drop_bit (unat pos) B AND mask (unat c), \<lparr>m_ptr = B # t, m_rpos = pos + c\<rparr>)"
proof -
  have "unat (pos + c) = unat pos + unat c" using assms by (intro byte_pos_add) auto
  then have "\<not> 8 \<le> pos + c" using assms by (simp add: byte_ge_8)
  moreover have "c < 9" using assms by (simp add: byte_lt_9)
  ultimately show ?thesis
    by (simp add: BitSource_Read_def BitSource_bits_def Let_def)
qed

lemma Read_to_end:
  assumes "unat pos + unat c = 8"
  shows "BitSource_Read dbg c \<lparr>m_ptr = B # t, m_rpos = pos\<rparr>
           = Inr (drop_bit (unat pos) B AND mask (unat c), \<lparr>m_ptr = t, m_rpos = 0\<rparr>)"
proof -
  have "unat (pos + c) = unat pos + unat c" using assms by (intro byte_pos_add) auto
  then have "pos + c = 8" using assms by (simp add: byte_eq_8)
  moreover have "c < 9" using assms by (simp add: byte_lt_9)
  ultimately show ?thesis
    by (simp add: BitSource_Read_def BitSource_bits_def Let_def)
qed

lemma Read_across:
  assumes "unat pos < 8" "unat c \<le> 8" "unat pos + unat c > 8"
  shows "BitSource_Read dbg c \<lparr>m_ptr = B # t, m_rpos = pos\<rparr>
           = (if dbg then Inl AssertFailed
              else Inr (drop_bit (unat pos) B AND mask (unat c), \<lparr>m_ptr = t, m_rpos = 0\<rparr>))"
proof -
  have u: "unat (pos + c) = unat pos + unat c" using assms by (intro byte_pos_add) auto
  then have "8 \<le> pos + c" "pos + c \<noteq> 8" using assms by (simp_all add: byte_ge_8 byte_eq_8)
  moreover have "c < 9" using assms by (simp add: byte_lt_9)
  ultimately show ?thesis
    by (simp add: BitSource_Read_def BitSource_bits_def Let_def)
qed

lemma fields_roundtrip_gen:
  assumes "list_all field_ok fs"
    and "unat (m_pos bs) \<le> 8"
    and "drop_bit (unat (m_pos bs)) (m_current bs) = 0"
    and "fits (unat (m_pos bs) mod 8) (map (\<lambda>f. unat (snd f)) fs)"
  shows "\<exists>bs' out. BitSink_WriteAll dbg fs bs = Inr bs'
        \<and> m_sink (BitSink_Finish bs') = m_sink bs @ out
        \<and> (0 < unat (m_pos bs) \<longrightarrow> out \<noteq> [] \<and> take_bit (unat (m_pos bs)) (hd out) = m_current bs)
        \<and> (\<forall>rest. \<exists>s'. BitSource_ReadAll dbg (map snd fs)
               \<lparr>m_ptr = (if unat (m_pos bs) = 8 then tl out else out) @ rest,
                m_rpos = (if unat (m_pos bs) = 8 then 0 else m_pos bs)\<rparr>
             = Inr (map fst fs, s'))"
  using assms
proof (induction fs arbitrary: bs)
  case Nil
  show ?case
  proof (cases "0 < unat (m_pos bs)")
    case True
    have "take_bit (unat (m_pos bs)) (m_current bs) = m_current bs"
      using Nil.prems(3) by (simp add: take_bit_eq_self_iff_drop_bit_eq_0)
    then show ?thesis using True
      by (simp add: BitSink_Finish_def byte_gt_0)
  next
    case False
    then show ?thesis by (simp add: BitSink_Finish_def byte_gt_0)
  qed
next
  case (Cons f fs)
  obtain v c where f: "f = (v, c)" by (cases f)
  let ?p = "unat (m_pos bs)"
  let ?k = "unat c"
  have ok: "field_ok (v, c)" and oks: "list_all field_ok fs" using Cons.prems(1) f by simp_all
  have k: "1 \<le> ?k" "?k \<le> 8" and vk: "drop_bit ?k v = 0" using ok by (simp_all add: field_ok_def)
  have fit: "?p mod 8 + ?k \<le> 8" and fits': "fits ((?p mod 8 + ?k) mod 8) (map (\<lambda>f. unat (snd f)) fs)"
    using Cons.prems(4) f by simp_all
  show ?case
  proof (cases "?p = 8")
    case True
    let ?b1 = "\<lparr>m_sink = m_sink bs @ [m_current bs], m_pos = c, m_current = v\<rparr>"
    have w: "BitSink_Write dbg v c bs = Inr ?b1" using Write_flush[OF True ok] .
    have "fits (unat (m_pos ?b1) mod 8) (map (\<lambda>f. unat (snd f)) fs)"
      using fits' True by simp
    then have "\<exists>bs' out. BitSink_WriteAll dbg fs ?b1 = Inr bs'
        \<and> m_sink (BitSink_Finish bs') = m_sink ?b1 @ out
        \<and> (0 < unat (m_pos ?b1) \<longrightarrow> out \<noteq> [] \<and> take_bit (unat (m_pos ?b1)) (hd out) = m_current ?b1)
        \<and> (\<forall>rest. \<exists>s'. BitSource_ReadAll dbg (map snd fs)
               \<lparr>m_ptr = (if unat (m_pos ?b1) = 8 then tl out else out) @ rest,
                m_rpos = (if unat (m_pos ?b1) = 8 then 0 else m_pos ?b1)\<rparr>
             = Inr (map fst fs, s'))"
      using k vk by (intro Cons.IH[OF oks]) simp_all
    note ih = this
    have sel: "m_pos ?b1 = c" "m_current ?b1 = v" "m_sink ?b1 = m_sink bs @ [m_current bs]"
      by simp_all
    have kpos: "0 < ?k" using k by simp
    from ih[unfolded sel] kpos obtain bs' out1 where
      1: "BitSink_WriteAll dbg fs ?b1 = Inr bs'"
      and 2: "m_sink (BitSink_Finish bs') = (m_sink bs @ [m_current bs]) @ out1"
      and 3: "out1 \<noteq> []" "take_bit ?k (hd out1) = v"
      and 4: "\<forall>rest. \<exists>s'. BitSource_ReadAll dbg (map snd fs)
               \<lparr>m_ptr = (if ?k = 8 then tl out1 else out1) @ rest,
                m_rpos = (if ?k = 8 then 0 else c)\<rparr>
             = Inr (map fst fs, s')"
      by blast
    obtain B t where o1: "out1 = B # t" using 3(1) by (cases out1) auto
    have rd: "drop_bit 0 B AND mask ?k = v" using 3(2) o1 by (simp add: take_bit_eq_mask)
    have r: "\<exists>s'. BitSource_ReadAll dbg (map snd (f # fs))
               \<lparr>m_ptr = out1 @ rest, m_rpos = 0\<rparr> = Inr (map fst (f # fs), s')" for rest
    proof (cases "?k = 8")
      case True
      have "BitSource_Read dbg c \<lparr>m_ptr = B # (t @ rest), m_rpos = 0\<rparr>
           = Inr (drop_bit (unat (0 :: byte)) B AND mask ?k, \<lparr>m_ptr = t @ rest, m_rpos = 0\<rparr>)"
        using True by (intro Read_to_end) simp
      moreover obtain s' where "BitSource_ReadAll dbg (map snd fs) \<lparr>m_ptr = t @ rest, m_rpos = 0\<rparr>
             = Inr (map fst fs, s')"
        using 4 True o1 by auto
      ultimately show ?thesis using rd f o1 by simp
    next
      case False
      then have "unat (0 :: byte) + ?k < 8" using k by simp
      then have "BitSource_Read dbg c \<lparr>m_ptr = B # (t @ rest), m_rpos = 0\<rparr>
           = Inr (drop_bit (unat (0 :: byte)) B AND mask ?k, \<lparr>m_ptr = B # (t @ rest), m_rpos = 0 + c\<rparr>)"
        by (rule Read_in_byte)
      moreover obtain s' where "BitSource_ReadAll dbg (map snd fs) \<lparr>m_ptr = (B # t) @ rest, m_rpos = c\<rparr>
             = Inr (map fst fs, s')"
        using 4 False o1 by auto
      ultimately show ?thesis using rd f o1 by simp
    qed
    have "BitSink_WriteAll dbg (f # fs) bs = Inr bs'" using w 1 f by simp
    moreover have "m_sink (BitSink_Finish bs') = m_sink bs @ (m_current bs # out1)" using 2 by simp
    moreover have "take_bit ?p (hd (m_current bs # out1)) = m_current bs"
      using Cons.prems(3) by (simp add: take_bit_eq_self_iff_drop_bit_eq_0)
    moreover have "\<forall>rest. \<exists>s'. BitSource_ReadAll dbg (map snd (f # fs))
               \<lparr>m_ptr = (if ?p = 8 then tl (m_current bs # out1) else m_current bs # out1) @ rest,
                m_rpos = (if ?p = 8 then 0 else m_pos bs)\<rparr>
             = Inr (map fst (f # fs), s')"
      using r True by simp
    ultimately show ?thesis by blast
  next
    case False
    then have p8: "?p < 8" using Cons.prems(2) by simp
    then have pk: "?p + ?k \<le> 8" using fit by simp
    let ?b1 = "bs\<lparr>m_current := m_current bs OR push_bit ?p v, m_pos := m_pos bs + c\<rparr>"
    have w: "BitSink_Write dbg v c bs = Inr ?b1" using Write_same_byte[OF pk ok] .
    have u: "unat (m_pos bs + c) = ?p + ?k" using pk k by (intro byte_pos_add) auto
    have i2: "unat (m_pos ?b1) \<le> 8" using u pk by simp
    have i3: "drop_bit (unat (m_pos ?b1)) (m_current ?b1) = 0"
      using byte_high_bits_clear[OF Cons.prems(3) vk] u by simp
    have i4: "fits (unat (m_pos ?b1) mod 8) (map (\<lambda>f. unat (snd f)) fs)"
      using fits' u p8 by simp
    have pos1: "0 < unat (m_pos ?b1)" using u k by simp
    have "\<exists>bs' out. BitSink_WriteAll dbg fs ?b1 = Inr bs'
        \<and> m_sink (BitSink_Finish bs') = m_sink ?b1 @ out
        \<and> (0 < unat (m_pos ?b1) \<longrightarrow> out \<noteq> [] \<and> take_bit (unat (m_pos ?b1)) (hd out) = m_current ?b1)
        \<and> (\<forall>rest. \<exists>s'. BitSource_ReadAll dbg (map snd fs)
               \<lparr>m_ptr = (if unat (m_pos ?b1) = 8 then tl out else out) @ rest,
                m_rpos = (if unat (m_pos ?b1) = 8 then 0 else m_pos ?b1)\<rparr>
             = Inr (map fst fs, s'))"
      by (rule Cons.IH[OF oks i2 i3 i4])
    note ih = this
    have sel: "m_pos ?b1 = m_pos bs + c" "m_current ?b1 = m_current bs OR push_bit ?p v"
      "m_sink ?b1 = m_sink bs"
      by simp_all
    have kpos: "0 < ?p + ?k" using k by simp
    from ih[unfolded sel u] kpos obtain bs' out where
      1: "BitSink_WriteAll dbg fs ?b1 = Inr bs'"
      and 2: "m_sink (BitSink_Finish bs') = m_sink bs @ out"
      and 3: "out \<noteq> []" "take_bit (?p + ?k) (hd out) = m_current bs OR push_bit ?p v"
      and 4: "\<forall>rest. \<exists>s'. BitSource_ReadAll dbg (map snd fs)
               \<lparr>m_ptr = (if ?p + ?k = 8 then tl out else out) @ rest,
                m_rpos = (if ?p + ?k = 8 then 0 else m_pos bs + c)\<rparr>
             = Inr (map fst fs, s')"
      by blast
    obtain B t where o: "out = B # t" using 3(1) by (cases out) auto
    have rd: "drop_bit ?p B AND mask ?k = v"
      using byte_field_read[OF pk Cons.prems(3) vk] 3(2) o by simp
    have low: "take_bit ?p (hd out) = m_current bs"
    proof -
      have "take_bit ?p (hd out) = take_bit ?p (take_bit (?p + ?k) (hd out))"
        by (simp add: min_def)
      also have "\<dots> = m_current bs"
        unfolding 3(2) using byte_low_bits_kept[OF Cons.prems(3)] .
      finally show ?thesis .
    qed
    have r: "\<exists>s'. BitSource_ReadAll dbg (map snd (f # fs))
               \<lparr>m_ptr = out @ rest, m_rpos = m_pos bs\<rparr> = Inr (map fst (f # fs), s')" for rest
    proof (cases "?p + ?k = 8")
      case True
      have "BitSource_Read dbg c \<lparr>m_ptr = B # (t @ rest), m_rpos = m_pos bs\<rparr>
           = Inr (drop_bit ?p B AND mask ?k, \<lparr>m_ptr = t @ rest, m_rpos = 0\<rparr>)"
        using True by (rule Read_to_end)
      moreover obtain s' where "BitSource_ReadAll dbg (map snd fs) \<lparr>m_ptr = t @ rest, m_rpos = 0\<rparr>
             = Inr (map fst fs, s')"
        using 4 True o by auto
      ultimately show ?thesis using rd f o by simp
    next
      case False
      then have "?p + ?k < 8" using pk by simp
      then have "BitSource_Read dbg c \<lparr>m_ptr = B # (t @ rest), m_rpos = m_pos bs\<rparr>
           = Inr (drop_bit ?p B AND mask ?k, \<lparr>m_ptr = B # (t @ rest), m_rpos = m_pos bs + c\<rparr>)"
        by (rule Read_in_byte)
      moreover obtain s' where "BitSource_ReadAll dbg (map snd fs) \<lparr>m_ptr = (B # t) @ rest, m_rpos = m_pos bs + c\<rparr>
             = Inr (map fst fs, s')"
        using 4 False o by auto
      ultimately show ?thesis using rd f o by simp
    qed
    have "BitSink_WriteAll dbg (f # fs) bs = Inr bs'" using w 1 f by simp
    moreover have "\<forall>rest. \<exists>s'. BitSource_ReadAll dbg (map snd (f # fs))
               \<lparr>m_ptr = (if ?p = 8 then tl out else out) @ rest,
                m_rpos = (if ?p = 8 then 0 else m_pos bs)\<rparr>
             = Inr (map fst (f # fs), s')"
      using r False by simp
    ultimately show ?thesis using 2 3(1) low by blast
  qed
qed

lemma Write_next_byte:
  assumes "unat (m_pos bs) + unat c > 8" "field_ok (v, c)"
  shows "BitSink_Write dbg v c bs = Inr \<lparr>m_sink = m_sink bs @ [m_current bs], m_pos = c, m_current = v\<rparr>"
proof -
  have "0 < unat (m_pos bs)" using assms by (simp add: field_ok_def)
  then show ?thesis using assms
    by (simp add: BitSink_Write_def BitSink_Finish_def field_ok_def byte_lt_9 byte_gt_0 Let_def)
qed

lemma fields_roundtrip:
  assumes "list_all field_ok fs" and "fits 0 (map (\<lambda>f. unat (snd f)) fs)"
  shows "\<exists>bs'. BitSink_WriteAll dbg fs (BitSink_new sink) = Inr bs'
        \<and> (\<exists>out. m_sink (BitSink_Finish bs') = sink @ out
        \<and> (\<forall>rest. \<exists>s'. BitSource_ReadAll dbg (map snd fs) (BitSource_new (out @ rest))
             = Inr (map fst fs, s')))"
proof -
  have "\<exists>bs' out. BitSink_WriteAll dbg fs (BitSink_new sink) = Inr bs'
        \<and> m_sink (BitSink_Finish bs') = m_sink (BitSink_new sink) @ out
        \<and> (0 < unat (m_pos (BitSink_new sink)) \<longrightarrow> out \<noteq> [] \<and>
              take_bit (unat (m_pos (BitSink_new sink))) (hd out) = m_current (BitSink_new sink))
        \<and> (\<forall>rest. \<exists>s'. BitSource_ReadAll dbg (map snd fs)
               \<lparr>m_ptr = (if unat (m_pos (BitSink_new sink)) = 8 then tl out else out) @ rest,
                m_rpos = (if unat (m_pos (BitSink_new sink)) = 8 then 0 else m_pos (BitSink_new sink))\<rparr>
             = Inr (map fst fs, s'))"
    using assms by (intro fields_roundtrip_gen) (simp_all add: BitSink_new_def)
  then show ?thesis by (simp add: BitSink_new_def BitSource_new_def)
qed

text \<open>
  C5, as stated, fails for the reader. A 4-bit field 5 and a 5-bit field 17 are written as
  the two bytes 5 and 17: the second field starts the next byte. Reading 4 and then 5
  bits from them does not give 17: the second read takes what is left of the first byte
  and finds the position beyond 8, which fails the \<open>ASSERT\<close> in the debug build; in the
  release build it returns 0 and steps to the second byte, which is never read.
\<close>

theorem BitSource_boundary_counterexample:
  "BitSink_WriteAll True [(5, 4), (17, 5)] (BitSink_new [])
     = Inr \<lparr>m_sink = [5], m_pos = 5, m_current = 17\<rparr>
   \<and> m_sink (BitSink_Finish \<lparr>m_sink = [5], m_pos = 5, m_current = 17\<rparr>) = [5, 17]
   \<and> BitSource_ReadAll True [4, 5] (BitSource_new [5, 17]) = Inl AssertFailed
   \<and> BitSource_ReadAll False [4, 5] (BitSource_new [5, 17])
     = Inr ([5, 0], \<lparr>m_ptr = [17], m_rpos = 0\<rparr>)"
  by (simp add: BitSink_new_def BitSink_Write_def BitSink_Finish_def BitSource_new_def
      BitSource_Read_def BitSource_bits_def mask_eq_exp_minus_1 Let_def)

text \<open>
  C5 (amended). For a field of 1 to 8 bits: when its bits would cross the boundary of
  the current byte, \<open>BitSink::Write\<close> flushes the current byte and places the field at
  bit 0 of the next one; otherwise it places the field at the current position. The
  reader does not do the same. \<open>BitSource::Read\<close> never combines the bits of two bytes,
  but a read that would cross the boundary takes the residual bits of the current byte
  (an assertion failure in the debug build) and only then steps to the next byte. The
  reader gives back what was written for every sequence of fields none of which crosses
  a byte boundary, such as the 4-bit fields of the second header.
\<close>

theorem bit_fields_byte_boundary:
  assumes "field_ok (v, c)" and "unat (m_pos bs) \<le> 8"
  shows "(unat (m_pos bs) + unat c > 8 \<longrightarrow>
            BitSink_Write dbg v c bs
              = Inr \<lparr>m_sink = m_sink bs @ [m_current bs], m_pos = c, m_current = v\<rparr>)
       \<and> (unat (m_pos bs) + unat c \<le> 8 \<longrightarrow>
            BitSink_Write dbg v c bs
              = Inr (bs\<lparr>m_current := m_current bs OR push_bit (unat (m_pos bs)) v,
                        m_pos := m_pos bs + c\<rparr>))
       \<and> (unat pos < 8 \<and> unat pos + unat c > 8 \<longrightarrow>
            BitSource_Read dbg c \<lparr>m_ptr = B # t, m_rpos = pos\<rparr>
              = (if dbg then Inl AssertFailed
                 else Inr (drop_bit (unat pos) B AND mask (unat c), \<lparr>m_ptr = t, m_rpos = 0\<rparr>)))
       \<and> (list_all field_ok fs \<and> fits 0 (map (\<lambda>f. unat (snd f)) fs) \<longrightarrow>
            (\<exists>bs'. BitSink_WriteAll dbg fs (BitSink_new sink) = Inr bs'
               \<and> (\<exists>out. m_sink (BitSink_Finish bs') = sink @ out
               \<and> (\<forall>rest. \<exists>s'. BitSource_ReadAll dbg (map snd fs) (BitSource_new (out @ rest))
                      = Inr (map fst fs, s')))))"
proof (intro conjI impI)
  assume "unat (m_pos bs) + unat c > 8"
  then show "BitSink_Write dbg v c bs
              = Inr \<lparr>m_sink = m_sink bs @ [m_current bs], m_pos = c, m_current = v\<rparr>"
    using assms(1) by (rule Write_next_byte)
next
  assume "unat (m_pos bs) + unat c \<le> 8"
  then show "BitSink_Write dbg v c bs
              = Inr (bs\<lparr>m_current := m_current bs OR push_bit (unat (m_pos bs)) v,
                        m_pos := m_pos bs + c\<rparr>)"
    using assms(1) by (rule Write_same_byte)
next
  assume a: "unat pos < 8 \<and> unat pos + unat c > 8"
  have "unat c \<le> 8" using assms(1) by (simp add: field_ok_def)
  then show "BitSource_Read dbg c \<lparr>m_ptr = B # t, m_rpos = pos\<rparr>
              = (if dbg then Inl AssertFailed
                 else Inr (drop_bit (unat pos) B AND mask (unat c), \<lparr>m_ptr = t, m_rpos = 0\<rparr>))"
    using a by (intro Read_across) simp_all
next
  assume "list_all field_ok fs \<and> fits 0 (map (\<lambda>f. unat (snd f)) fs)"
  then show "\<exists>bs'. BitSink_WriteAll dbg fs (BitSink_new sink) = Inr bs'
               \<and> (\<exists>out. m_sink (BitSink_Finish bs') = sink @ out
               \<and> (\<forall>rest. \<exists>s'. BitSource_ReadAll dbg (map snd fs) (BitSource_new (out @ rest))
                      = Inr (map fst fs, s')))"
    using fields_roundtrip[of fs dbg sink] by blast
qed

theorem bit_fields_byte_boundary_witness:
  "field_ok (17, 5) \<and> unat (m_pos \<lparr>m_sink = [], m_pos = 4, m_current = 5\<rparr>) \<le> 8
   \<and> unat (m_pos \<lparr>m_sink = [], m_pos = 4, m_current = 5\<rparr>) + unat (5 :: byte) > 8
   \<and> BitSink_Write True 17 5 \<lparr>m_sink = [], m_pos = 4, m_current = 5\<rparr>
        = Inr \<lparr>m_sink = [5], m_pos = 5, m_current = 17\<rparr>
   \<and> unat (4 :: byte) < 8 \<and> unat (4 :: byte) + unat (5 :: byte) > 8
   \<and> BitSource_Read True 5 \<lparr>m_ptr = [5, 17], m_rpos = 4\<rparr> = Inl AssertFailed
   \<and> list_all field_ok [(2, 4), (10, 4)] \<and> fits 0 (map (\<lambda>f. unat (snd f)) [(2, 4), (10 :: byte, 4 :: byte)])
   \<and> BitSink_WriteAll True [(2, 4), (10, 4)] (BitSink_new [])
        = Inr \<lparr>m_sink = [], m_pos = 8, m_current = 162\<rparr>
   \<and> BitSource_ReadAll True [4, 4] (BitSource_new [162]) = Inr ([2, 10], \<lparr>m_ptr = [], m_rpos = 0\<rparr>)"
proof -
  let ?bs = "\<lparr>m_sink = [], m_pos = 4, m_current = 5\<rparr> :: BitSink"
  have f: "field_ok (17, 5)" by (simp add: field_ok_def)
  have p: "unat (m_pos ?bs) \<le> 8" by simp
  have x: "unat (m_pos ?bs) + unat (5 :: byte) > 8" by simp
  have y: "unat (4 :: byte) < 8 \<and> unat (4 :: byte) + unat (5 :: byte) > 8" by simp
  have g: "list_all field_ok [(2, 4), (10, 4)] \<and> fits 0 (map (\<lambda>f. unat (snd f)) [(2, 4), (10 :: byte, 4 :: byte)])"
    by (simp add: field_ok_def)
  note T = bit_fields_byte_boundary[OF f p, of True 4 5 "[17]" "[(2, 4), (10, 4)]" "[]"]
  have 1: "BitSink_Write True 17 5 ?bs = Inr \<lparr>m_sink = [5], m_pos = 5, m_current = 17\<rparr>"
    using T x by simp
  have 2: "BitSource_Read True 5 \<lparr>m_ptr = [5, 17], m_rpos = 4\<rparr> = Inl AssertFailed"
    using T y by simp
  have 3: "BitSink_WriteAll True [(2, 4), (10, 4)] (BitSink_new [])
        = Inr \<lparr>m_sink = [], m_pos = 8, m_current = 162\<rparr>"
    by (simp add: BitSink_new_def BitSink_Write_def Let_def)
  have 4: "BitSource_ReadAll True [4, 4] (BitSource_new [162]) = Inr ([2, 10], \<lparr>m_ptr = [], m_rpos = 0\<rparr>)"
    by (simp add: BitSource_new_def BitSource_Read_def BitSource_bits_def mask_eq_exp_minus_1 Let_def)
  show ?thesis using f p x y g 1 2 3 4 by simp
qed

subsection \<open>Outer geometry that is missing at a scale\<close>

text \<open>\<open>ParseHeader2\<close> and the stages before it do not use the container.\<close>

lemma ParseTypes_container: "ParseTypes (X\<lparr>GetReader := R\<rparr>) f = ParseTypes X f"
  by (simp add: ParseTypes_def)

lemma ParseCommon_point_container:
  "ParseCommon_point (X\<lparr>GetReader := R\<rparr>) h f src = ParseCommon_point X h f src"
  by (simp add: ParseCommon_point_def)

lemma ParseCommon_container: "ParseCommon (X\<lparr>GetReader := R\<rparr>) f = ParseCommon X f"
  unfolding ParseCommon_def ParseTypes_container ParseCommon_point_container by simp

lemma ReadOffsets_container:
  "ReadOffsets (X\<lparr>GetReader := R\<rparr>) n src msk offs = ReadOffsets X n src msk offs"
  by (simp add: ReadOffsets_def)

lemma ParseHeader2_line_container:
  "ParseHeader2_line (X\<lparr>GetReader := R\<rparr>) h pc pm ft src = ParseHeader2_line X h pc pm ft src"
  unfolding ParseHeader2_line_def ReadOffsets_container by simp

lemma ParseHeader2_area_container:
  "ParseHeader2_area (X\<lparr>GetReader := R\<rparr>) h tc tm ft src = ParseHeader2_area X h tc tm ft src"
  unfolding ParseHeader2_area_def ReadOffsets_container by simp

lemma ParseHeader2_container: "ParseHeader2 (X\<lparr>GetReader := R\<rparr>) ft = ParseHeader2 X ft"
  unfolding ParseHeader2_def ParseCommon_container ParseHeader2_line_container
    ParseHeader2_area_container by simp

lemma same_container: "X\<lparr>GetReader := GetReader X\<rparr> = X"
  by simp

text \<open>The header byte and the two conditions do not depend on what the two stages set.\<close>

lemma Header_flags [simp]:
  "Header (ft\<lparr>m_bPointsParsed := p\<rparr>) = Header ft"
  "Header (ft\<lparr>m_bTrianglesParsed := t\<rparr>) = Header ft"
  "Header (ft\<lparr>m_Points := ps\<rparr>) = Header ft"
  "Header (ft\<lparr>m_Triangles := ts\<rparr>) = Header ft"
  "Header (ft\<lparr>r_LimitRect := rr\<rparr>) = Header ft"
  by (simp_all add: Header_def DataPtr_def)

lemma outer_missing_flags [simp]:
  "outer_points_missing h scale (ft\<lparr>m_bPointsParsed := p\<rparr>) = outer_points_missing h scale ft"
  "outer_points_missing h scale (ft\<lparr>m_bTrianglesParsed := t\<rparr>) = outer_points_missing h scale ft"
  "outer_points_missing h scale (ft\<lparr>m_Triangles := ts\<rparr>) = outer_points_missing h scale ft"
  "outer_points_missing h scale (ft\<lparr>r_LimitRect := rr\<rparr>) = outer_points_missing h scale ft"
  "outer_triangles_missing h scale (ft\<lparr>m_bPointsParsed := p\<rparr>) = outer_triangles_missing h scale ft"
  "outer_triangles_missing h scale (ft\<lparr>m_bTrianglesParsed := t\<rparr>) = outer_triangles_missing h scale ft"
  "outer_triangles_missing h scale (ft\<lparr>m_Points := ps\<rparr>) = outer_triangles_missing h scale ft"
  "outer_triangles_missing h scale (ft\<lparr>r_LimitRect := rr\<rparr>) = outer_triangles_missing h scale ft"
  by (simp_all add: outer_points_missing_def outer_triangles_missing_def)

text \<open>The reader once its second header is read, and the readers the two stages leave.\<close>

lemma ensure_header2_parsed:
  assumes "(if \<not> m_bHeader2Parsed ft then ParseHeader2 X ft else Inr ft) = Inr g"
  shows "m_bHeader2Parsed g"
proof (cases "m_bHeader2Parsed ft")
  case True
  then show ?thesis using assms by simp
next
  case False
  then have "ParseHeader2 X ft = Inr g" using assms by simp
  from ParseHeader2_shape[OF this] show ?thesis by auto
qed

lemma after_stage:
  assumes g: "(if \<not> m_bHeader2Parsed ft then ParseHeader2 X ft else Inr ft) = Inr g"
  shows "(if \<not> m_bHeader2Parsed (g\<lparr>m_bPointsParsed := p\<rparr>)
          then ParseHeader2 X (g\<lparr>m_bPointsParsed := p\<rparr>) else Inr (g\<lparr>m_bPointsParsed := p\<rparr>))
           = Inr (g\<lparr>m_bPointsParsed := p\<rparr>)"
    "(if \<not> m_bHeader2Parsed (g\<lparr>m_bTrianglesParsed := t\<rparr>)
          then ParseHeader2 X (g\<lparr>m_bTrianglesParsed := t\<rparr>) else Inr (g\<lparr>m_bTrianglesParsed := t\<rparr>))
           = Inr (g\<lparr>m_bTrianglesParsed := t\<rparr>)"
  using ensure_header2_parsed[OF g] by simp_all

lemma stage_order_after:
  assumes o: "stage_order ft"
    and g: "(if \<not> m_bHeader2Parsed ft then ParseHeader2 X ft else Inr ft) = Inr g"
  shows "stage_order (g\<lparr>m_bPointsParsed := p\<rparr>)" "stage_order (g\<lparr>m_bTrianglesParsed := t\<rparr>)"
  using ensure_header2_flags[OF g o] by (simp_all add: stage_order_def)

text \<open>A stage that finds its geometry missing, or has no geometry of its kind to read.\<close>

lemma ParseGeometry_missing:
  assumes g: "(if \<not> m_bHeader2Parsed ft then ParseHeader2 X ft else Inr ft) = Inr g"
    and hd: "Header g = Inr h"
    and a: "ASSERT (DEBUG X) (\<not> m_bPointsParsed ft)"
    and m: "outer_points_missing h scale g"
  shows "ParseGeometry (X\<lparr>GetReader := R\<rparr>) scale ft = Inr (g\<lparr>m_bPointsParsed := True\<rparr>, 0)"
proof -
  have g': "(if \<not> m_bHeader2Parsed ft then ParseHeader2 (X\<lparr>GetReader := R\<rparr>) ft else Inr ft) = Inr g"
    unfolding ParseHeader2_container using g .
  have o: "ParseGeometry_outer (X\<lparr>GetReader := R\<rparr>) scale g = Inr (g, 0)"
    using m by (simp add: ParseGeometry_outer_def outer_points_missing_def)
  show ?thesis
    unfolding ParseGeometry_def g'
    using a hd m o by (simp add: outer_points_missing_def)
qed

lemma ParseTriangles_missing:
  assumes g: "(if \<not> m_bHeader2Parsed ft then ParseHeader2 X ft else Inr ft) = Inr g"
    and hd: "Header g = Inr h"
    and a: "ASSERT (DEBUG X) (\<not> m_bTrianglesParsed ft)"
    and m: "outer_triangles_missing h scale g"
  shows "ParseTriangles (X\<lparr>GetReader := R\<rparr>) scale ft = Inr (g\<lparr>m_bTrianglesParsed := True\<rparr>, 0)"
proof -
  have g': "(if \<not> m_bHeader2Parsed ft then ParseHeader2 (X\<lparr>GetReader := R\<rparr>) ft else Inr ft) = Inr g"
    unfolding ParseHeader2_container using g .
  have o: "ParseTriangles_outer (X\<lparr>GetReader := R\<rparr>) scale g = Inr (g, 0)"
    using m by (simp add: ParseTriangles_outer_def outer_triangles_missing_def)
  show ?thesis
    unfolding ParseTriangles_def g'
    using a hd m o by (simp add: outer_triangles_missing_def)
qed

lemma ParseGeometry_no_line:
  assumes g: "(if \<not> m_bHeader2Parsed ft then ParseHeader2 X ft else Inr ft) = Inr g"
    and hd: "Header g = Inr h"
    and a: "ASSERT (DEBUG X) (\<not> m_bPointsParsed ft)"
    and m: "h AND HEADER_IS_LINE = 0"
  shows "ParseGeometry X scale ft = Inr (g\<lparr>m_bPointsParsed := True\<rparr>, 0)"
  unfolding ParseGeometry_def g using a hd m by simp

lemma ParseTriangles_no_area:
  assumes g: "(if \<not> m_bHeader2Parsed ft then ParseHeader2 X ft else Inr ft) = Inr g"
    and hd: "Header g = Inr h"
    and a: "ASSERT (DEBUG X) (\<not> m_bTrianglesParsed ft)"
    and m: "h AND HEADER_IS_AREA = 0"
  shows "ParseTriangles X scale ft = Inr (g\<lparr>m_bTrianglesParsed := True\<rparr>, 0)"
  unfolding ParseTriangles_def g using a hd m by simp

text \<open>What a stage that succeeds changes of the reader whose second header is read.\<close>

lemma ParseGeometry_shape:
  assumes p: "ParseGeometry X scale ft = Inr (ft', sz)"
    and g: "(if \<not> m_bHeader2Parsed ft then ParseHeader2 X ft else Inr ft) = Inr g"
  shows "\<exists>ps rr. ft' = g\<lparr>m_Points := ps, r_LimitRect := rr, m_bPointsParsed := True\<rparr>"
proof -
  have a: "ASSERT (DEBUG X) (\<not> m_bPointsParsed ft)"
    using p unfolding ParseGeometry_def
    by (cases "ASSERT (DEBUG X) (\<not> m_bPointsParsed ft)") simp_all
  obtain h where h: "Header g = Inr h"
    using p a unfolding ParseGeometry_def g by (cases "Header g") simp_all
  show ?thesis
  proof (cases "h AND HEADER_IS_LINE \<noteq> 0")
    case False
    then have "ft' = g\<lparr>m_bPointsParsed := True\<rparr>"
      using p a h unfolding ParseGeometry_def g by simp
    then have "ft' = g\<lparr>m_Points := m_Points g, r_LimitRect := r_LimitRect g, m_bPointsParsed := True\<rparr>"
      by simp
    then show ?thesis by blast
  next
    case True
    let ?B = "if m_Points g = [] then ParseGeometry_outer X scale g
              else ParseGeometry_inner X scale g"
    obtain f1 s1 where b: "?B = Inr (f1, s1)"
      using p a h True unfolding ParseGeometry_def g by (cases ?B) auto
    have r: "ft' = f1\<lparr>r_LimitRect := CalcRect (m_Points f1) (r_LimitRect f1), m_bPointsParsed := True\<rparr>"
      using p a h True b unfolding ParseGeometry_def g by simp
    obtain ps where "f1 = g\<lparr>m_Points := ps\<rparr>"
      using b ParseGeometry_outer_shape[of X scale g f1 s1] ParseGeometry_inner_shape[of X scale g f1 s1]
      by (cases "m_Points g = []") auto
    then show ?thesis using r by auto
  qed
qed

lemma ParseTriangles_shape:
  assumes p: "ParseTriangles X scale ft = Inr (ft', sz)"
    and g: "(if \<not> m_bHeader2Parsed ft then ParseHeader2 X ft else Inr ft) = Inr g"
  shows "\<exists>ts rr. ft' = g\<lparr>m_Triangles := ts, r_LimitRect := rr, m_bTrianglesParsed := True\<rparr>"
proof -
  have a: "ASSERT (DEBUG X) (\<not> m_bTrianglesParsed ft)"
    using p unfolding ParseTriangles_def
    by (cases "ASSERT (DEBUG X) (\<not> m_bTrianglesParsed ft)") simp_all
  obtain h where h: "Header g = Inr h"
    using p a unfolding ParseTriangles_def g by (cases "Header g") simp_all
  show ?thesis
  proof (cases "h AND HEADER_IS_AREA \<noteq> 0")
    case False
    then have "ft' = g\<lparr>m_bTrianglesParsed := True\<rparr>"
      using p a h unfolding ParseTriangles_def g by simp
    then have "ft' = g\<lparr>m_Triangles := m_Triangles g, r_LimitRect := r_LimitRect g, m_bTrianglesParsed := True\<rparr>"
      by simp
    then show ?thesis by blast
  next
    case True
    let ?B = "if m_Triangles g = [] then ParseTriangles_outer X scale g else Inr (g, 0)"
    obtain f1 s1 where b: "?B = Inr (f1, s1)"
      using p a h True unfolding ParseTriangles_def g by (cases ?B) auto
    have r: "ft' = f1\<lparr>r_LimitRect := CalcRect (m_Triangles f1) (r_LimitRect f1), m_bTrianglesParsed := True\<rparr>"
      using p a h True b unfolding ParseTriangles_def g by simp
    have "\<exists>ts. f1 = g\<lparr>m_Triangles := ts\<rparr>"
    proof (cases "m_Triangles g = []")
      case True
      then show ?thesis using b ParseTriangles_outer_shape[of X scale g f1 s1] by simp
    next
      case False
      then have "f1 = g\<lparr>m_Triangles := m_Triangles g\<rparr>" using b by simp
      then show ?thesis by blast
    qed
    then show ?thesis using r by auto
  qed
qed

text \<open>Inline geometry stays: the filter keeps the first and the last point.\<close>

lemma filter_inner_not_Nil: "filter_inner m si pts \<noteq> []"
  by (simp add: filter_inner_def)

lemma ParseGeometry_keeps_inline:
  assumes p: "ParseGeometry X scale ft = Inr (ft', sz)"
    and g: "(if \<not> m_bHeader2Parsed ft then ParseHeader2 X ft else Inr ft) = Inr g"
    and ne: "m_Points g \<noteq> []"
  shows "m_Points ft' \<noteq> []"
proof -
  have a: "ASSERT (DEBUG X) (\<not> m_bPointsParsed ft)"
    using p unfolding ParseGeometry_def
    by (cases "ASSERT (DEBUG X) (\<not> m_bPointsParsed ft)") simp_all
  obtain h where h: "Header g = Inr h"
    using p a unfolding ParseGeometry_def g by (cases "Header g") simp_all
  show ?thesis
  proof (cases "h AND HEADER_IS_LINE \<noteq> 0")
    case False
    then have "ft' = g\<lparr>m_bPointsParsed := True\<rparr>"
      using p a h unfolding ParseGeometry_def g by simp
    then show ?thesis using ne by simp
  next
    case True
    obtain f1 s1 where b: "ParseGeometry_inner X scale g = Inr (f1, s1)"
      using p a h True ne unfolding ParseGeometry_def g
      by (cases "ParseGeometry_inner X scale g") auto
    have r: "ft' = f1\<lparr>r_LimitRect := CalcRect (m_Points f1) (r_LimitRect f1), m_bPointsParsed := True\<rparr>"
      using p a h True ne b unfolding ParseGeometry_def g by simp
    have "m_Points f1 \<noteq> []"
      using b by (auto simp: ParseGeometry_inner_def filter_inner_not_Nil split: if_splits)
    then show ?thesis using r by simp
  qed
qed

lemma ParseTriangles_keeps_inline:
  assumes p: "ParseTriangles X scale ft = Inr (ft', sz)"
    and g: "(if \<not> m_bHeader2Parsed ft then ParseHeader2 X ft else Inr ft) = Inr g"
    and ne: "m_Triangles g \<noteq> []"
  shows "m_Triangles ft' \<noteq> []"
proof -
  have a: "ASSERT (DEBUG X) (\<not> m_bTrianglesParsed ft)"
    using p unfolding ParseTriangles_def
    by (cases "ASSERT (DEBUG X) (\<not> m_bTrianglesParsed ft)") simp_all
  obtain h where h: "Header g = Inr h"
    using p a unfolding ParseTriangles_def g by (cases "Header g") simp_all
  show ?thesis
  proof (cases "h AND HEADER_IS_AREA \<noteq> 0")
    case False
    then have "ft' = g\<lparr>m_bTrianglesParsed := True\<rparr>"
      using p a h unfolding ParseTriangles_def g by simp
    then show ?thesis using ne by simp
  next
    case True
    then have "ft' = g\<lparr>r_LimitRect := CalcRect (m_Triangles g) (r_LimitRect g),
                      m_bTrianglesParsed := True\<rparr>"
      using p a h ne unfolding ParseTriangles_def g by simp
    then show ?thesis using ne by simp
  qed
qed

text \<open>The two steps of \<open>ParseAll\<close>.\<close>

lemma ParseAll_steps:
  "ParseAll X scale ft =
     bindE (if \<not> m_bPointsParsed ft
            then bindE (ParseGeometry X scale ft) (\<lambda>(ft', sz). Inr ft')
            else Inr ft) (\<lambda>ft1.
       if \<not> m_bTrianglesParsed ft1
       then bindE (ParseTriangles X scale ft1) (\<lambda>(ft', sz). Inr ft')
       else Inr ft1)"
  by (simp add: ParseAll_def)

lemma ParseAll_first_missing:
  assumes o: "stage_order ft"
    and g: "(if \<not> m_bHeader2Parsed ft then ParseHeader2 X ft else Inr ft) = Inr g"
    and hd: "Header g = Inr h"
    and m: "h AND HEADER_IS_LINE = 0 \<or> outer_points_missing h scale g"
  shows "(if \<not> m_bPointsParsed ft
            then bindE (ParseGeometry X scale ft) (\<lambda>(ft', sz). Inr ft')
            else Inr ft) = Inr (g\<lparr>m_bPointsParsed := True\<rparr>)"
proof (cases "m_bPointsParsed ft")
  case True
  then have "m_bHeader2Parsed ft" using o by (simp add: stage_order_def)
  then have "g = ft" using g by simp
  then show ?thesis using True by simp
next
  case False
  then have a: "ASSERT (DEBUG X) (\<not> m_bPointsParsed ft)" by (simp add: ASSERT_def)
  have "ParseGeometry X scale ft = Inr (g\<lparr>m_bPointsParsed := True\<rparr>, 0)"
    using m ParseGeometry_no_line[OF g hd a, of scale]
      ParseGeometry_missing[OF g hd a, of scale "GetReader X"]
    by (auto simp: same_container)
  then show ?thesis using False by simp
qed

lemma ParseAll_second_missing:
  assumes h2: "m_bHeader2Parsed f"
    and hd: "Header f = Inr h"
    and m: "h AND HEADER_IS_AREA = 0 \<or> outer_triangles_missing h scale f"
  shows "(if \<not> m_bTrianglesParsed f
            then bindE (ParseTriangles X scale f) (\<lambda>(ft', sz). Inr ft')
            else Inr f) = Inr (f\<lparr>m_bTrianglesParsed := True\<rparr>)"
proof (cases "m_bTrianglesParsed f")
  case True
  then show ?thesis by simp
next
  case False
  then have a: "ASSERT (DEBUG X) (\<not> m_bTrianglesParsed f)" by (simp add: ASSERT_def)
  have g: "(if \<not> m_bHeader2Parsed f then ParseHeader2 X f else Inr f) = Inr f"
    using h2 by simp
  have "ParseTriangles X scale f = Inr (f\<lparr>m_bTrianglesParsed := True\<rparr>, 0)"
    using m ParseTriangles_no_area[OF g hd a, of scale]
      ParseTriangles_missing[OF g hd a, of scale "GetReader X"]
    by (auto simp: same_container)
  then show ?thesis using False by simp
qed

lemma ParseAll_first_shape:
  assumes o: "stage_order ft"
    and g: "(if \<not> m_bHeader2Parsed ft then ParseHeader2 X ft else Inr ft) = Inr g"
    and 1: "(if \<not> m_bPointsParsed ft
            then bindE (ParseGeometry X scale ft) (\<lambda>(ft', sz). Inr ft')
            else Inr ft) = Inr f1"
  shows "\<exists>ps rr. f1 = g\<lparr>m_Points := ps, r_LimitRect := rr, m_bPointsParsed := True\<rparr>
           \<and> (if m_Points g = [] then True else ps \<noteq> [])"
proof (cases "m_bPointsParsed ft")
  case True
  then have "m_bHeader2Parsed ft" using o by (simp add: stage_order_def)
  then have e: "g = ft" using g by simp
  then have "f1 = g" using 1 True by simp
  then have "f1 = g\<lparr>m_Points := m_Points g, r_LimitRect := r_LimitRect g, m_bPointsParsed := True\<rparr>
           \<and> (if m_Points g = [] then True else m_Points g \<noteq> [])"
    using True e by simp
  then show ?thesis by blast
next
  case False
  then obtain sz where p: "ParseGeometry X scale ft = Inr (f1, sz)"
    using 1 by (cases "ParseGeometry X scale ft") auto
  from ParseGeometry_shape[OF p g] obtain ps rr where
    f1: "f1 = g\<lparr>m_Points := ps, r_LimitRect := rr, m_bPointsParsed := True\<rparr>" by blast
  have "if m_Points g = [] then True else ps \<noteq> []"
    using ParseGeometry_keeps_inline[OF p g] by (simp add: f1)
  then show ?thesis using f1 by blast
qed

text \<open>The list that \<open>IsEmptyGeometry\<close> looks at, after \<open>ParseAll\<close>.\<close>

lemma ParseAll_points_missing:
  assumes o: "stage_order ft"
    and g: "(if \<not> m_bHeader2Parsed ft then ParseHeader2 X ft else Inr ft) = Inr g"
    and hd: "Header g = Inr h"
    and m: "outer_points_missing h scale g"
    and r: "ParseAll X scale ft = Inr r"
  shows "m_Points r = [] \<and> Header r = Inr h"
proof -
  let ?f = "g\<lparr>m_bPointsParsed := True\<rparr>"
  have h2: "m_bHeader2Parsed g" using ensure_header2_parsed[OF g] .
  have 1: "(if \<not> m_bPointsParsed ft
            then bindE (ParseGeometry X scale ft) (\<lambda>(ft', sz). Inr ft')
            else Inr ft) = Inr ?f"
    using ParseAll_first_missing[OF o g hd] m by blast
  have 2: "(if \<not> m_bTrianglesParsed ?f
            then bindE (ParseTriangles X scale ?f) (\<lambda>(ft', sz). Inr ft')
            else Inr ?f) = Inr r"
    using r unfolding ParseAll_steps 1 by simp
  have e: "(if \<not> m_bHeader2Parsed ?f then ParseHeader2 X ?f else Inr ?f) = Inr ?f"
    using h2 by simp
  have p: "m_Points ?f = []" using m by (simp add: outer_points_missing_def)
  show ?thesis
  proof (cases "m_bTrianglesParsed ?f")
    case True
    then have "r = ?f" using 2 by simp
    then show ?thesis using p hd by simp
  next
    case False
    then obtain sz where "ParseTriangles X scale ?f = Inr (r, sz)"
      using 2 by (cases "ParseTriangles X scale ?f") auto
    from ParseTriangles_shape[OF this e] obtain ts rr where
      "r = ?f\<lparr>m_Triangles := ts, r_LimitRect := rr, m_bTrianglesParsed := True\<rparr>" by blast
    then show ?thesis using p hd by simp
  qed
qed

lemma ParseAll_triangles_missing:
  assumes o: "stage_order ft"
    and g: "(if \<not> m_bHeader2Parsed ft then ParseHeader2 X ft else Inr ft) = Inr g"
    and hd: "Header g = Inr h"
    and m: "outer_triangles_missing h scale g"
    and r: "ParseAll X scale ft = Inr r"
  shows "m_Triangles r = [] \<and> Header r = Inr h"
proof -
  let ?G = "if \<not> m_bPointsParsed ft
            then bindE (ParseGeometry X scale ft) (\<lambda>(ft', sz). Inr ft')
            else Inr ft"
  obtain f1 where 1: "?G = Inr f1"
    using r unfolding ParseAll_steps by (cases ?G) simp_all
  from ParseAll_first_shape[OF o g 1] obtain ps rr where
    f1: "f1 = g\<lparr>m_Points := ps, r_LimitRect := rr, m_bPointsParsed := True\<rparr>" by blast
  have h2': "m_bHeader2Parsed f1" using ensure_header2_parsed[OF g] by (simp add: f1)
  have hd': "Header f1 = Inr h" using hd by (simp add: f1)
  have m': "outer_triangles_missing h scale f1" using m by (simp add: f1)
  have 2: "(if \<not> m_bTrianglesParsed f1
            then bindE (ParseTriangles X scale f1) (\<lambda>(ft', sz). Inr ft')
            else Inr f1) = Inr r"
    using r unfolding ParseAll_steps 1 by simp
  have "r = f1\<lparr>m_bTrianglesParsed := True\<rparr>"
    using ParseAll_second_missing[OF h2' hd', of scale X] m' 2 by simp
  then show ?thesis using m' hd' by (simp add: outer_triangles_missing_def)
qed

lemma ParseAll_missing_returns:
  assumes o: "stage_order ft"
    and g: "(if \<not> m_bHeader2Parsed ft then ParseHeader2 X ft else Inr ft) = Inr g"
    and hd: "Header g = Inr h"
    and ml: "h AND HEADER_IS_LINE = 0 \<or> outer_points_missing h scale g"
    and mt: "h AND HEADER_IS_AREA = 0 \<or> outer_triangles_missing h scale g"
  shows "ParseAll X scale ft = Inr (g\<lparr>m_bPointsParsed := True, m_bTrianglesParsed := True\<rparr>)"
proof -
  let ?f = "g\<lparr>m_bPointsParsed := True\<rparr>"
  have h2: "m_bHeader2Parsed ?f" using ensure_header2_parsed[OF g] by simp
  have hd': "Header ?f = Inr h" using hd by simp
  have mt': "h AND HEADER_IS_AREA = 0 \<or> outer_triangles_missing h scale ?f" using mt by simp
  show ?thesis
    unfolding ParseAll_steps ParseAll_first_missing[OF o g hd ml]
    using ParseAll_second_missing[OF h2 hd' mt', of X] by simp
qed

lemma ParseAll_points_inline:
  assumes o: "stage_order ft"
    and g: "(if \<not> m_bHeader2Parsed ft then ParseHeader2 X ft else Inr ft) = Inr g"
    and hd: "Header g = Inr h"
    and ne: "m_Points g \<noteq> []"
    and r: "ParseAll X scale ft = Inr r"
  shows "m_Points r \<noteq> [] \<and> Header r = Inr h"
proof -
  let ?G = "if \<not> m_bPointsParsed ft
            then bindE (ParseGeometry X scale ft) (\<lambda>(ft', sz). Inr ft')
            else Inr ft"
  obtain f1 where 1: "?G = Inr f1"
    using r unfolding ParseAll_steps by (cases ?G) simp_all
  from ParseAll_first_shape[OF o g 1] ne obtain ps rr where
    f1: "f1 = g\<lparr>m_Points := ps, r_LimitRect := rr, m_bPointsParsed := True\<rparr>"
    and n1: "ps \<noteq> []" by auto
  have h2: "m_bHeader2Parsed f1" using ensure_header2_parsed[OF g] by (simp add: f1)
  have hd': "Header f1 = Inr h" using hd by (simp add: f1)
  have e: "(if \<not> m_bHeader2Parsed f1 then ParseHeader2 X f1 else Inr f1) = Inr f1"
    using h2 by simp
  have 2: "(if \<not> m_bTrianglesParsed f1
            then bindE (ParseTriangles X scale f1) (\<lambda>(ft', sz). Inr ft')
            else Inr f1) = Inr r"
    using r unfolding ParseAll_steps 1 by simp
  show ?thesis
  proof (cases "m_bTrianglesParsed f1")
    case True
    then have "r = f1" using 2 by simp
    then show ?thesis using n1 hd' by (simp add: f1)
  next
    case False
    then obtain sz where "ParseTriangles X scale f1 = Inr (r, sz)"
      using 2 by (cases "ParseTriangles X scale f1") auto
    from ParseTriangles_shape[OF this e] obtain ts rr' where
      "r = f1\<lparr>m_Triangles := ts, r_LimitRect := rr', m_bTrianglesParsed := True\<rparr>" by blast
    then show ?thesis using n1 hd' by (simp add: f1)
  qed
qed

lemma ParseAll_triangles_inline:
  assumes o: "stage_order ft"
    and g: "(if \<not> m_bHeader2Parsed ft then ParseHeader2 X ft else Inr ft) = Inr g"
    and hd: "Header g = Inr h"
    and ne: "m_Triangles g \<noteq> []"
    and r: "ParseAll X scale ft = Inr r"
  shows "m_Triangles r \<noteq> [] \<and> Header r = Inr h"
proof -
  let ?G = "if \<not> m_bPointsParsed ft
            then bindE (ParseGeometry X scale ft) (\<lambda>(ft', sz). Inr ft')
            else Inr ft"
  obtain f1 where 1: "?G = Inr f1"
    using r unfolding ParseAll_steps by (cases ?G) simp_all
  from ParseAll_first_shape[OF o g 1] obtain ps rr where
    f1: "f1 = g\<lparr>m_Points := ps, r_LimitRect := rr, m_bPointsParsed := True\<rparr>" by blast
  have h2: "m_bHeader2Parsed f1" using ensure_header2_parsed[OF g] by (simp add: f1)
  have hd': "Header f1 = Inr h" using hd by (simp add: f1)
  have n1: "m_Triangles f1 \<noteq> []" using ne by (simp add: f1)
  have e: "(if \<not> m_bHeader2Parsed f1 then ParseHeader2 X f1 else Inr f1) = Inr f1"
    using h2 by simp
  have 2: "(if \<not> m_bTrianglesParsed f1
            then bindE (ParseTriangles X scale f1) (\<lambda>(ft', sz). Inr ft')
            else Inr f1) = Inr r"
    using r unfolding ParseAll_steps 1 by simp
  show ?thesis
  proof (cases "m_bTrianglesParsed f1")
    case True
    then have "r = f1" using 2 by simp
    then show ?thesis using n1 hd' by simp
  next
    case False
    then obtain sz where p: "ParseTriangles X scale f1 = Inr (r, sz)"
      using 2 by (cases "ParseTriangles X scale f1") auto
    from ParseTriangles_shape[OF p e] obtain ts rr' where
      "r = f1\<lparr>m_Triangles := ts, r_LimitRect := rr', m_bTrianglesParsed := True\<rparr>" by blast
    then have "Header r = Inr h" using hd' by simp
    then show ?thesis using ParseTriangles_keeps_inline[OF p e n1] by simp
  qed
qed

text \<open>\<open>IsEmptyGeometry\<close>: what it returns for a line and for an area, and when it returns.\<close>

lemma IsEmptyGeometry_line:
  assumes "ParseAll X scale f = Inr r" and "Header r = Inr h"
    and "GetFeatureType X h = FEATURE_TYPE_LINE"
  shows "IsEmptyGeometry X scale f = Inr (r, m_Points r = [])"
  using assms by (simp add: IsEmptyGeometry_def)

lemma IsEmptyGeometry_area:
  assumes "ParseAll X scale f = Inr r" and "Header r = Inr h"
    and "GetFeatureType X h = FEATURE_TYPE_AREA"
  shows "IsEmptyGeometry X scale f = Inr (r, m_Triangles r = [])"
  using assms by (simp add: IsEmptyGeometry_def)

lemma IsEmptyGeometry_returns:
  assumes "IsEmptyGeometry X scale f = Inr (r, b)"
  shows "ParseAll X scale f = Inr r"
proof -
  obtain r' where 1: "ParseAll X scale f = Inr r'"
    using assms unfolding IsEmptyGeometry_def by (cases "ParseAll X scale f") simp_all
  obtain h where 2: "Header r' = Inr h"
    using assms 1 unfolding IsEmptyGeometry_def by (cases "Header r'") simp_all
  have "r' = r"
    using assms 1 2 unfolding IsEmptyGeometry_def
    by (cases "GetFeatureType X h") (simp_all split: if_splits)
  then show ?thesis using 1 by simp
qed

lemma IsEmptyGeometry_points_missing:
  assumes o: "stage_order ft"
    and g: "(if \<not> m_bHeader2Parsed ft then ParseHeader2 X ft else Inr ft) = Inr g"
    and hd: "Header g = Inr h"
    and m: "outer_points_missing h scale g"
    and k: "GetFeatureType X h = FEATURE_TYPE_LINE"
    and r: "IsEmptyGeometry X scale ft = Inr (r, b)"
  shows "b \<and> m_Points r = []"
proof -
  have p: "ParseAll X scale ft = Inr r" using IsEmptyGeometry_returns[OF r] .
  have e: "m_Points r = [] \<and> Header r = Inr h"
    using ParseAll_points_missing[OF o g hd m p] .
  then show ?thesis using IsEmptyGeometry_line[OF p _ k] r by simp
qed

lemma IsEmptyGeometry_triangles_missing:
  assumes o: "stage_order ft"
    and g: "(if \<not> m_bHeader2Parsed ft then ParseHeader2 X ft else Inr ft) = Inr g"
    and hd: "Header g = Inr h"
    and m: "outer_triangles_missing h scale g"
    and k: "GetFeatureType X h = FEATURE_TYPE_AREA"
    and r: "IsEmptyGeometry X scale ft = Inr (r, b)"
  shows "b \<and> m_Triangles r = []"
proof -
  have p: "ParseAll X scale ft = Inr r" using IsEmptyGeometry_returns[OF r] .
  have e: "m_Triangles r = [] \<and> Header r = Inr h"
    using ParseAll_triangles_missing[OF o g hd m p] .
  then show ?thesis using IsEmptyGeometry_area[OF p _ k] r by simp
qed

lemma IsEmptyGeometry_missing_returns:
  assumes o: "stage_order ft"
    and g: "(if \<not> m_bHeader2Parsed ft then ParseHeader2 X ft else Inr ft) = Inr g"
    and hd: "Header g = Inr h"
    and ml: "h AND HEADER_IS_LINE = 0 \<or> outer_points_missing h scale g"
    and mt: "h AND HEADER_IS_AREA = 0 \<or> outer_triangles_missing h scale g"
    and k: "GetFeatureType X h = FEATURE_TYPE_LINE \<and> outer_points_missing h scale g
          \<or> GetFeatureType X h = FEATURE_TYPE_AREA \<and> outer_triangles_missing h scale g"
  shows "IsEmptyGeometry X scale ft
           = Inr (g\<lparr>m_bPointsParsed := True, m_bTrianglesParsed := True\<rparr>, True)"
proof -
  let ?r = "g\<lparr>m_bPointsParsed := True, m_bTrianglesParsed := True\<rparr>"
  have p: "ParseAll X scale ft = Inr ?r"
    using ParseAll_missing_returns[OF o g hd ml mt] .
  have h: "Header ?r = Inr h" using hd by simp
  from k show ?thesis
  proof
    assume a: "GetFeatureType X h = FEATURE_TYPE_LINE \<and> outer_points_missing h scale g"
    then show ?thesis using IsEmptyGeometry_line[OF p h]
      by (simp add: outer_points_missing_def)
  next
    assume a: "GetFeatureType X h = FEATURE_TYPE_AREA \<and> outer_triangles_missing h scale g"
    then show ?thesis using IsEmptyGeometry_area[OF p h]
      by (simp add: outer_triangles_missing_def)
  qed
qed

lemma IsEmptyGeometry_points_inline:
  assumes o: "stage_order ft"
    and g: "(if \<not> m_bHeader2Parsed ft then ParseHeader2 X ft else Inr ft) = Inr g"
    and hd: "Header g = Inr h"
    and ne: "m_Points g \<noteq> []"
    and k: "GetFeatureType X h = FEATURE_TYPE_LINE"
    and r: "IsEmptyGeometry X scale ft = Inr (r, b)"
  shows "\<not> b"
proof -
  have p: "ParseAll X scale ft = Inr r" using IsEmptyGeometry_returns[OF r] .
  have e: "m_Points r \<noteq> [] \<and> Header r = Inr h"
    using ParseAll_points_inline[OF o g hd ne p] .
  then show ?thesis using IsEmptyGeometry_line[OF p _ k] r by simp
qed

lemma IsEmptyGeometry_triangles_inline:
  assumes o: "stage_order ft"
    and g: "(if \<not> m_bHeader2Parsed ft then ParseHeader2 X ft else Inr ft) = Inr g"
    and hd: "Header g = Inr h"
    and ne: "m_Triangles g \<noteq> []"
    and k: "GetFeatureType X h = FEATURE_TYPE_AREA"
    and r: "IsEmptyGeometry X scale ft = Inr (r, b)"
  shows "\<not> b"
proof -
  have p: "ParseAll X scale ft = Inr r" using IsEmptyGeometry_returns[OF r] .
  have e: "m_Triangles r \<noteq> [] \<and> Header r = Inr h"
    using ParseAll_triangles_inline[OF o g hd ne p] .
  then show ?thesis using IsEmptyGeometry_area[OF p _ k] r by simp
qed

text \<open>The four readers: what \<open>ParseHeader2\<close> reads from the bytes, and the stages after it.\<close>

lemma replicate_2: "replicate 2 x = [x, x]"
  by (simp add: numeral_2_eq_2)

lemma ext_same_kind: "X\<lparr>GetFeatureType := GetFeatureType X\<rparr> = X"
  by simp

lemmas reader_simps = mask4_byte plain_ext_def inline_line_def unit_rect_def
      empty_rect_def origin_rect_def fresh_reader_def header2_reader_def
      outer_line_header2_def outer_area_header2_def mixed_points_header2_def
      mixed_triangles_header2_def
      FeatureType_Deserialize_def FeatureBase_Deserialize_def
      ParseHeader2_def ParseHeader2_line_bits_def ParseHeader2_area_bits_def
      ParseHeader2_line_def ParseHeader2_area_def ParseCommon_def ParseCommon_layer_def
      ParseCommon_name_def ParseCommon_point_def ParseTypes_def ParseTypes_loop.simps
      GetTypesCount_def Header_def DataPtr_def m_TypesOffset_def CalcOffset_def
      BitSource_new_def BitSource_Read_def BitSource_bits_def BitSource_RoundPtr_def
      read_simp_mask.simps ReadOffsets_def ReadOffsets_loop.simps push_triangles.simps
      kInvalidOffset_def replicate_2
      ParseAll_def ParseGeometry_def ParseGeometry_outer_def
      ParseGeometry_inner_def ParseTriangles_def ParseTriangles_outer_def
      GetScaleIndex_offsets_def scan_scales.simps GetScaleIndex_def scan_first.simps
      filter_inner_eq CalcRect_def RectD_Add_def
      HEADER_HAS_NAME_def HEADER_HAS_LAYER_def HEADER_HAS_POINT_def HEADER_IS_LINE_def
      HEADER_IS_AREA_def Let_def

lemma fresh_reader_flags:
  "\<not> m_bHeader2Parsed (fresh_reader bs)" "\<not> m_bPointsParsed (fresh_reader bs)"
  "\<not> m_bTrianglesParsed (fresh_reader bs)" "stage_order (fresh_reader bs)"
  by (simp_all add: fresh_reader_def FeatureType_Deserialize_def FeatureBase_Deserialize_def
      stage_order_def)

lemma header2_reader_Header:
  "Header (header2_reader (b # bs) pts po trs to) = Inr b"
  by (simp add: header2_reader_def fresh_reader_def FeatureType_Deserialize_def
      FeatureBase_Deserialize_def Header_def DataPtr_def)

lemma outer_line_read:
  "ParseHeader2 (plain_ext dbg\<lparr>GetFeatureType := G\<rparr>) (fresh_reader [65, 1, 160, 100, 120])
     = Inr outer_line_header2"
  by (simp add: reader_simps)

lemma outer_area_read:
  "ParseHeader2 (plain_ext dbg\<lparr>GetFeatureType := G\<rparr>) (fresh_reader [129, 1, 160, 100, 120])
     = Inr outer_area_header2"
  by (simp add: reader_simps)

lemma mixed_points_read:
  "ParseHeader2 (plain_ext dbg\<lparr>GetFeatureType := G\<rparr>) (fresh_reader [193, 1, 160, 1, 100, 120])
     = Inr mixed_points_header2"
  by (simp add: reader_simps)

lemma mixed_triangles_read:
  "ParseHeader2 (plain_ext dbg\<lparr>GetFeatureType := G\<rparr>) (fresh_reader [193, 1, 2, 10, 100, 120])
     = Inr mixed_triangles_header2"
  by (simp add: reader_simps)

lemma readers_Header:
  "Header outer_line_header2 = Inr 65" "Header outer_area_header2 = Inr 129"
  "Header mixed_points_header2 = Inr 193" "Header mixed_triangles_header2 = Inr 193"
  by (simp_all add: outer_line_header2_def outer_area_header2_def mixed_points_header2_def
      mixed_triangles_header2_def header2_reader_Header)

lemma readers_missing:
  "outer_points_missing 65 3 outer_line_header2"
  "outer_triangles_missing 129 3 outer_area_header2"
  "outer_points_missing 193 3 mixed_points_header2"
  "outer_triangles_missing 193 3 mixed_triangles_header2"
  by (simp_all add: outer_points_missing_def outer_triangles_missing_def
      outer_line_header2_def outer_area_header2_def mixed_points_header2_def
      mixed_triangles_header2_def header2_reader_def fresh_reader_def
      FeatureType_Deserialize_def FeatureBase_Deserialize_def
      HEADER_IS_LINE_def HEADER_IS_AREA_def
      GetScaleIndex_offsets_def scan_scales.simps kInvalidOffset_def)

lemma readers_inline:
  "m_Triangles mixed_points_header2 \<noteq> []" "m_Points mixed_triangles_header2 \<noteq> []"
  by (simp_all add: mixed_points_header2_def mixed_triangles_header2_def header2_reader_def)

lemma mixed_points_all:
  "ParseAll (plain_ext dbg\<lparr>GetFeatureType := G\<rparr>) 3 (fresh_reader [193, 1, 160, 1, 100, 120])
     = Inr (mixed_points_header2\<lparr>r_LimitRect := origin_rect, m_bPointsParsed := True,
              m_bTrianglesParsed := True\<rparr>)"
  by (simp add: reader_simps)

lemma mixed_triangles_all:
  "ParseAll (plain_ext dbg\<lparr>GetFeatureType := G\<rparr>) 3 (fresh_reader [193, 1, 2, 10, 100, 120])
     = Inr (mixed_triangles_header2\<lparr>r_LimitRect := origin_rect, m_bPointsParsed := True,
              m_bTrianglesParsed := True\<rparr>)"
  by (simp add: reader_simps)

lemma mixed_points_geometry:
  "ParseGeometry (plain_ext True) 3 (fresh_reader [193, 1, 160, 1, 100, 120])
     = Inr (mixed_points_header2\<lparr>m_bPointsParsed := True\<rparr>, 0)"
  by (simp add: reader_simps)

lemma mixed_triangles_triangles:
  "ParseTriangles (plain_ext False) 3 (fresh_reader [193, 1, 2, 10, 100, 120])
     = Inr (mixed_triangles_header2\<lparr>m_bTrianglesParsed := True\<rparr>, 0)"
  by (simp add: reader_simps)

lemma plain_kinds:
  "GetFeatureType (plain_ext True) 65 = FEATURE_TYPE_LINE"
  "(65 :: byte) AND HEADER_IS_AREA = 0"
  "GetFeatureType (plain_ext True) 129 = FEATURE_TYPE_AREA"
  "(129 :: byte) AND HEADER_IS_LINE = 0"
  "GetFeatureType (plain_ext True) 193 = FEATURE_TYPE_AREA"
  by (simp_all add: plain_ext_def HEADER_IS_LINE_def HEADER_IS_AREA_def)

text \<open>
  C7, as stated, fails for a feature that is both a line and an area. The reader of the
  bytes 193, 1, 160, 1, 100, 120 has the line bit and the area bit, no inline point, point
  offsets for the scale indices 1 and 3 only, and one inline triangle. At scale 3 the
  resolution over the point offsets returns \<open>-1\<close>, and \<open>ParseGeometry\<close> returns the size 0
  and leaves the points empty. \<open>GetFeatureType\<close>, which here reports an area when the area
  bit is set, makes \<open>IsEmptyGeometry(3)\<close> look at the triangles: it returns false. This
  does not rest on what \<open>GetFeatureType\<close> reports: the reader of the bytes 193, 1, 2, 10,
  100, 120 has two inline points and its triangles missing at scale 3, where
  \<open>ParseTriangles\<close> returns the size 0, and for every \<open>GetFeatureType\<close> the call
  \<open>IsEmptyGeometry(3)\<close> returns false on one of the two readers (in the release build,
  where it returns for every kind).
\<close>

theorem missing_outer_geometry_mixed_counterexample:
  "Header (fresh_reader [193, 1, 160, 1, 100, 120]) = Inr 193
   \<and> (193 :: byte) AND HEADER_IS_LINE \<noteq> 0
   \<and> ParseHeader2 (plain_ext True) (fresh_reader [193, 1, 160, 1, 100, 120])
       = Inr mixed_points_header2
   \<and> m_Points mixed_points_header2 = []
   \<and> GetScaleIndex_offsets (m_scales mixed_points_header2) 3 (m_ptsOffsets mixed_points_header2)
       = Inr (- 1)
   \<and> ParseGeometry (plain_ext True) 3 (fresh_reader [193, 1, 160, 1, 100, 120])
       = Inr (mixed_points_header2\<lparr>m_bPointsParsed := True\<rparr>, 0)
   \<and> GetFeatureType (plain_ext True) 193 = FEATURE_TYPE_AREA
   \<and> IsEmptyGeometry (plain_ext True) 3 (fresh_reader [193, 1, 160, 1, 100, 120])
       = Inr (mixed_points_header2\<lparr>r_LimitRect := origin_rect, m_bPointsParsed := True,
                m_bTrianglesParsed := True\<rparr>, False)
   \<and> m_Triangles mixed_triangles_header2 = []
   \<and> GetScaleIndex_offsets (m_scales mixed_triangles_header2) 3
         (m_trgOffsets mixed_triangles_header2)
       = Inr (- 1)
   \<and> ParseTriangles (plain_ext False) 3 (fresh_reader [193, 1, 2, 10, 100, 120])
       = Inr (mixed_triangles_header2\<lparr>m_bTrianglesParsed := True\<rparr>, 0)
   \<and> (\<forall>G. IsEmptyGeometry (plain_ext False\<lparr>GetFeatureType := G\<rparr>) 3
               (fresh_reader [193, 1, 160, 1, 100, 120])
             = Inr (mixed_points_header2\<lparr>r_LimitRect := origin_rect, m_bPointsParsed := True,
                      m_bTrianglesParsed := True\<rparr>, False)
          \<or> IsEmptyGeometry (plain_ext False\<lparr>GetFeatureType := G\<rparr>) 3
               (fresh_reader [193, 1, 2, 10, 100, 120])
             = Inr (mixed_triangles_header2\<lparr>r_LimitRect := origin_rect, m_bPointsParsed := True,
                      m_bTrianglesParsed := True\<rparr>, False))"
proof -
  let ?A = "[193, 1, 160, 1, 100, 120] :: buffer_t"
  let ?B = "[193, 1, 2, 10, 100, 120] :: buffer_t"
  let ?rA = "mixed_points_header2\<lparr>r_LimitRect := origin_rect, m_bPointsParsed := True,
               m_bTrianglesParsed := True\<rparr>"
  let ?rB = "mixed_triangles_header2\<lparr>r_LimitRect := origin_rect, m_bPointsParsed := True,
               m_bTrianglesParsed := True\<rparr>"
  have 1: "Header (fresh_reader ?A) = Inr 193"
    by (simp add: fresh_reader_def FeatureType_Deserialize_def FeatureBase_Deserialize_def
        Header_def DataPtr_def)
  have b: "(193 :: byte) AND HEADER_IS_LINE \<noteq> 0"
    by (simp add: HEADER_IS_LINE_def)
  have 2: "ParseHeader2 (plain_ext True) (fresh_reader ?A) = Inr mixed_points_header2"
    using mixed_points_read[where dbg = True and G = "GetFeatureType (plain_ext True)"]
    unfolding ext_same_kind .
  have 3: "m_Points mixed_points_header2 = []"
    "GetScaleIndex_offsets (m_scales mixed_points_header2) 3 (m_ptsOffsets mixed_points_header2)
       = Inr (- 1)"
    using readers_missing(3) by (simp_all add: outer_points_missing_def)
  have 4: "GetFeatureType (plain_ext True) 193 = FEATURE_TYPE_AREA"
    using plain_kinds(5) .
  have hA: "Header ?rA = Inr 193" and hB: "Header ?rB = Inr 193"
    using readers_Header by simp_all
  have tA: "m_Triangles ?rA \<noteq> []" and tB: "m_Points ?rB \<noteq> []"
    using readers_inline by simp_all
  have pA: "ParseAll (plain_ext True) 3 (fresh_reader ?A) = Inr ?rA"
    using mixed_points_all[where dbg = True and G = "GetFeatureType (plain_ext True)"]
    unfolding ext_same_kind .
  have 5: "IsEmptyGeometry (plain_ext True) 3 (fresh_reader ?A) = Inr (?rA, False)"
    using IsEmptyGeometry_area[OF pA hA 4] tA by simp
  have 6: "m_Triangles mixed_triangles_header2 = []"
    "GetScaleIndex_offsets (m_scales mixed_triangles_header2) 3
         (m_trgOffsets mixed_triangles_header2) = Inr (- 1)"
    using readers_missing(4) by (simp_all add: outer_triangles_missing_def)
  have 7: "IsEmptyGeometry (plain_ext False\<lparr>GetFeatureType := G\<rparr>) 3 (fresh_reader ?A)
             = Inr (?rA, False)
          \<or> IsEmptyGeometry (plain_ext False\<lparr>GetFeatureType := G\<rparr>) 3 (fresh_reader ?B)
             = Inr (?rB, False)" for G
  proof (cases "G 193")
    case FEATURE_TYPE_POINT
    have "IsEmptyGeometry (plain_ext False\<lparr>GetFeatureType := G\<rparr>) 3 (fresh_reader ?A)
             = Inr (?rA, False)"
      unfolding IsEmptyGeometry_def mixed_points_all
      using FEATURE_TYPE_POINT by (simp add: readers_Header plain_ext_def)
    then show ?thesis by blast
  next
    case FEATURE_TYPE_LINE
    then have k: "GetFeatureType (plain_ext False\<lparr>GetFeatureType := G\<rparr>) 193 = FEATURE_TYPE_LINE"
      by simp
    show ?thesis
      using IsEmptyGeometry_line[OF mixed_triangles_all hB k] tB by simp
  next
    case FEATURE_TYPE_AREA
    then have k: "GetFeatureType (plain_ext False\<lparr>GetFeatureType := G\<rparr>) 193 = FEATURE_TYPE_AREA"
      by simp
    show ?thesis
      using IsEmptyGeometry_area[OF mixed_points_all hA k] tA by simp
  qed
  show ?thesis
    using 1 b 2 3 mixed_points_geometry 4 5 6 mixed_triangles_triangles 7 by blast
qed

text \<open>
  C7 (amended). Let \<open>g\<close> be the reader once its second header is read: the reader itself
  when that header is parsed, and what \<open>ParseHeader2\<close> leaves of it otherwise; let \<open>h\<close> be
  its header byte. The points are missing at the scale when the line bit is set, \<open>g\<close> has
  no inline point and the resolution over its point offsets returns \<open>-1\<close>. Then
  \<open>ParseGeometry\<close>, when its assertion passes, succeeds with every container, returns the
  size 0 and leaves \<open>g\<close> with the points flag set and nothing else changed, so the points
  are empty and the container is not read. The same holds of \<open>ParseTriangles\<close> and the
  triangles. \<open>IsEmptyGeometry(scale)\<close> looks at the list of the kind that \<open>GetFeatureType\<close>
  reports for the header. On a reader whose flags respect the chain of the stages, and
  on the reader that the stage above has left: when a line is reported and the points
  are missing, it returns true whenever it returns, and it does return true when the
  area bit is not set or the triangles are missing as well; likewise when an area is
  reported and the triangles are missing. When a line is reported and \<open>g\<close> has inline
  points, or an area and \<open>g\<close> has inline triangles, it returns false whenever it returns,
  whatever is missing of the other kind.
\<close>

theorem missing_outer_geometry_is_soft:
  assumes g: "(if \<not> m_bHeader2Parsed ft then ParseHeader2 X ft else Inr ft) = Inr g"
    and hd: "Header g = Inr h"
  shows
   "(outer_points_missing h scale g \<and> ASSERT (DEBUG X) (\<not> m_bPointsParsed ft) \<longrightarrow>
       (\<forall>R. ParseGeometry (X\<lparr>GetReader := R\<rparr>) scale ft
              = Inr (g\<lparr>m_bPointsParsed := True\<rparr>, 0)))
  \<and> (outer_triangles_missing h scale g \<and> ASSERT (DEBUG X) (\<not> m_bTrianglesParsed ft) \<longrightarrow>
       (\<forall>R. ParseTriangles (X\<lparr>GetReader := R\<rparr>) scale ft
              = Inr (g\<lparr>m_bTrianglesParsed := True\<rparr>, 0)))
  \<and> (stage_order ft \<and> outer_points_missing h scale g \<and>
      GetFeatureType X h = FEATURE_TYPE_LINE \<longrightarrow>
       (\<forall>r b. IsEmptyGeometry X scale ft = Inr (r, b) \<longrightarrow> b \<and> m_Points r = [])
     \<and> (\<forall>r b. IsEmptyGeometry X scale (g\<lparr>m_bPointsParsed := True\<rparr>) = Inr (r, b)
               \<longrightarrow> b \<and> m_Points r = [])
     \<and> (h AND HEADER_IS_AREA = 0 \<or> outer_triangles_missing h scale g \<longrightarrow>
          IsEmptyGeometry X scale ft
            = Inr (g\<lparr>m_bPointsParsed := True, m_bTrianglesParsed := True\<rparr>, True)
        \<and> IsEmptyGeometry X scale (g\<lparr>m_bPointsParsed := True\<rparr>)
            = Inr (g\<lparr>m_bPointsParsed := True, m_bTrianglesParsed := True\<rparr>, True)))
  \<and> (stage_order ft \<and> outer_triangles_missing h scale g \<and>
      GetFeatureType X h = FEATURE_TYPE_AREA \<longrightarrow>
       (\<forall>r b. IsEmptyGeometry X scale ft = Inr (r, b) \<longrightarrow> b \<and> m_Triangles r = [])
     \<and> (\<forall>r b. IsEmptyGeometry X scale (g\<lparr>m_bTrianglesParsed := True\<rparr>) = Inr (r, b)
               \<longrightarrow> b \<and> m_Triangles r = [])
     \<and> (h AND HEADER_IS_LINE = 0 \<or> outer_points_missing h scale g \<longrightarrow>
          IsEmptyGeometry X scale ft
            = Inr (g\<lparr>m_bPointsParsed := True, m_bTrianglesParsed := True\<rparr>, True)
        \<and> IsEmptyGeometry X scale (g\<lparr>m_bTrianglesParsed := True\<rparr>)
            = Inr (g\<lparr>m_bPointsParsed := True, m_bTrianglesParsed := True\<rparr>, True)))
  \<and> (stage_order ft \<and> m_Points g \<noteq> [] \<and> GetFeatureType X h = FEATURE_TYPE_LINE \<longrightarrow>
       (\<forall>r b. IsEmptyGeometry X scale ft = Inr (r, b) \<longrightarrow> \<not> b))
  \<and> (stage_order ft \<and> m_Triangles g \<noteq> [] \<and> GetFeatureType X h = FEATURE_TYPE_AREA \<longrightarrow>
       (\<forall>r b. IsEmptyGeometry X scale ft = Inr (r, b) \<longrightarrow> \<not> b))"
proof -
  let ?P = "g\<lparr>m_bPointsParsed := True\<rparr>"
  let ?T = "g\<lparr>m_bTrianglesParsed := True\<rparr>"
  let ?PT = "g\<lparr>m_bPointsParsed := True, m_bTrianglesParsed := True\<rparr>"
  have hP: "Header ?P = Inr h" and hT: "Header ?T = Inr h" using hd by simp_all
  have 1: "outer_points_missing h scale g \<and> ASSERT (DEBUG X) (\<not> m_bPointsParsed ft) \<longrightarrow>
       (\<forall>R. ParseGeometry (X\<lparr>GetReader := R\<rparr>) scale ft = Inr (?P, 0))"
    using ParseGeometry_missing[OF g hd] by blast
  have 2: "outer_triangles_missing h scale g \<and> ASSERT (DEBUG X) (\<not> m_bTrianglesParsed ft) \<longrightarrow>
       (\<forall>R. ParseTriangles (X\<lparr>GetReader := R\<rparr>) scale ft = Inr (?T, 0))"
    using ParseTriangles_missing[OF g hd] by blast
  have 3: "(\<forall>r b. IsEmptyGeometry X scale ft = Inr (r, b) \<longrightarrow> b \<and> m_Points r = [])
     \<and> (\<forall>r b. IsEmptyGeometry X scale ?P = Inr (r, b) \<longrightarrow> b \<and> m_Points r = [])
     \<and> (h AND HEADER_IS_AREA = 0 \<or> outer_triangles_missing h scale g \<longrightarrow>
          IsEmptyGeometry X scale ft = Inr (?PT, True)
        \<and> IsEmptyGeometry X scale ?P = Inr (?PT, True))"
    if o: "stage_order ft" and m: "outer_points_missing h scale g"
      and k: "GetFeatureType X h = FEATURE_TYPE_LINE"
  proof (intro conjI allI impI)
    fix r b assume "IsEmptyGeometry X scale ft = Inr (r, b)"
    from IsEmptyGeometry_points_missing[OF o g hd m k this]
    show "b" "m_Points r = []" by simp_all
  next
    fix r b assume "IsEmptyGeometry X scale ?P = Inr (r, b)"
    from IsEmptyGeometry_points_missing[OF stage_order_after(1)[OF o g, of True]
        after_stage(1)[OF g, of True] hP _ k this] m
    show "b" "m_Points r = []" by simp_all
  next
    assume t: "h AND HEADER_IS_AREA = 0 \<or> outer_triangles_missing h scale g"
    show "IsEmptyGeometry X scale ft = Inr (?PT, True)"
      using IsEmptyGeometry_missing_returns[OF o g hd _ t] m k by blast
    have "IsEmptyGeometry X scale ?P
            = Inr (?P\<lparr>m_bPointsParsed := True, m_bTrianglesParsed := True\<rparr>, True)"
      using IsEmptyGeometry_missing_returns[OF stage_order_after(1)[OF o g, of True]
          after_stage(1)[OF g, of True] hP, of scale] m k t by simp
    then show "IsEmptyGeometry X scale ?P = Inr (?PT, True)" by simp
  qed
  have 4: "(\<forall>r b. IsEmptyGeometry X scale ft = Inr (r, b) \<longrightarrow> b \<and> m_Triangles r = [])
     \<and> (\<forall>r b. IsEmptyGeometry X scale ?T = Inr (r, b) \<longrightarrow> b \<and> m_Triangles r = [])
     \<and> (h AND HEADER_IS_LINE = 0 \<or> outer_points_missing h scale g \<longrightarrow>
          IsEmptyGeometry X scale ft = Inr (?PT, True)
        \<and> IsEmptyGeometry X scale ?T = Inr (?PT, True))"
    if o: "stage_order ft" and m: "outer_triangles_missing h scale g"
      and k: "GetFeatureType X h = FEATURE_TYPE_AREA"
  proof (intro conjI allI impI)
    fix r b assume "IsEmptyGeometry X scale ft = Inr (r, b)"
    from IsEmptyGeometry_triangles_missing[OF o g hd m k this]
    show "b" "m_Triangles r = []" by simp_all
  next
    fix r b assume "IsEmptyGeometry X scale ?T = Inr (r, b)"
    from IsEmptyGeometry_triangles_missing[OF stage_order_after(2)[OF o g, of True]
        after_stage(2)[OF g, of True] hT _ k this] m
    show "b" "m_Triangles r = []" by simp_all
  next
    assume t: "h AND HEADER_IS_LINE = 0 \<or> outer_points_missing h scale g"
    show "IsEmptyGeometry X scale ft = Inr (?PT, True)"
      using IsEmptyGeometry_missing_returns[OF o g hd t] m k by blast
    have "IsEmptyGeometry X scale ?T
            = Inr (?T\<lparr>m_bPointsParsed := True, m_bTrianglesParsed := True\<rparr>, True)"
      using IsEmptyGeometry_missing_returns[OF stage_order_after(2)[OF o g, of True]
          after_stage(2)[OF g, of True] hT, of scale] m k t by simp
    then show "IsEmptyGeometry X scale ?T = Inr (?PT, True)" by simp
  qed
  have 5: "stage_order ft \<and> m_Points g \<noteq> [] \<and> GetFeatureType X h = FEATURE_TYPE_LINE \<longrightarrow>
       (\<forall>r b. IsEmptyGeometry X scale ft = Inr (r, b) \<longrightarrow> \<not> b)"
    using IsEmptyGeometry_points_inline[OF _ g hd] by blast
  have 6: "stage_order ft \<and> m_Triangles g \<noteq> [] \<and> GetFeatureType X h = FEATURE_TYPE_AREA \<longrightarrow>
       (\<forall>r b. IsEmptyGeometry X scale ft = Inr (r, b) \<longrightarrow> \<not> b)"
    using IsEmptyGeometry_triangles_inline[OF _ g hd] by blast
  show ?thesis using 1 2 3 4 5 6 by blast
qed

theorem missing_outer_geometry_is_soft_witness:
  "(if \<not> m_bHeader2Parsed (fresh_reader [65, 1, 160, 100, 120])
    then ParseHeader2 (plain_ext True) (fresh_reader [65, 1, 160, 100, 120])
    else Inr (fresh_reader [65, 1, 160, 100, 120])) = Inr outer_line_header2
   \<and> Header outer_line_header2 = Inr 65
   \<and> outer_points_missing 65 3 outer_line_header2
   \<and> ASSERT (DEBUG (plain_ext True)) (\<not> m_bPointsParsed (fresh_reader [65, 1, 160, 100, 120]))
   \<and> stage_order (fresh_reader [65, 1, 160, 100, 120])
   \<and> GetFeatureType (plain_ext True) 65 = FEATURE_TYPE_LINE
   \<and> (65 :: byte) AND HEADER_IS_AREA = 0
   \<and> ParseGeometry (plain_ext True\<lparr>GetReader := \<lambda>t i. Inl ReadPastEnd\<rparr>) 3
        (fresh_reader [65, 1, 160, 100, 120])
       = Inr (outer_line_header2\<lparr>m_bPointsParsed := True\<rparr>, 0)
   \<and> IsEmptyGeometry (plain_ext True) 3 (fresh_reader [65, 1, 160, 100, 120])
       = Inr (outer_line_header2\<lparr>m_bPointsParsed := True, m_bTrianglesParsed := True\<rparr>, True)
   \<and> IsEmptyGeometry (plain_ext True) 3 (outer_line_header2\<lparr>m_bPointsParsed := True\<rparr>)
       = Inr (outer_line_header2\<lparr>m_bPointsParsed := True, m_bTrianglesParsed := True\<rparr>, True)
   \<and> (if \<not> m_bHeader2Parsed (fresh_reader [129, 1, 160, 100, 120])
      then ParseHeader2 (plain_ext True) (fresh_reader [129, 1, 160, 100, 120])
      else Inr (fresh_reader [129, 1, 160, 100, 120])) = Inr outer_area_header2
   \<and> Header outer_area_header2 = Inr 129
   \<and> outer_triangles_missing 129 3 outer_area_header2
   \<and> ASSERT (DEBUG (plain_ext True)) (\<not> m_bTrianglesParsed (fresh_reader [129, 1, 160, 100, 120]))
   \<and> stage_order (fresh_reader [129, 1, 160, 100, 120])
   \<and> GetFeatureType (plain_ext True) 129 = FEATURE_TYPE_AREA
   \<and> (129 :: byte) AND HEADER_IS_LINE = 0
   \<and> ParseTriangles (plain_ext True\<lparr>GetReader := \<lambda>t i. Inl ReadPastEnd\<rparr>) 3
        (fresh_reader [129, 1, 160, 100, 120])
       = Inr (outer_area_header2\<lparr>m_bTrianglesParsed := True\<rparr>, 0)
   \<and> IsEmptyGeometry (plain_ext True) 3 (fresh_reader [129, 1, 160, 100, 120])
       = Inr (outer_area_header2\<lparr>m_bPointsParsed := True, m_bTrianglesParsed := True\<rparr>, True)
   \<and> IsEmptyGeometry (plain_ext True) 3 (outer_area_header2\<lparr>m_bTrianglesParsed := True\<rparr>)
       = Inr (outer_area_header2\<lparr>m_bPointsParsed := True, m_bTrianglesParsed := True\<rparr>, True)
   \<and> (if \<not> m_bHeader2Parsed parsed_line then ParseHeader2 (plain_ext True) parsed_line
      else Inr parsed_line) = Inr parsed_line
   \<and> Header parsed_line = Inr 65
   \<and> stage_order parsed_line
   \<and> m_Points parsed_line \<noteq> []
   \<and> IsEmptyGeometry (plain_ext True) 12 parsed_line = Inr (parsed_line, False)
   \<and> (if \<not> m_bHeader2Parsed (fresh_reader [193, 1, 160, 1, 100, 120])
      then ParseHeader2 (plain_ext True) (fresh_reader [193, 1, 160, 1, 100, 120])
      else Inr (fresh_reader [193, 1, 160, 1, 100, 120])) = Inr mixed_points_header2
   \<and> Header mixed_points_header2 = Inr 193
   \<and> stage_order (fresh_reader [193, 1, 160, 1, 100, 120])
   \<and> m_Triangles mixed_points_header2 \<noteq> []
   \<and> GetFeatureType (plain_ext True) 193 = FEATURE_TYPE_AREA
   \<and> IsEmptyGeometry (plain_ext True) 3 (fresh_reader [193, 1, 160, 1, 100, 120])
       = Inr (mixed_points_header2\<lparr>r_LimitRect := origin_rect, m_bPointsParsed := True,
                m_bTrianglesParsed := True\<rparr>, False)"
proof -
  let ?L = "[65, 1, 160, 100, 120] :: buffer_t"
  let ?A = "[129, 1, 160, 100, 120] :: buffer_t"
  let ?M = "[193, 1, 160, 1, 100, 120] :: buffer_t"
  let ?gL = outer_line_header2
  let ?gA = outer_area_header2
  let ?rM = "mixed_points_header2\<lparr>r_LimitRect := origin_rect, m_bPointsParsed := True,
               m_bTrianglesParsed := True\<rparr>"
  have gL: "(if \<not> m_bHeader2Parsed (fresh_reader ?L)
             then ParseHeader2 (plain_ext True) (fresh_reader ?L)
             else Inr (fresh_reader ?L)) = Inr ?gL"
    using outer_line_read[where dbg = True and G = "GetFeatureType (plain_ext True)"]
      fresh_reader_flags(1)[of ?L]
    unfolding ext_same_kind by simp
  have gA: "(if \<not> m_bHeader2Parsed (fresh_reader ?A)
             then ParseHeader2 (plain_ext True) (fresh_reader ?A)
             else Inr (fresh_reader ?A)) = Inr ?gA"
    using outer_area_read[where dbg = True and G = "GetFeatureType (plain_ext True)"]
      fresh_reader_flags(1)[of ?A]
    unfolding ext_same_kind by simp
  have gM: "(if \<not> m_bHeader2Parsed (fresh_reader ?M)
             then ParseHeader2 (plain_ext True) (fresh_reader ?M)
             else Inr (fresh_reader ?M)) = Inr mixed_points_header2"
    using mixed_points_read[where dbg = True and G = "GetFeatureType (plain_ext True)"]
      fresh_reader_flags(1)[of ?M]
    unfolding ext_same_kind by simp
  have gP: "(if \<not> m_bHeader2Parsed parsed_line then ParseHeader2 (plain_ext True) parsed_line
             else Inr parsed_line) = Inr parsed_line"
    by (simp add: parsed_line_def inline_line_def)
  have hP: "Header parsed_line = Inr 65"
    by (simp add: parsed_line_def inline_line_def Header_def DataPtr_def)
  have oP: "stage_order parsed_line" and nP: "m_Points parsed_line \<noteq> []"
    by (simp_all add: parsed_line_def inline_line_def stage_order_def)
  have aL: "ASSERT (DEBUG (plain_ext True)) (\<not> m_bPointsParsed (fresh_reader ?L))"
    and aA: "ASSERT (DEBUG (plain_ext True)) (\<not> m_bTrianglesParsed (fresh_reader ?A))"
    using fresh_reader_flags by simp_all
  note hL = readers_Header(1) and hA = readers_Header(2) and hM = readers_Header(3)
  note mL = readers_missing(1) and mA = readers_missing(2)
  note oL = fresh_reader_flags(4)[of ?L] and oA = fresh_reader_flags(4)[of ?A]
    and oM = fresh_reader_flags(4)[of ?M]
  note k = plain_kinds
  note TL = missing_outer_geometry_is_soft[OF gL hL, of 3]
  note TA = missing_outer_geometry_is_soft[OF gA hA, of 3]
  note TP = missing_outer_geometry_is_soft[OF gP hP, of 12]
  note TM = missing_outer_geometry_is_soft[OF gM hM, of 3]
  have 1: "ParseGeometry (plain_ext True\<lparr>GetReader := \<lambda>t i. Inl ReadPastEnd\<rparr>) 3 (fresh_reader ?L)
       = Inr (?gL\<lparr>m_bPointsParsed := True\<rparr>, 0)"
    using TL mL aL by blast
  have 2: "IsEmptyGeometry (plain_ext True) 3 (fresh_reader ?L)
       = Inr (?gL\<lparr>m_bPointsParsed := True, m_bTrianglesParsed := True\<rparr>, True)"
    "IsEmptyGeometry (plain_ext True) 3 (?gL\<lparr>m_bPointsParsed := True\<rparr>)
       = Inr (?gL\<lparr>m_bPointsParsed := True, m_bTrianglesParsed := True\<rparr>, True)"
    using TL mL oL k(1,2) by blast+
  have 3: "ParseTriangles (plain_ext True\<lparr>GetReader := \<lambda>t i. Inl ReadPastEnd\<rparr>) 3 (fresh_reader ?A)
       = Inr (?gA\<lparr>m_bTrianglesParsed := True\<rparr>, 0)"
    using TA mA aA by blast
  have 4: "IsEmptyGeometry (plain_ext True) 3 (fresh_reader ?A)
       = Inr (?gA\<lparr>m_bPointsParsed := True, m_bTrianglesParsed := True\<rparr>, True)"
    "IsEmptyGeometry (plain_ext True) 3 (?gA\<lparr>m_bTrianglesParsed := True\<rparr>)
       = Inr (?gA\<lparr>m_bPointsParsed := True, m_bTrianglesParsed := True\<rparr>, True)"
    using TA mA oA k(3,4) by blast+
  have pP: "ParseAll (plain_ext True) 12 parsed_line = Inr parsed_line"
    by (simp add: ParseAll_def parsed_line_def inline_line_def)
  have eP: "IsEmptyGeometry (plain_ext True) 12 parsed_line
              = Inr (parsed_line, m_Points parsed_line = [])"
    using IsEmptyGeometry_line[OF pP hP k(1)] .
  then obtain bP where eP': "IsEmptyGeometry (plain_ext True) 12 parsed_line = Inr (parsed_line, bP)"
    by blast
  have "\<not> bP"
    using TP oP nP k(1) eP' by blast
  then have 5: "IsEmptyGeometry (plain_ext True) 12 parsed_line = Inr (parsed_line, False)"
    using eP' by simp
  have pM: "ParseAll (plain_ext True) 3 (fresh_reader ?M) = Inr ?rM"
    using mixed_points_all[where dbg = True and G = "GetFeatureType (plain_ext True)"]
    unfolding ext_same_kind .
  have hrM: "Header ?rM = Inr 193" using hM by simp
  have eM: "IsEmptyGeometry (plain_ext True) 3 (fresh_reader ?M) = Inr (?rM, m_Triangles ?rM = [])"
    using IsEmptyGeometry_area[OF pM hrM k(5)] .
  then obtain bM where eM': "IsEmptyGeometry (plain_ext True) 3 (fresh_reader ?M) = Inr (?rM, bM)"
    by blast
  have "\<not> bM"
    using TM oM readers_inline(1) k(5) eM' by blast
  then have 6: "IsEmptyGeometry (plain_ext True) 3 (fresh_reader ?M) = Inr (?rM, False)"
    using eM' by simp
  show ?thesis
    using gL hL mL aL oL k 1 2 gA hA mA aA oA 3 4 gP hP oP nP 5 gM hM oM readers_inline(1) 6
    by blast
qed

end
